(* ===== verification/Prelude.thy ===== *)
theory Prelude
  imports Main "HOL-Library.State_Monad" "HOL-Library.Monad_Syntax"
begin

text \<open>
  Vocabulary shared by every component of the model: Go errors, the control flow of the
  reconcilers' closures, the state monad in which the code's mutation is written, and a
  weakest-precondition calculus for it. Nothing here models a part of the program by itself.
\<close>

section \<open>Errors and control flow\<close>

text \<open>
  A Go \<open>error\<close> value. An error of the Kubernetes API carries a status reason, which
  \<open>errors.IsNotFound\<close> and \<open>errors.IsConflict\<close> inspect; \<open>fmt.Errorf\<close> makes plain errors.
\<close>

datatype status_reason = ReasonNotFound | ReasonConflict | ReasonOther string

datatype error = StatusError status_reason string | PlainError string

fun IsNotFound :: "error \<Rightarrow> bool" where
  "IsNotFound (StatusError r _) = (r = ReasonNotFound)"
| "IsNotFound (PlainError _) = False"

fun IsConflict :: "error \<Rightarrow> bool" where
  "IsConflict (StatusError r _) = (r = ReasonConflict)"
| "IsConflict (PlainError _) = False"

fun Error_text :: "error \<Rightarrow> string" where
  "Error_text (StatusError _ m) = m"
| "Error_text (PlainError m) = m"

lemma not_found_not_conflict [simp]: "IsNotFound e \<Longrightarrow> \<not> IsConflict e"
  by (cases e) auto

text \<open>
  The closures of a reconciler return a boolean: \<open>true\<close> makes the reconciler return at once,
  \<open>false\<close> lets it go on. A nil dereference ends the closure with a panic instead. A loop
  body uses the same type: \<open>continue\<close> and falling off the end are \<open>Continue\<close>. A loop of the
  code that has no bound is given fuel; \<open>Diverge\<close> says that it had not ended when the fuel was
  spent.
\<close>

datatype flow = Continue | Stop | Panic | Diverge

text \<open>What a function that returns a value and an error, or panics, evaluates to.\<close>

datatype 'a outcome = Ret 'a | Err error | Panics

section \<open>Weakest preconditions of state-monad programs\<close>

named_theorems wp_simps \<open>equations that compute the weakest precondition of a program\<close>

definition wp :: "('s, 'a) state \<Rightarrow> ('a \<Rightarrow> 's \<Rightarrow> bool) \<Rightarrow> 's \<Rightarrow> bool" where
  "wp m Q s = (case run_state m s of (a, s') \<Rightarrow> Q a s')"

lemma wp_return [wp_simps]: "wp (State_Monad.return a) Q = Q a"
  by (simp add: wp_def fun_eq_iff)

lemma wp_bind [wp_simps]: "wp (m \<bind> f) Q = wp m (\<lambda>a. wp (f a) Q)"
  by (simp add: wp_def fun_eq_iff split: prod.splits)

lemma wp_get [wp_simps]: "wp State_Monad.get Q = (\<lambda>s. Q s s)"
  by (simp add: wp_def fun_eq_iff)

lemma wp_update [wp_simps]: "wp (State_Monad.update f) Q = (\<lambda>s. Q () (f s))"
  by (simp add: wp_def fun_eq_iff State_Monad.update_def)

lemma wp_if [wp_simps]:
  "wp (if b then m else n) Q = (\<lambda>s. if b then wp m Q s else wp n Q s)"
  by simp

lemma wp_case_option [wp_simps]:
  "wp (case x of None \<Rightarrow> m | Some a \<Rightarrow> f a) Q =
   (\<lambda>s. case x of None \<Rightarrow> wp m Q s | Some a \<Rightarrow> wp (f a) Q s)"
  by (cases x) simp_all

lemma wp_case_sum [wp_simps]:
  "wp (case x of Inl e \<Rightarrow> f e | Inr a \<Rightarrow> g a) Q =
   (\<lambda>s. case x of Inl e \<Rightarrow> wp (f e) Q s | Inr a \<Rightarrow> wp (g a) Q s)"
  by (cases x) simp_all

lemma wp_case_flow [wp_simps]:
  "wp (case x of Continue \<Rightarrow> c | Stop \<Rightarrow> t | Panic \<Rightarrow> p | Diverge \<Rightarrow> d) Q =
   (\<lambda>s. case x of Continue \<Rightarrow> wp c Q s | Stop \<Rightarrow> wp t Q s | Panic \<Rightarrow> wp p Q s | Diverge \<Rightarrow> wp d Q s)"
  by (cases x) simp_all

lemma wp_case_outcome [wp_simps]:
  "wp (case x of Ret a \<Rightarrow> f a | Err e \<Rightarrow> g e | Panics \<Rightarrow> p) Q =
   (\<lambda>s. case x of Ret a \<Rightarrow> wp (f a) Q s | Err e \<Rightarrow> wp (g e) Q s | Panics \<Rightarrow> wp p Q s)"
  by (cases x) simp_all

lemma wp_case_prod [wp_simps]:
  "wp (case x of (a, b) \<Rightarrow> f a b) Q = (\<lambda>s. case x of (a, b) \<Rightarrow> wp (f a b) Q s)"
  by (cases x) simp

lemma wp_let [wp_simps]: "wp (let x = a in f x) Q = (\<lambda>s. let x = a in wp (f x) Q s)"
  by (simp add: Let_def)

lemma wp_mono:
  assumes "wp m Q s" and "\<And>a s'. Q a s' \<Longrightarrow> R a s'"
  shows "wp m R s"
  using assms by (auto simp: wp_def split: prod.splits)

lemma wp_conj: "wp m (\<lambda>a s'. P a s' \<and> Q a s') s \<longleftrightarrow> wp m P s \<and> wp m Q s"
  by (simp add: wp_def split: prod.splits)

lemma wp_true [simp]: "wp m (\<lambda>_ _. True) s"
  by (simp add: wp_def split: prod.splits)

lemma wp_run: "wp m Q s \<Longrightarrow> run_state m s = (a, s') \<Longrightarrow> Q a s'"
  by (simp add: wp_def)

lemma wp_fst_snd: "wp m Q s = Q (fst (run_state m s)) (snd (run_state m s))"
  by (simp add: wp_def split: prod.splits)

lemma run_iff_wp: "run_state m s = (a, s') \<longleftrightarrow> wp m (\<lambda>b t. b = a \<and> t = s') s"
  by (auto simp: wp_def split: prod.splits)

section \<open>Sequencing with early return, loops, deferred calls\<close>

text \<open>\<open>if m() { return }\<close> followed by \<open>n\<close>.\<close>

definition andThen :: "('s, flow) state \<Rightarrow> ('s, flow) state \<Rightarrow> ('s, flow) state" where
  "andThen m n = do { f \<leftarrow> m; (if f = Continue then n else State_Monad.return f) }"

lemma wp_andThen [wp_simps]:
  "wp (andThen m n) Q = wp m (\<lambda>f s'. if f = Continue then wp n Q s' else Q f s')"
  by (simp add: andThen_def wp_simps cong: if_cong)

text \<open>Set the results of the function and return.\<close>

definition stop_with :: "('s \<Rightarrow> 's) \<Rightarrow> ('s, flow) state" where
  "stop_with f = do { State_Monad.update f; State_Monad.return Stop }"

lemma wp_stop_with [wp_simps]: "wp (stop_with f) Q = (\<lambda>s. Q Stop (f s))"
  by (simp add: stop_with_def wp_simps)

text \<open>\<open>x, err := m(); if err != nil { h(err) }\<close> followed by \<open>k\<close>.\<close>

definition on_ret ::
  "('s, 'a outcome) state \<Rightarrow> (error \<Rightarrow> ('s, flow) state) \<Rightarrow> ('a \<Rightarrow> ('s, flow) state) \<Rightarrow> ('s, flow) state" where
  "on_ret m h k = do {
     r \<leftarrow> m;
     (case r of Ret a \<Rightarrow> k a | Err e \<Rightarrow> h e | Panics \<Rightarrow> State_Monad.return Panic)
   }"

lemma wp_on_ret [wp_simps]:
  "wp (on_ret m h k) Q =
   wp m (\<lambda>r s. case r of Ret a \<Rightarrow> wp (k a) Q s | Err e \<Rightarrow> wp (h e) Q s | Panics \<Rightarrow> Q Panic s)"
  by (simp add: on_ret_def wp_simps cong: outcome.case_cong)

text \<open>\<open>for _, x := range xs { body }\<close>: a body that stops or panics ends the loop.\<close>

primrec for_each :: "('a \<Rightarrow> ('s, flow) state) \<Rightarrow> 'a list \<Rightarrow> ('s, flow) state" where
  "for_each f [] = State_Monad.return Continue"
| "for_each f (x # xs) = andThen (f x) (for_each f xs)"

lemma wp_for_each_Nil [wp_simps]: "wp (for_each f []) Q = Q Continue"
  by (simp add: wp_simps)

lemma wp_for_each_upto:
  assumes "I ys s"
    and "\<And>us x vs s. \<lbrakk>xs = us @ x # vs; I (ys @ us) s\<rbrakk> \<Longrightarrow>
           wp (f x) (\<lambda>fl s'. if fl = Continue then I (ys @ us @ [x]) s' else Q fl s') s"
    and "\<And>s. I (ys @ xs) s \<Longrightarrow> Q Continue s"
  shows "wp (for_each f xs) Q s"
  using assms
proof (induction xs arbitrary: ys s)
  case Nil
  then show ?case by (simp add: wp_simps)
next
  case (Cons x xs)
  have body: "wp (f x) (\<lambda>fl s'. if fl = Continue then I (ys @ [x]) s' else Q fl s') s"
    using Cons.prems(2) [of "[]" x xs s] Cons.prems(1) by (simp cong del: if_weak_cong)
  have rest: "wp (for_each f xs) Q t" if "I (ys @ [x]) t" for t
  proof (rule Cons.IH [of "ys @ [x]"])
    show "I (ys @ [x]) t" by (rule that)
    show "wp (f z) (\<lambda>fl s'. if fl = Continue then I ((ys @ [x]) @ us @ [z]) s' else Q fl s') u"
      if "xs = us @ z # vs" "I ((ys @ [x]) @ us) u" for us z vs u
      using Cons.prems(2) [of "x # us" z vs u] that by (simp cong del: if_weak_cong)
    show "Q Continue u" if "I ((ys @ [x]) @ xs) u" for u
      using Cons.prems(3) [of u] that by simp
  qed
  show ?case unfolding for_each.simps wp_andThen
    by (rule wp_mono [OF body]) (auto intro: rest split: if_splits)
qed

text \<open>The loop rule with a trace of the elements already handled.\<close>

lemmas wp_for_each = wp_for_each_upto [where ys = "[]", unfolded append_Nil]

lemma wp_for_each_inv:
  assumes "I s" and "\<And>x s. \<lbrakk>x \<in> set xs; I s\<rbrakk> \<Longrightarrow> wp (f x) (\<lambda>_. I) s"
  shows "wp (for_each f xs) (\<lambda>_. I) s"
proof (rule wp_for_each [where I = "\<lambda>_. I"])
  show "I s" by fact
  show "wp (f x) (\<lambda>fl s'. if fl = Continue then I s' else I s') t"
    if "xs = us @ x # vs" "I t" for us x vs t
    using assms(2) [of x t] that by simp
qed

text \<open>
  \<open>defer d()\<close> before \<open>m\<close>: the deferred call runs after \<open>m\<close> however \<open>m\<close> ends, a panic
  included; if \<open>m\<close> does not end it never runs.
\<close>

definition deferring :: "('s, unit) state \<Rightarrow> ('s, flow) state \<Rightarrow> ('s, flow) state" where
  "deferring d m = do {
     f \<leftarrow> m;
     (if f = Diverge then State_Monad.return f else do { d; State_Monad.return f })
   }"

lemma wp_deferring [wp_simps]:
  "wp (deferring d m) Q = wp m (\<lambda>f s. if f = Diverge then Q f s else wp d (\<lambda>_. Q f) s)"
  by (simp add: deferring_def wp_simps cong: if_cong)

section \<open>Every exit of a program\<close>

text \<open>
  \<open>always Q m\<close>: however \<open>m\<close> ends, from any state, \<open>Q\<close> holds of its result and final state. The
  rules follow the structure of \<open>m\<close> down to its exits.
\<close>

named_theorems always_intros \<open>rules that lead to the exits of a program\<close>

definition always :: "('a \<Rightarrow> 's \<Rightarrow> bool) \<Rightarrow> ('s, 'a) state \<Rightarrow> bool" where
  "always Q m \<longleftrightarrow> (\<forall>s. wp m Q s)"

lemma alwaysD: "always Q m \<Longrightarrow> wp m Q s"
  by (simp add: always_def)

lemma always_return [always_intros]: "(\<And>s. Q a s) \<Longrightarrow> always Q (State_Monad.return a)"
  by (simp add: always_def wp_simps)

lemma always_stop_with [always_intros]: "(\<And>s. Q Stop (f s)) \<Longrightarrow> always Q (stop_with f)"
  by (simp add: always_def wp_simps)

lemma always_bind [always_intros]: "(\<And>a. always Q (f a)) \<Longrightarrow> always Q (m \<bind> f)"
  by (auto simp: always_def wp_simps intro: wp_mono [OF wp_true])

lemma always_if [always_intros]: "(b \<Longrightarrow> always Q m) \<Longrightarrow> (\<not> b \<Longrightarrow> always Q n) \<Longrightarrow> always Q (if b then m else n)"
  by simp

lemma always_case_option [always_intros]:
  "always Q m \<Longrightarrow> (\<And>a. always Q (f a)) \<Longrightarrow> always Q (case x of None \<Rightarrow> m | Some a \<Rightarrow> f a)"
  by (cases x) simp_all

lemma always_case_sum [always_intros]:
  "(\<And>e. always Q (f e)) \<Longrightarrow> (\<And>a. always Q (g a)) \<Longrightarrow> always Q (case x of Inl e \<Rightarrow> f e | Inr a \<Rightarrow> g a)"
  by (cases x) simp_all

lemma always_case_prod [always_intros]:
  "(\<And>a b. always Q (f a b)) \<Longrightarrow> always Q (case x of (a, b) \<Rightarrow> f a b)"
  by (cases x) simp

lemma always_case_outcome [always_intros]:
  "(\<And>a. always Q (f a)) \<Longrightarrow> (\<And>e. always Q (g e)) \<Longrightarrow> always Q p \<Longrightarrow>
   always Q (case x of Ret a \<Rightarrow> f a | Err e \<Rightarrow> g e | Panics \<Rightarrow> p)"
  by (cases x) simp_all

lemma always_let [always_intros]: "always Q (f a) \<Longrightarrow> always Q (let x = a in f x)"
  by simp

lemma always_on_ret [always_intros]:
  "(\<And>e. always Q (h e)) \<Longrightarrow> (\<And>a. always Q (k a)) \<Longrightarrow> (\<And>s. Q Panic s) \<Longrightarrow> always Q (on_ret m h k)"
  by (auto simp: always_def wp_on_ret split: outcome.split intro!: wp_mono [OF wp_true])

lemma always_andThen [always_intros]: "always Q m \<Longrightarrow> always Q n \<Longrightarrow> always Q (andThen m n)"
  by (simp add: always_def wp_andThen wp_fst_snd)

lemma always_for_each [always_intros]:
  "(\<And>x. always Q (f x)) \<Longrightarrow> (\<And>s. Q Continue s) \<Longrightarrow> always Q (for_each f xs)"
  by (induction xs) (simp_all add: always_return always_andThen)

end
