(* ===== verification/GoLib.thy ===== *)
theory GoLib
  imports Prelude "HOL-Library.Word"
begin

text \<open>
  The parts of Go's standard library the operator calls, on byte strings: \<open>strings.Split\<close>,
  \<open>strings.SplitN\<close> and \<open>strings.TrimSpace\<close>, \<open>strconv.ParseInt\<close>, \<open>FormatInt\<close>,
  \<open>ParseBool\<close>, \<open>FormatBool\<close>, the \<open>%d\<close> verb, and the one regular expression the
  instance controller compiles. A locale states what a printer and its parser owe each other.
\<close>

section \<open>Printers and parsers\<close>

text \<open>
  The contract between a printer and its parser: on a valid value the parser recovers what
  was printed. Printing is then injective on valid values.
\<close>

locale codec =
  fixes valid :: "'a \<Rightarrow> bool"
    and print :: "'a \<Rightarrow> string"
    and parse :: "string \<Rightarrow> 'a option"
  assumes roundtrip: "valid x \<Longrightarrow> parse (print x) = Some x"
begin

lemma print_inject:
  assumes "valid x" "valid y"
  shows "print x = print y \<longleftrightarrow> x = y"
  by (metis assms option.inject roundtrip)

lemma inj_on_print: "inj_on print {x. valid x}"
  by (rule inj_onI) (simp add: print_inject)

end

section \<open>Decimal numbers\<close>

definition digit_char :: "nat \<Rightarrow> char" where
  "digit_char d = char_of (48 + d)"

definition digit_val :: "char \<Rightarrow> nat" where
  "digit_val c = of_char c - 48"

definition is_digit :: "char \<Rightarrow> bool" where
  "is_digit c \<longleftrightarrow> 48 \<le> (of_char c :: nat) \<and> (of_char c :: nat) \<le> 57"

fun show_nat :: "nat \<Rightarrow> string" where
  "show_nat n = (if n < 10 then [digit_char n] else show_nat (n div 10) @ [digit_char (n mod 10)])"

declare show_nat.simps [simp del]

definition digits_val :: "string \<Rightarrow> nat" where
  "digits_val s = foldl (\<lambda>n c. 10 * n + digit_val c) 0 s"

lemma of_char_digit_char [simp]: "d < 10 \<Longrightarrow> (of_char (digit_char d) :: nat) = 48 + d"
  by (simp add: digit_char_def)

lemma digit_val_digit_char [simp]: "d < 10 \<Longrightarrow> digit_val (digit_char d) = d"
  by (simp add: digit_val_def)

lemma is_digit_digit_char [simp]: "d < 10 \<Longrightarrow> is_digit (digit_char d)"
  by (simp add: is_digit_def)

lemma show_nat_nonempty [simp]: "show_nat n \<noteq> []"
  by (subst show_nat.simps) simp

lemma show_nat_digits: "list_all is_digit (show_nat n)"
proof (induction n rule: show_nat.induct)
  case (1 n)
  then show ?case by (subst show_nat.simps) simp
qed

lemma digits_val_snoc [simp]: "digits_val (s @ [c]) = 10 * digits_val s + digit_val c"
  by (simp add: digits_val_def)

lemma digits_val_show_nat [simp]: "digits_val (show_nat n) = n"
proof (induction n rule: show_nat.induct)
  case (1 n)
  show ?case
  proof (cases "n < 10")
    case True
    then show ?thesis by (subst show_nat.simps) (simp add: digits_val_def)
  next
    case False
    with 1 show ?thesis by (subst show_nat.simps) simp
  qed
qed

lemma show_nat_inject [simp]: "show_nat m = show_nat n \<longleftrightarrow> m = n"
  by (metis digits_val_show_nat)

lemma is_digit_not_special:
  "is_digit c \<Longrightarrow> c \<noteq> CHR ''-'' \<and> c \<noteq> CHR ''+'' \<and> c \<noteq> CHR '']'' \<and> c \<noteq> CHR ''[''"
  by (auto simp: is_digit_def)

lemma show_nat_hd: "is_digit (hd (show_nat n))"
  using show_nat_digits [of n] by (cases "show_nat n") simp_all

lemma show_nat_no_bracket: "CHR '']'' \<notin> set (show_nat n)"
  using show_nat_digits [of n] is_digit_not_special by (auto simp: list_all_iff)

section \<open>Integers of 64 bits\<close>

type_synonym int64 = "64 word"

definition FormatInt :: "int64 \<Rightarrow> string" where
  \<comment> \<open>\<open>strconv.FormatInt(i, 10)\<close>\<close>
  "FormatInt w =
     (let i = sint w
      in if i < 0 then CHR ''-'' # show_nat (nat (- i)) else show_nat (nat i))"

definition ParseInt :: "string \<Rightarrow> int64 option" where
  \<comment> \<open>\<open>strconv.ParseInt(s, 10, 64)\<close>; \<open>None\<close> for its syntax and range errors\<close>
  "ParseInt s =
     (let (neg, ds) =
        (case s of [] \<Rightarrow> (False, [])
         | c # cs \<Rightarrow> if c = CHR ''-'' then (True, cs)
                    else if c = CHR ''+'' then (False, cs) else (False, s))
      in if ds = [] \<or> \<not> list_all is_digit ds then None
         else let i = (if neg then - int (digits_val ds) else int (digits_val ds))
              in if - (2 ^ 63) \<le> i \<and> i < 2 ^ 63 then Some (word_of_int i) else None)"

lemma sint_int64: "- (2 ^ 63) \<le> sint (w :: int64)" "sint (w :: int64) < 2 ^ 63"
  using sint_ge [of w] sint_lt [of w] by simp_all

lemma ParseInt_FormatInt_aux: "ParseInt (FormatInt w) = Some w"
proof (cases "sint w < 0")
  case True
  then show ?thesis
    using sint_int64 [of w] show_nat_digits [of "nat (- sint w)"]
    by (simp add: ParseInt_def FormatInt_def Let_def)
next
  case False
  obtain c cs where s: "show_nat (nat (sint w)) = c # cs"
    using show_nat_nonempty list.exhaust by blast
  then have "is_digit c" using show_nat_hd [of "nat (sint w)"] by simp
  then show ?thesis
    using False s sint_int64 [of w] show_nat_digits [of "nat (sint w)"]
      digits_val_show_nat [of "nat (sint w)"]
    by (auto simp: ParseInt_def FormatInt_def Let_def dest: is_digit_not_special)
qed

interpretation int64_codec: codec "\<lambda>_. True" FormatInt ParseInt
  by unfold_locales (rule ParseInt_FormatInt_aux)

section \<open>Booleans\<close>

definition FormatBool :: "bool \<Rightarrow> string" where
  "FormatBool b = (if b then ''true'' else ''false'')"

definition ParseBool :: "string \<Rightarrow> bool option" where
  \<comment> \<open>\<open>strconv.ParseBool\<close>; \<open>None\<close> for its syntax error\<close>
  "ParseBool s =
     (if s \<in> set [''1'', ''t'', ''T'', ''true'', ''TRUE'', ''True''] then Some True
      else if s \<in> set [''0'', ''f'', ''F'', ''false'', ''FALSE'', ''False''] then Some False
      else None)"

interpretation bool_codec: codec "\<lambda>_. True" FormatBool ParseBool
  by unfold_locales (simp add: FormatBool_def ParseBool_def)

section \<open>Splitting and trimming\<close>

text \<open>\<open>strings.Split(s, sep)\<close> for a separator of one byte.\<close>

fun Split :: "char \<Rightarrow> string \<Rightarrow> string list" where
  "Split c [] = [[]]"
| "Split c (x # xs) =
     (if x = c then [] # Split c xs
      else case Split c xs of [] \<Rightarrow> [[x]] | y # ys \<Rightarrow> (x # y) # ys)"

text \<open>\<open>strings.SplitN(s, sep, 2)\<close> for a separator of one byte.\<close>

definition SplitN2 :: "char \<Rightarrow> string \<Rightarrow> string list" where
  "SplitN2 c s =
     (case dropWhile (\<lambda>x. x \<noteq> c) s of
        [] \<Rightarrow> [s]
      | _ # rest \<Rightarrow> [takeWhile (\<lambda>x. x \<noteq> c) s, rest])"

text \<open>\<open>strings.Join\<close>, used to state what \<open>Split\<close> computes.\<close>

fun Join :: "char \<Rightarrow> string list \<Rightarrow> string" where
  "Join c [] = []"
| "Join c [x] = x"
| "Join c (x # y # ys) = x @ c # Join c (y # ys)"

lemma Split_nonempty [simp]: "Split c s \<noteq> []"
  by (induction s) (auto split: list.splits)

lemma Join_Cons: "xs \<noteq> [] \<Longrightarrow> Join c (x # xs) = x @ c # Join c xs"
  by (cases xs) simp_all

lemma Join_Split: "Join c (Split c s) = s"
proof (induction s)
  case (Cons a s)
  obtain y ys where y: "Split c s = y # ys"
    using Split_nonempty list.exhaust by blast
  with Cons show ?case by (cases ys) auto
qed simp

lemma Split_no_sep: "x \<in> set (Split c s) \<Longrightarrow> c \<notin> set x"
proof (induction s arbitrary: x)
  case (Cons a s)
  obtain y ys where "Split c s = y # ys"
    using Split_nonempty list.exhaust by blast
  with Cons show ?case by (auto split: if_splits)
qed simp

lemma length_Split: "length (Split c s) = Suc (length (filter (\<lambda>x. x = c) s))"
proof (induction s)
  case (Cons a s)
  obtain y ys where "Split c s = y # ys"
    using Split_nonempty list.exhaust by blast
  with Cons show ?case by auto
qed simp

lemma SplitN2_sep: "c \<notin> set a \<Longrightarrow> SplitN2 c (a @ c # b) = [a, b]"
proof -
  assume "c \<notin> set a"
  then have "dropWhile (\<lambda>x. x \<noteq> c) (a @ c # b) = c # b"
    and "takeWhile (\<lambda>x. x \<noteq> c) (a @ c # b) = a"
    by (induction a) auto
  then show ?thesis by (simp add: SplitN2_def)
qed

lemma SplitN2_no_sep: "c \<notin> set s \<Longrightarrow> SplitN2 c s = [s]"
proof -
  assume "c \<notin> set s"
  then have "dropWhile (\<lambda>x. x \<noteq> c) s = []" by (induction s) auto
  then show ?thesis unfolding SplitN2_def by (simp only: list.case)
qed

text \<open>
  \<open>unicode.IsSpace\<close> on UTF-8 text: the ASCII white space and the encodings of U+0085, U+00A0,
  U+1680, U+2000 to U+200A, U+2028, U+2029, U+202F, U+205F and U+3000.
\<close>

definition bytes_of :: "nat list \<Rightarrow> string" where
  "bytes_of ns = map char_of ns"

definition space_encodings :: "string list" where
  "space_encodings = map bytes_of
     ([[9], [10], [11], [12], [13], [32], [194, 133], [194, 160], [225, 154, 128]]
      @ map (\<lambda>k. [226, 128, 128 + k]) [0..<11]
      @ [[226, 128, 168], [226, 128, 169], [226, 128, 175], [226, 129, 159], [227, 128, 128]])"

text \<open>\<open>drop_one\<close> removes one white-space encoding from the front of a string.\<close>

definition drop_one :: "string list \<Rightarrow> string \<Rightarrow> string option" where
  "drop_one encs s =
     (case find (\<lambda>e. take (length e) s = e) encs of
        None \<Rightarrow> None | Some e \<Rightarrow> Some (drop (length e) s))"

function trim_left :: "string list \<Rightarrow> string \<Rightarrow> string" where
  "trim_left encs s =
     (if [] \<in> set encs then s
      else case drop_one encs s of None \<Rightarrow> s | Some t \<Rightarrow> trim_left encs t)"
  by pat_completeness auto
termination
proof (relation "measure (\<lambda>(encs, s). length s)")
  fix encs :: "string list" and s t
  assume "[] \<notin> set encs" and "drop_one encs s = Some t"
  then obtain e where e: "find (\<lambda>e. take (length e) s = e) encs = Some e" "t = drop (length e) s"
    by (auto simp: drop_one_def split: option.splits)
  from e(1) have "e \<in> set encs" "take (length e) s = e"
    by (auto simp: find_Some_iff)
  with \<open>[] \<notin> set encs\<close> have "e \<noteq> []" "s \<noteq> []" by auto
  with e(2) show "((encs, t), encs, s) \<in> measure (\<lambda>(encs, s). length s)" by simp
qed simp

declare trim_left.simps [simp del]

definition TrimSpace :: "string \<Rightarrow> string" where
  "TrimSpace s =
     rev (trim_left (map rev space_encodings) (rev (trim_left space_encodings s)))"

section \<open>The condition-reason pattern\<close>

definition is_alpha :: "char \<Rightarrow> bool" where
  "is_alpha c \<longleftrightarrow> (65 \<le> (of_char c :: nat) \<and> (of_char c :: nat) \<le> 90)
               \<or> (97 \<le> (of_char c :: nat) \<and> (of_char c :: nat) \<le> 122)"

definition is_word :: "char \<Rightarrow> bool" where
  "is_word c \<longleftrightarrow> is_alpha c \<or> is_digit c \<or> c = CHR ''_''"

definition is_word_punct :: "char \<Rightarrow> bool" where
  "is_word_punct c \<longleftrightarrow> is_word c \<or> c = CHR '','' \<or> c = CHR '':''"

text \<open>
  \<open>^[A-Za-z]([A-Za-z0-9_,:]*[A-Za-z0-9_])?$\<close>: a letter alone, or a letter, any characters of
  the first class and a last one of the second.
\<close>

definition reason_match :: "string \<Rightarrow> bool" where
  "reason_match s =
     (case s of [] \<Rightarrow> False
      | c # cs \<Rightarrow> is_alpha c \<and>
          (cs = [] \<or> (list_all is_word_punct (butlast cs) \<and> is_word (last cs))))"

end
