(* ===== verification/KubeTypes.thy ===== *)
theory KubeTypes
  imports GoLib
begin

text \<open>
  The Kubernetes and AWS objects the operator reads and writes, as records with the fields the
  source uses. A Go pointer is an option, a Go map that is only read or assigned as a whole is
  a partial map, and the one map the code tests against nil (\<open>Secret.Data\<close>) is an
  option of a map. Structures inside Go slices are taken non-nil: the CRD schemas admit no null
  items.
\<close>

section \<open>Metadata\<close>

type_synonym smap = "string \<Rightarrow> string option"

text \<open>An instant; 0 is Go's zero time.\<close>

type_synonym gotime = int

record key =
  k_namespace :: string
  k_name :: string

record object_meta =
  om_name :: string
  om_namespace :: string
  om_generateName :: string
  om_uid :: string
  om_resourceVersion :: string
  om_labels :: smap
  om_annotations :: smap
  om_finalizers :: "string list"
  om_deletionTimestamp :: "gotime option"
  om_controller :: "string option"

definition empty_meta :: object_meta where
  "empty_meta = \<lparr>om_name = [], om_namespace = [], om_generateName = [], om_uid = [],
     om_resourceVersion = [], om_labels = Map.empty, om_annotations = Map.empty,
     om_finalizers = [], om_deletionTimestamp = None, om_controller = None\<rparr>"

text \<open>\<open>DeletionTimestamp.IsZero()\<close>: nil, or the zero time.\<close>

definition time_IsZero :: "gotime option \<Rightarrow> bool" where
  "time_IsZero t \<longleftrightarrow> t = None \<or> t = Some 0"

definition object_key :: "object_meta \<Rightarrow> key" where
  "object_key m = \<lparr>k_namespace = om_namespace m, k_name = om_name m\<rparr>"

record condition =
  c_type :: string
  c_status :: string
  c_reason :: string
  c_message :: string
  c_lastTransitionTime :: gotime

abbreviation ConditionTrue :: string where "ConditionTrue \<equiv> ''True''"
abbreviation ConditionFalse :: string where "ConditionFalse \<equiv> ''False''"
abbreviation ConditionUnknown :: string where "ConditionUnknown \<equiv> ''Unknown''"

section \<open>The operator's own resources\<close>

record dbaas_instance =
  di_instanceID :: string
  di_name :: string
  di_instanceInfo :: smap

record rds_inventory =
  inv_kind :: string
  inv_meta :: object_meta
  inv_credentialsRef :: "key option"
  inv_conditions :: "condition list"
  inv_instances :: "dbaas_instance list"

record rds_connection =
  con_kind :: string
  con_meta :: object_meta
  con_inventoryRef :: key
  con_instanceID :: string
  con_conditions :: "condition list"
  con_credentialsRef :: "string option"
  con_connectionInfoRef :: "string option"

record rds_instance =
  ri_kind :: string
  ri_meta :: object_meta
  ri_inventoryRef :: key
  ri_cloudRegion :: string
  ri_otherInstanceParams :: smap
  ri_conditions :: "condition list"
  ri_instanceID :: string
  ri_instanceInfo :: smap
  ri_phase :: string

definition empty_inventory :: rds_inventory where
  "empty_inventory = \<lparr>inv_kind = [], inv_meta = empty_meta, inv_credentialsRef = None,
     inv_conditions = [], inv_instances = []\<rparr>"

definition empty_connection :: rds_connection where
  "empty_connection = \<lparr>con_kind = [], con_meta = empty_meta,
     con_inventoryRef = \<lparr>k_namespace = [], k_name = []\<rparr>, con_instanceID = [],
     con_conditions = [], con_credentialsRef = None, con_connectionInfoRef = None\<rparr>"

definition empty_instance :: rds_instance where
  "empty_instance = \<lparr>ri_kind = [], ri_meta = empty_meta,
     ri_inventoryRef = \<lparr>k_namespace = [], k_name = []\<rparr>, ri_cloudRegion = [],
     ri_otherInstanceParams = Map.empty, ri_conditions = [], ri_instanceID = [],
     ri_instanceInfo = Map.empty, ri_phase = []\<rparr>"

section \<open>The ACK controller's DBInstance\<close>

record secret_key_reference =
  skr_name :: string
  skr_namespace :: string
  skr_key :: string

record db_instance_spec =
  sp_engine :: "string option"
  sp_engineVersion :: "string option"
  sp_dbInstanceIdentifier :: "string option"
  sp_dbInstanceClass :: "string option"
  sp_storageType :: "string option"
  sp_allocatedStorage :: "int64 option"
  sp_iops :: "int64 option"
  sp_maxAllocatedStorage :: "int64 option"
  sp_dbSubnetGroupName :: "string option"
  sp_publiclyAccessible :: "bool option"
  sp_vpcSecurityGroupIDs :: "string option list"
  sp_licenseModel :: "string option"
  sp_masterUsername :: "string option"
  sp_masterUserPassword :: "secret_key_reference option"
  sp_dbName :: "string option"
  sp_availabilityZone :: "string option"

record ack_resource_metadata =
  ar_arn :: "string option"
  ar_ownerAccountID :: "string option"
  ar_region :: "string option"

record db_instance_role =
  dr_featureName :: "string option"
  dr_roleARN :: "string option"
  dr_status :: "string option"

record db_parameter_group_status =
  pg_dbParameterGroupName :: "string option"
  pg_parameterApplyStatus :: "string option"

record rds_subnet =
  sn_availabilityZone :: "string option option"
  sn_subnetIdentifier :: "string option"
  sn_subnetOutpost :: "string option option"
  sn_subnetStatus :: "string option"

record db_subnet_group =
  sg_arn :: "string option"
  sg_description :: "string option"
  sg_name :: "string option"
  sg_status :: "string option"
  sg_subnets :: "rds_subnet list"
  sg_vpcID :: "string option"

record domain_membership =
  dm_domain :: "string option"
  dm_fqdn :: "string option"
  dm_iamRoleName :: "string option"
  dm_status :: "string option"

record endpoint =
  ep_address :: "string option"
  ep_hostedZoneID :: "string option"
  ep_port :: "int64 option"

record option_group_membership =
  og_name :: "string option"
  og_status :: "string option"

record pending_logs =
  pl_logTypesToDisable :: "string option list"
  pl_logTypesToEnable :: "string option list"

record processor_feature =
  pf_name :: "string option"
  pf_value :: "string option"

record pending_modified_values =
  pm_allocatedStorage :: "int64 option"
  pm_automationMode :: "string option"
  pm_backupRetentionPeriod :: "int64 option"
  pm_caCertificateIdentifier :: "string option"
  pm_dbInstanceClass :: "string option"
  pm_dbInstanceIdentifier :: "string option"
  pm_dbSubnetGroupName :: "string option"
  pm_engineVersion :: "string option"
  pm_iamDatabaseAuthenticationEnabled :: "bool option"
  pm_iops :: "int64 option"
  pm_licenseModel :: "string option"
  pm_masterUserPassword :: "string option"
  pm_multiAZ :: "bool option"
  pm_pendingCloudwatchLogsExports :: "pending_logs option"
  pm_port :: "int64 option"
  pm_processorFeatures :: "processor_feature list"
  pm_resumeFullAutomationModeTime :: "gotime option"
  pm_storageType :: "string option"

record status_info =
  si_message :: "string option"
  si_normal :: "bool option"
  si_status :: "string option"
  si_statusType :: "string option"

record rds_tag =
  tag_key :: "string option"
  tag_value :: "string option"

record vpc_security_group =
  vg_status :: "string option"
  vg_id :: "string option"

text \<open>A condition of the ACK runtime: reason, message and time are pointers.\<close>

record ack_condition =
  ac_type :: string
  ac_status :: string
  ac_lastTransitionTime :: "gotime option"
  ac_reason :: "string option"
  ac_message :: "string option"

record db_instance_status =
  st_ackResourceMetadata :: "ack_resource_metadata option"
  st_conditions :: "ack_condition list"
  st_activityStreamEngineNativeAuditFieldsIncluded :: "bool option"
  st_activityStreamKinesisStreamName :: "string option"
  st_activityStreamKMSKeyID :: "string option"
  st_activityStreamMode :: "string option"
  st_activityStreamStatus :: "string option"
  st_associatedRoles :: "db_instance_role list"
  st_automaticRestartTime :: "gotime option"
  st_automationMode :: "string option"
  st_awsBackupRecoveryPointARN :: "string option"
  st_caCertificateIdentifier :: "string option"
  st_customerOwnedIPEnabled :: "bool option"
  st_automatedBackupsReplications :: "string option list"
  st_dbInstanceStatus :: "string option"
  st_dbParameterGroups :: "db_parameter_group_status list"
  st_dbSubnetGroup :: "db_subnet_group option"
  st_dbInstancePort :: "int64 option"
  st_dbiResourceID :: "string option"
  st_domainMemberships :: "domain_membership list"
  st_enabledCloudwatchLogsExports :: "string option list"
  st_endpoint :: "endpoint option"
  st_enhancedMonitoringResourceARN :: "string option"
  st_iamDatabaseAuthenticationEnabled :: "bool option"
  st_instanceCreateTime :: "gotime option"
  st_latestRestorableTime :: "gotime option"
  st_listenerEndpoint :: "endpoint option"
  st_optionGroupMemberships :: "option_group_membership list"
  st_pendingModifiedValues :: "pending_modified_values option"
  st_performanceInsightsEnabled :: "bool option"
  st_readReplicaDBClusterIdentifiers :: "string option list"
  st_readReplicaDBInstanceIdentifiers :: "string option list"
  st_readReplicaSourceDBInstanceIdentifier :: "string option"
  st_replicaMode :: "string option"
  st_resumeFullAutomationModeTime :: "gotime option"
  st_secondaryAvailabilityZone :: "string option"
  st_statusInfos :: "status_info list"
  st_tagList :: "rds_tag list"
  st_vpcSecurityGroups :: "vpc_security_group list"

record db_instance =
  db_kind :: string
  db_meta :: object_meta
  db_spec :: db_instance_spec
  db_status :: db_instance_status

definition empty_spec :: db_instance_spec where
  "empty_spec = \<lparr>sp_engine = None, sp_engineVersion = None, sp_dbInstanceIdentifier = None,
     sp_dbInstanceClass = None, sp_storageType = None, sp_allocatedStorage = None,
     sp_iops = None, sp_maxAllocatedStorage = None, sp_dbSubnetGroupName = None,
     sp_publiclyAccessible = None, sp_vpcSecurityGroupIDs = [], sp_licenseModel = None,
     sp_masterUsername = None, sp_masterUserPassword = None, sp_dbName = None,
     sp_availabilityZone = None\<rparr>"

definition empty_status :: db_instance_status where
  "empty_status = \<lparr>st_ackResourceMetadata = None, st_conditions = [],
     st_activityStreamEngineNativeAuditFieldsIncluded = None,
     st_activityStreamKinesisStreamName = None, st_activityStreamKMSKeyID = None,
     st_activityStreamMode = None, st_activityStreamStatus = None, st_associatedRoles = [],
     st_automaticRestartTime = None, st_automationMode = None,
     st_awsBackupRecoveryPointARN = None, st_caCertificateIdentifier = None,
     st_customerOwnedIPEnabled = None, st_automatedBackupsReplications = [],
     st_dbInstanceStatus = None, st_dbParameterGroups = [], st_dbSubnetGroup = None,
     st_dbInstancePort = None, st_dbiResourceID = None, st_domainMemberships = [],
     st_enabledCloudwatchLogsExports = [], st_endpoint = None,
     st_enhancedMonitoringResourceARN = None, st_iamDatabaseAuthenticationEnabled = None,
     st_instanceCreateTime = None, st_latestRestorableTime = None, st_listenerEndpoint = None,
     st_optionGroupMemberships = [], st_pendingModifiedValues = None,
     st_performanceInsightsEnabled = None, st_readReplicaDBClusterIdentifiers = [],
     st_readReplicaDBInstanceIdentifiers = [], st_readReplicaSourceDBInstanceIdentifier = None,
     st_replicaMode = None, st_resumeFullAutomationModeTime = None,
     st_secondaryAvailabilityZone = None, st_statusInfos = [], st_tagList = [],
     st_vpcSecurityGroups = []\<rparr>"

definition empty_db_instance :: db_instance where
  "empty_db_instance = \<lparr>db_kind = [], db_meta = empty_meta, db_spec = empty_spec,
     db_status = empty_status\<rparr>"

section \<open>Other cluster and AWS objects\<close>

record secret =
  sec_meta :: object_meta
  sec_data :: "smap option"

record configmap =
  cm_meta :: object_meta
  cm_data :: "smap option"

definition empty_secret :: secret where
  "empty_secret = \<lparr>sec_meta = empty_meta, sec_data = None\<rparr>"

definition empty_configmap :: configmap where
  "empty_configmap = \<lparr>cm_meta = empty_meta, cm_data = None\<rparr>"

text \<open>Reading a nil map finds nothing.\<close>

definition data_get :: "smap option \<Rightarrow> string \<Rightarrow> string option" where
  "data_get d k = (case d of None \<Rightarrow> None | Some m \<Rightarrow> m k)"

text \<open>A custom resource definition; no code looks into its specification, kept as its text.\<close>

record crd =
  crd_name :: string
  crd_spec :: string

record deployment =
  dep_meta :: object_meta
  dep_replicas :: "32 word option"
  dep_readyReplicas :: "32 word"

record adopted_resource =
  ad_meta :: object_meta
  ad_group :: string
  ad_kind :: string
  ad_targetNamespace :: string
  ad_targetLabels :: smap
  ad_nameOrID :: "string option"

record aws_db_instance =
  aws_dbInstanceIdentifier :: "string option"
  aws_dbInstanceStatus :: "string option"
  aws_masterUsername :: "string option"
  aws_dbName :: "string option"

record modify_input =
  mi_dbInstanceIdentifier :: "string option"
  mi_masterUserPassword :: "string option"

text \<open>A value of the interface \<open>metav1.Object\<close>, as the owner-reference helpers take it.\<close>

datatype kobject =
    OwnerInventory rds_inventory
  | OwnerConnection rds_connection
  | OwnerInstance rds_instance
  | OwnerDBInstance db_instance

fun kobject_meta :: "kobject \<Rightarrow> object_meta" where
  "kobject_meta (OwnerInventory o1) = inv_meta o1"
| "kobject_meta (OwnerConnection o1) = con_meta o1"
| "kobject_meta (OwnerInstance o1) = ri_meta o1"
| "kobject_meta (OwnerDBInstance o1) = db_meta o1"

end
