(* ===== verification/KubeClient.thy ===== *)
theory KubeClient
  imports KubeTypes
begin

text \<open>
  The code the operator calls and this repository does not hold: the Kubernetes client, the
  helpers of apimachinery, controller-runtime and operator-lib, the AWS SDK and the random
  sources. All of it is a parameter: the fields of the records \<open>lib\<close> (pure helpers and
  constants) and \<open>env\<close> (effects on an arbitrary outside world). Every definition of the model
  takes such a record, so its lemmas hold for any behaviour of the outside; what is relied on is
  a named hypothesis (\<open>conditions_ok\<close>, \<open>finalizers_ok\<close>, \<open>rand_ok\<close>).
  Each call is also appended, with its response, to a history that no definition reads.
\<close>

section \<open>Pure helpers of other packages\<close>

record lib =
  SetStatusCondition :: "condition list \<Rightarrow> condition \<Rightarrow> condition list"
  FindStatusCondition :: "condition list \<Rightarrow> string \<Rightarrow> condition option"
  ContainsFinalizer :: "object_meta \<Rightarrow> string \<Rightarrow> bool"
  AddFinalizer :: "object_meta \<Rightarrow> string \<Rightarrow> object_meta"
  RemoveFinalizer :: "object_meta \<Rightarrow> string \<Rightarrow> object_meta"
  SetOwnerAnnotations :: "kobject \<Rightarrow> object_meta \<Rightarrow> error + object_meta"
  SetControllerReference :: "kobject \<Rightarrow> object_meta \<Rightarrow> error + object_meta"
  TypeAnnotation :: string
  NamespacedNameAnnotation :: string
  TypeLabelKey :: string
  TypeLabelValue :: string
  rdsGroup :: string
  timeString :: "gotime \<Rightarrow> string"

text \<open>
  \<open>apimeta.SetStatusCondition\<close> sets the condition of its type and leaves the other types
  alone; the transition time is its own business.
\<close>

definition conditions_ok :: "'m lib_scheme \<Rightarrow> bool" where
  "conditions_ok L \<longleftrightarrow>
     (\<forall>cs c. \<exists>t. FindStatusCondition L (SetStatusCondition L cs c) (c_type c) =
                  Some (c\<lparr>c_lastTransitionTime := t\<rparr>)) \<and>
     (\<forall>cs c ty. ty \<noteq> c_type c \<longrightarrow>
        FindStatusCondition L (SetStatusCondition L cs c) ty = FindStatusCondition L cs ty)"

text \<open>Adding and removing a finalizer changes the finalizers and nothing else.\<close>

definition finalizers_ok :: "'m lib_scheme \<Rightarrow> bool" where
  "finalizers_ok L \<longleftrightarrow>
     (\<forall>m f. ContainsFinalizer L (AddFinalizer L m f) f) \<and>
     (\<forall>m f. \<not> ContainsFinalizer L (RemoveFinalizer L m f) f) \<and>
     (\<forall>m f. \<exists>fs. AddFinalizer L m f = m\<lparr>om_finalizers := fs\<rparr>) \<and>
     (\<forall>m f. \<exists>fs. RemoveFinalizer L m f = m\<lparr>om_finalizers := fs\<rparr>)"

section \<open>Effects\<close>

text \<open>The result of \<open>controllerutil.CreateOrUpdate\<close>.\<close>

datatype op_result = OperationResultNone | OperationResultCreated | OperationResultUpdated

text \<open>
  Reads answer with an error or the object; updates, status updates and creates answer with
  the error or with the object as the server returns it, which the client stores into the
  caller's variable; deletes answer with an optional error.
  \<open>CreateOrUpdate\<close> is used through its two halves: it looks the object up by its key
  (\<open>None\<close>: not there), runs the caller's mutate function on what it found or else on the
  object it was given, and then creates or updates it. The AWS calls take the access key, the
  secret key and the region; a new paginator starts at the first page.
\<close>

type_synonym aws_creds = "string \<times> string \<times> string"

record 'w env = lib +
  api_getInventory :: "key \<Rightarrow> 'w \<Rightarrow> (error + rds_inventory) \<times> 'w"
  api_updateInventory :: "rds_inventory \<Rightarrow> 'w \<Rightarrow> (error + rds_inventory) \<times> 'w"
  api_statusUpdateInventory :: "rds_inventory \<Rightarrow> 'w \<Rightarrow> (error + rds_inventory) \<times> 'w"
  api_listInventories :: "string option \<Rightarrow> 'w \<Rightarrow> (error + rds_inventory list) \<times> 'w"
  api_getConnection :: "key \<Rightarrow> 'w \<Rightarrow> (error + rds_connection) \<times> 'w"
  api_statusUpdateConnection :: "rds_connection \<Rightarrow> 'w \<Rightarrow> (error + rds_connection) \<times> 'w"
  api_listConnections :: "string \<times> string \<Rightarrow> 'w \<Rightarrow> (error + rds_connection list) \<times> 'w"
  api_getInstance :: "key \<Rightarrow> 'w \<Rightarrow> (error + rds_instance) \<times> 'w"
  api_updateInstance :: "rds_instance \<Rightarrow> 'w \<Rightarrow> (error + rds_instance) \<times> 'w"
  api_statusUpdateInstance :: "rds_instance \<Rightarrow> 'w \<Rightarrow> (error + rds_instance) \<times> 'w"
  api_getDBInstance :: "key \<Rightarrow> 'w \<Rightarrow> (error + db_instance) \<times> 'w"
  api_listDBInstances :: "string \<Rightarrow> (string \<times> string) option \<Rightarrow> 'w \<Rightarrow> (error + db_instance list) \<times> 'w"
  api_updateDBInstance :: "db_instance \<Rightarrow> 'w \<Rightarrow> (error + db_instance) \<times> 'w"
  api_deleteDBInstance :: "db_instance \<Rightarrow> 'w \<Rightarrow> error option \<times> 'w"
  cou_fetchDBInstance :: "db_instance \<Rightarrow> 'w \<Rightarrow> (error + db_instance option) \<times> 'w"
  cou_storeDBInstance :: "db_instance option \<Rightarrow> db_instance \<Rightarrow> 'w \<Rightarrow> (error + op_result \<times> db_instance) \<times> 'w"
  api_listAdopted :: "string \<Rightarrow> 'w \<Rightarrow> (error + adopted_resource list) \<times> 'w"
  api_createAdopted :: "adopted_resource \<Rightarrow> 'w \<Rightarrow> (error + adopted_resource) \<times> 'w"
  api_deleteAdopted :: "adopted_resource \<Rightarrow> 'w \<Rightarrow> error option \<times> 'w"
  api_getSecret :: "key \<Rightarrow> 'w \<Rightarrow> (error + secret) \<times> 'w"
  api_createSecret :: "secret \<Rightarrow> 'w \<Rightarrow> (error + secret) \<times> 'w"
  api_updateSecret :: "secret \<Rightarrow> 'w \<Rightarrow> (error + secret) \<times> 'w"
  api_deleteSecret :: "secret \<Rightarrow> 'w \<Rightarrow> error option \<times> 'w"
  cou_fetchSecret :: "secret \<Rightarrow> 'w \<Rightarrow> (error + secret option) \<times> 'w"
  cou_storeSecret :: "secret option \<Rightarrow> secret \<Rightarrow> 'w \<Rightarrow> (error + op_result \<times> secret) \<times> 'w"
  api_getConfigMap :: "key \<Rightarrow> 'w \<Rightarrow> (error + configmap) \<times> 'w"
  api_deleteConfigMap :: "configmap \<Rightarrow> 'w \<Rightarrow> error option \<times> 'w"
  cou_fetchConfigMap :: "configmap \<Rightarrow> 'w \<Rightarrow> (error + configmap option) \<times> 'w"
  cou_storeConfigMap :: "configmap option \<Rightarrow> configmap \<Rightarrow> 'w \<Rightarrow> (error + op_result \<times> configmap) \<times> 'w"
  api_getDeployment :: "key \<Rightarrow> 'w \<Rightarrow> (error + deployment) \<times> 'w"
  api_updateDeployment :: "deployment \<Rightarrow> 'w \<Rightarrow> (error + deployment) \<times> 'w"
  cou_fetchCRD :: "crd \<Rightarrow> 'w \<Rightarrow> (error + crd option) \<times> 'w"
  cou_storeCRD :: "crd option \<Rightarrow> crd \<Rightarrow> 'w \<Rightarrow> (error + op_result \<times> crd) \<times> 'w"
  aws_newPaginator :: "aws_creds \<Rightarrow> 'w \<Rightarrow> unit \<times> 'w"
  aws_HasMorePages :: "aws_creds \<Rightarrow> 'w \<Rightarrow> bool"
  aws_NextPage :: "aws_creds \<Rightarrow> 'w \<Rightarrow> (error + aws_db_instance list option) \<times> 'w"
  aws_ModifyDBInstance :: "aws_creds \<Rightarrow> modify_input \<Rightarrow> 'w \<Rightarrow> error option \<times> 'w"
  crypto_randInt :: "nat \<Rightarrow> 'w \<Rightarrow> nat option \<times> 'w"
  math_randInt :: "nat \<Rightarrow> 'w \<Rightarrow> nat \<times> 'w"

text \<open>
  The random sources answer below their bound (\<open>crypto/rand.Int(reader, max)\<close> is in
  \<open>[0, max)\<close>, or \<open>None\<close> when the reader fails; \<open>math/rand\<close> has no failure).
\<close>

definition rand_ok :: "('w, 'm) env_scheme \<Rightarrow> bool" where
  "rand_ok E \<longleftrightarrow>
     (\<forall>n w. 0 < n \<longrightarrow> (case crypto_randInt E n w of (None, _) \<Rightarrow> True | (Some r, _) \<Rightarrow> r < n)) \<and>
     (\<forall>n w. 0 < n \<longrightarrow> (case math_randInt E n w of (r, _) \<Rightarrow> r < n))"

text \<open>One call, with the response it got.\<close>

datatype event =
    EvGetInventory key "error + rds_inventory"
  | EvUpdateInventory rds_inventory "error + rds_inventory"
  | EvStatusInventory rds_inventory "error + rds_inventory"
  | EvListInventories "string option" "error + rds_inventory list"
  | EvGetConnection key "error + rds_connection"
  | EvStatusConnection rds_connection "error + rds_connection"
  | EvListConnections "string \<times> string" "error + rds_connection list"
  | EvGetInstance key "error + rds_instance"
  | EvUpdateInstance rds_instance "error + rds_instance"
  | EvStatusInstance rds_instance "error + rds_instance"
  | EvGetDBInstance key "error + db_instance"
  | EvListDBInstances string "(string \<times> string) option" "error + db_instance list"
  | EvUpdateDBInstance db_instance "error + db_instance"
  | EvDeleteDBInstance db_instance "error option"
  | EvFetchDBInstance db_instance "error + db_instance option"
  | EvApplyDBInstance db_instance "error + op_result \<times> db_instance"
  | EvListAdopted string "error + adopted_resource list"
  | EvCreateAdopted adopted_resource "error + adopted_resource"
  | EvDeleteAdopted adopted_resource "error option"
  | EvGetSecret key "error + secret"
  | EvCreateSecret secret "error + secret"
  | EvUpdateSecret secret "error + secret"
  | EvDeleteSecret secret "error option"
  | EvFetchSecret secret "error + secret option"
  | EvApplySecret secret "error + op_result \<times> secret"
  | EvGetConfigMap key "error + configmap"
  | EvDeleteConfigMap configmap "error option"
  | EvFetchConfigMap configmap "error + configmap option"
  | EvApplyConfigMap configmap "error + op_result \<times> configmap"
  | EvGetDeployment key "error + deployment"
  | EvUpdateDeployment deployment "error + deployment"
  | EvFetchCRD crd "error + crd option"
  | EvApplyCRD crd "error + op_result \<times> crd"
  | EvNewPaginator aws_creds unit
  | EvMorePages aws_creds bool
  | EvNextPage aws_creds "error + aws_db_instance list option"
  | EvModifyDBInstance aws_creds modify_input "error option"

record ('w, 'e) gst =
  world :: 'w
  history :: "'e list"

definition api_call ::
  "('w \<Rightarrow> 'a \<times> 'w) \<Rightarrow> ('a \<Rightarrow> 'e) \<Rightarrow> (('w, 'e, 'm) gst_scheme, 'a) state" where
  "api_call f ev = State (\<lambda>s. case f (world s) of
     (r, w) \<Rightarrow> (r, s\<lparr>world := w, history := history s @ [ev r]\<rparr>))"

definition silent_call :: "('w \<Rightarrow> 'a \<times> 'w) \<Rightarrow> (('w, 'e, 'm) gst_scheme, 'a) state" where
  "silent_call f = State (\<lambda>s. case f (world s) of (r, w) \<Rightarrow> (r, s\<lparr>world := w\<rparr>))"

lemma wp_api_call [wp_simps]:
  "wp (api_call f ev) Q = (\<lambda>s. case f (world s) of
     (r, w) \<Rightarrow> Q r (s\<lparr>world := w, history := history s @ [ev r]\<rparr>))"
  by (simp add: wp_def api_call_def fun_eq_iff split: prod.splits)

lemma wp_silent_call [wp_simps]:
  "wp (silent_call f) Q = (\<lambda>s. case f (world s) of (r, w) \<Rightarrow> Q r (s\<lparr>world := w\<rparr>))"
  by (simp add: wp_def silent_call_def fun_eq_iff split: prod.splits)

text \<open>Whatever the outside answers.\<close>

lemma wp_api_any:
  assumes "\<And>r w. Q r (s\<lparr>world := w, history := history s @ [ev r]\<rparr>)"
  shows "wp (api_call f ev) Q s"
  using assms by (simp add: wp_simps split: prod.splits)

lemma wp_silent_any:
  assumes "\<And>r w. Q r (s\<lparr>world := w\<rparr>)"
  shows "wp (silent_call f) Q s"
  using assms by (simp add: wp_simps split: prod.splits)

text \<open>\<open>f\<close> can answer \<open>r\<close> to \<open>x\<close>: where a value the code uses comes from.\<close>

definition answered :: "('a \<Rightarrow> 'w \<Rightarrow> 'r \<times> 'w) \<Rightarrow> 'a \<Rightarrow> 'r \<Rightarrow> bool" where
  "answered f x r \<longleftrightarrow> (\<exists>w w'. f x w = (r, w'))"

lemma answeredI: "f x w = (r, w') \<Longrightarrow> answered f x r"
  by (auto simp: answered_def)

text \<open>Whatever the outside answers, it is an answer.\<close>

lemma wp_api_answered:
  assumes "\<And>r w. answered f x r \<Longrightarrow> Q r (s\<lparr>world := w, history := history s @ [ev r]\<rparr>)"
  shows "wp (api_call (f x) ev) Q s"
  using assms by (auto simp: wp_simps answered_def split: prod.splits)

section \<open>Programs that only call\<close>

text \<open>
  \<open>extends P s s'\<close>: from \<open>s\<close> to \<open>s'\<close> nothing happened but calls that satisfy \<open>P\<close>.
  \<open>does P m R\<close>: whatever the outside answers, \<open>m\<close> only makes such calls and leaves the caller's
  variables alone, and its result satisfies \<open>R\<close>.
\<close>

definition extends :: "('e \<Rightarrow> bool) \<Rightarrow> ('w, 'e, 'm) gst_scheme \<Rightarrow> ('w, 'e, 'm) gst_scheme \<Rightarrow> bool" where
  "extends P s s' \<longleftrightarrow> (\<exists>w h. s' = s\<lparr>world := w, history := history s @ h\<rparr> \<and> list_all P h)"

lemma extends_refl: "extends P s s"
  unfolding extends_def by (rule exI [of _ "world s"], rule exI [of _ "[]"]) simp

lemma extends_world: "extends P s (s\<lparr>world := w\<rparr>)"
  unfolding extends_def by (rule exI [of _ w], rule exI [of _ "[]"]) simp

lemma extends_event: "P e \<Longrightarrow> extends P s (s\<lparr>world := w, history := history s @ [e]\<rparr>)"
  unfolding extends_def by (rule exI [of _ w], rule exI [of _ "[e]"]) simp

lemma extends_trans: "extends P s t \<Longrightarrow> extends P t u \<Longrightarrow> extends P s u"
  unfolding extends_def by fastforce

lemma extends_mono: "extends P s s' \<Longrightarrow> (\<And>e. P e \<Longrightarrow> Q e) \<Longrightarrow> extends Q s s'"
  unfolding extends_def by (auto simp: list_all_iff)

lemma extends_history: "extends P s s' \<Longrightarrow> \<exists>h. history s' = history s @ h \<and> list_all P h"
  unfolding extends_def by auto

lemma extends_more: "extends P s s' \<Longrightarrow> gst.more s' = gst.more s"
  unfolding extends_def by auto

named_theorems does_intros \<open>rules that follow the structure of a program that only calls\<close>

definition does ::
  "('e \<Rightarrow> bool) \<Rightarrow> (('w, 'e, 'm) gst_scheme, 'a) state \<Rightarrow> ('a \<Rightarrow> bool) \<Rightarrow> bool" where
  "does P m R \<longleftrightarrow> (\<forall>s. wp m (\<lambda>a s'. extends P s s' \<and> R a) s)"

lemma does_return [does_intros]: "R a \<Longrightarrow> does P (State_Monad.return a) R"
  by (simp add: does_def wp_simps extends_refl)

lemma does_bind:
  assumes "does P m R1" and "\<And>a. R1 a \<Longrightarrow> does P (f a) R"
  shows "does P (m \<bind> f) R"
  unfolding does_def wp_bind
proof
  fix s
  have "wp m (\<lambda>a s'. extends P s s' \<and> R1 a) s" using assms(1) by (simp add: does_def)
  then show "wp m (\<lambda>a. wp (f a) (\<lambda>a s'. extends P s s' \<and> R a)) s"
  proof (rule wp_mono)
    fix a t assume t: "extends P s t \<and> R1 a"
    then have "wp (f a) (\<lambda>a s'. extends P t s' \<and> R a) t" using assms(2) by (simp add: does_def)
    then show "wp (f a) (\<lambda>a s'. extends P s s' \<and> R a) t"
      by (rule wp_mono) (use t in \<open>blast intro: extends_trans\<close>)
  qed
qed

lemma does_api:
  "(\<And>r. P (ev r)) \<Longrightarrow> (\<And>r. R r) \<Longrightarrow> does P (api_call f ev) R"
  by (simp add: does_def wp_simps extends_event split: prod.splits)

lemma does_silent: "does P (silent_call f) (\<lambda>_. True)"
  by (simp add: does_def wp_simps extends_world split: prod.splits)

lemma does_api_bind [does_intros]:
  assumes "\<And>r. P (ev r)" and "\<And>r. does P (g r) R"
  shows "does P (api_call f ev \<bind> g) R"
  by (rule does_bind [OF does_api [where R = "\<lambda>_. True"]]) (use assms in auto)

lemma does_if [does_intros]:
  "(b \<Longrightarrow> does P m R) \<Longrightarrow> (\<not> b \<Longrightarrow> does P n R) \<Longrightarrow> does P (if b then m else n) R"
  by simp

lemma does_case_option [does_intros]:
  "(x = None \<Longrightarrow> does P m R) \<Longrightarrow> (\<And>a. x = Some a \<Longrightarrow> does P (f a) R) \<Longrightarrow>
   does P (case x of None \<Rightarrow> m | Some a \<Rightarrow> f a) R"
  by (cases x) simp_all

lemma does_case_sum [does_intros]:
  "(\<And>e. x = Inl e \<Longrightarrow> does P (f e) R) \<Longrightarrow> (\<And>a. x = Inr a \<Longrightarrow> does P (g a) R) \<Longrightarrow>
   does P (case x of Inl e \<Rightarrow> f e | Inr a \<Rightarrow> g a) R"
  by (cases x) simp_all

lemma does_case_outcome [does_intros]:
  "(\<And>a. x = Ret a \<Longrightarrow> does P (f a) R) \<Longrightarrow> (\<And>e. x = Err e \<Longrightarrow> does P (g e) R) \<Longrightarrow>
   (x = Panics \<Longrightarrow> does P p R) \<Longrightarrow> does P (case x of Ret a \<Rightarrow> f a | Err e \<Rightarrow> g e | Panics \<Rightarrow> p) R"
  by (cases x) simp_all

lemma does_case_prod [does_intros]:
  "(\<And>a b. x = (a, b) \<Longrightarrow> does P (f a b) R) \<Longrightarrow> does P (case x of (a, b) \<Rightarrow> f a b) R"
  by (cases x) simp

lemma does_let [does_intros]: "does P (f a) R \<Longrightarrow> does P (let x = a in f x) R"
  by simp

lemma does_weaken: "does P m R \<Longrightarrow> (\<And>a. R a \<Longrightarrow> R' a) \<Longrightarrow> does P m R'"
  unfolding does_def by (blast intro: wp_mono)

lemma does_calls_weaken: "does P m R \<Longrightarrow> (\<And>e. P e \<Longrightarrow> P' e) \<Longrightarrow> does P' m R"
  unfolding does_def by (blast intro: wp_mono extends_mono)

lemma does_wp:
  assumes "does P m R" and "\<And>a s'. extends P s s' \<Longrightarrow> R a \<Longrightarrow> Q a s'"
  shows "wp m Q s"
  using assms unfolding does_def by (blast intro: wp_mono)

section \<open>CreateOrUpdate\<close>

definition CreateOrUpdate ::
  "('o \<Rightarrow> 'w \<Rightarrow> (error + 'o option) \<times> 'w) \<Rightarrow> ('o \<Rightarrow> error + 'o option \<Rightarrow> 'e) \<Rightarrow>
   ('o option \<Rightarrow> 'o \<Rightarrow> 'w \<Rightarrow> (error + op_result \<times> 'o) \<times> 'w) \<Rightarrow> ('o \<Rightarrow> error + op_result \<times> 'o \<Rightarrow> 'e) \<Rightarrow>
   'o \<Rightarrow> ('o \<Rightarrow> (('w, 'e, 'm) gst_scheme, 'o outcome) state) \<Rightarrow>
   (('w, 'e, 'm) gst_scheme, (op_result \<times> 'o) outcome) state" where
  "CreateOrUpdate fetch evf store evs obj mutate = do {
     r \<leftarrow> api_call (fetch obj) (evf obj);
     (case r of
        Inl e \<Rightarrow> State_Monad.return (Err e)
      | Inr found \<Rightarrow> do {
          m \<leftarrow> mutate (case found of None \<Rightarrow> obj | Some old \<Rightarrow> old);
          (case m of
             Ret new \<Rightarrow> do {
               r2 \<leftarrow> api_call (store found new) (evs new);
               (case r2 of
                  Inl e \<Rightarrow> State_Monad.return (Err e)
                | Inr res \<Rightarrow> State_Monad.return (Ret res)) }
           | Err e \<Rightarrow> State_Monad.return (Err e)
           | Panics \<Rightarrow> State_Monad.return Panics) })
   }"

text \<open>Whatever the outside answers, the mutate function runs at most once, before the store.\<close>

lemma wp_CreateOrUpdate:
  assumes "\<And>e w. Q (Err e) (s\<lparr>world := w, history := history s @ [evf obj (Inl e)]\<rparr>)"
    and "\<And>found w. fetch obj (world s) = (Inr found, w) \<Longrightarrow>
      wp (mutate (case found of None \<Rightarrow> obj | Some old \<Rightarrow> old))
      (\<lambda>m t. case m of
          Ret new \<Rightarrow> \<forall>r w. Q (case r of Inl e \<Rightarrow> Err e | Inr res \<Rightarrow> Ret res)
                       (t\<lparr>world := w, history := history t @ [evs new r]\<rparr>)
        | Err e \<Rightarrow> Q (Err e) t
        | Panics \<Rightarrow> Q Panics t)
      (s\<lparr>world := w, history := history s @ [evf obj (Inr found)]\<rparr>)"
  shows "wp (CreateOrUpdate fetch evf store evs obj mutate) Q s"
proof (cases "fetch obj (world s)")
  case (Pair r w)
  show ?thesis
  proof (cases r)
    case (Inl e)
    then show ?thesis using assms(1) Pair by (simp add: CreateOrUpdate_def wp_simps)
  next
    case (Inr found)
    have "wp (mutate (case found of None \<Rightarrow> obj | Some old \<Rightarrow> old))
        (\<lambda>m. wp (case m of
             Ret new \<Rightarrow> do {
               r2 \<leftarrow> api_call (store found new) (evs new);
               (case r2 of
                  Inl e \<Rightarrow> State_Monad.return (Err e)
                | Inr res \<Rightarrow> State_Monad.return (Ret res)) }
           | Err e \<Rightarrow> State_Monad.return (Err e)
           | Panics \<Rightarrow> State_Monad.return Panics) Q)
        (s\<lparr>world := w, history := history s @ [evf obj (Inr found)]\<rparr>)"
      by (rule wp_mono [OF assms(2)])
        (auto simp: Pair Inr wp_simps split: outcome.splits prod.splits sum.splits)
    then show ?thesis by (simp add: CreateOrUpdate_def wp_bind wp_api_call Pair Inr)
  qed
qed

text \<open>An invariant \<open>I\<close> that calls and mutate function keep, \<open>M\<close> holding of what is stored.\<close>

lemma wp_CreateOrUpdate_rule:
  assumes "\<And>r w. I (s\<lparr>world := w, history := history s @ [evf obj r]\<rparr>)"
    and "\<And>old t. old = obj \<or> answered fetch obj (Inr (Some old)) \<Longrightarrow> I t \<Longrightarrow>
      wp (mutate old) (\<lambda>m t. I t \<and> (case m of Ret new \<Rightarrow> M new | _ \<Rightarrow> True)) t"
    and "\<And>t new r w. I t \<Longrightarrow> M new \<Longrightarrow>
      Q (case r of Inl e \<Rightarrow> Err e | Inr res \<Rightarrow> Ret res)
        (t\<lparr>world := w, history := history t @ [evs new r]\<rparr>)"
    and "\<And>t e. I t \<Longrightarrow> Q (Err e) t" and "\<And>t. I t \<Longrightarrow> Q Panics t"
  shows "wp (CreateOrUpdate fetch evf store evs obj mutate) Q s"
proof (rule wp_CreateOrUpdate)
  show "Q (Err e) (s\<lparr>world := w, history := history s @ [evf obj (Inl e)]\<rparr>)" for e w
    by (rule assms(4) [OF assms(1)])
next
  fix found w
  let ?s = "s\<lparr>world := w, history := history s @ [evf obj (Inr found)]\<rparr>"
  let ?old = "case found of None \<Rightarrow> obj | Some old \<Rightarrow> old"
  assume "fetch obj (world s) = (Inr found, w)"
  then have "?old = obj \<or> answered fetch obj (Inr (Some ?old))" by (cases found) (auto intro: answeredI)
  from assms(2) [OF this assms(1)]
  show "wp (mutate ?old) (\<lambda>m t. case m of
       Ret new \<Rightarrow> \<forall>r w. Q (case r of Inl e \<Rightarrow> Err e | Inr res \<Rightarrow> Ret res)
                    (t\<lparr>world := w, history := history t @ [evs new r]\<rparr>)
     | Err e \<Rightarrow> Q (Err e) t | Panics \<Rightarrow> Q Panics t) ?s"
    by (rule wp_mono) (auto intro: assms(3,4,5) split: outcome.splits)
qed

lemma wp_CreateOrUpdate_inv:
  assumes "\<And>r w. I (s\<lparr>world := w, history := history s @ [evf obj r]\<rparr>)"
    and "\<And>old t. old = obj \<or> answered fetch obj (Inr (Some old)) \<Longrightarrow> I t \<Longrightarrow>
      wp (mutate old) (\<lambda>m t. I t \<and> (case m of Ret new \<Rightarrow> M new | _ \<Rightarrow> True)) t"
    and "\<And>t new r w. I t \<Longrightarrow> M new \<Longrightarrow> I (t\<lparr>world := w, history := history t @ [evs new r]\<rparr>)"
  shows "wp (CreateOrUpdate fetch evf store evs obj mutate) (\<lambda>_. I) s"
  by (rule wp_CreateOrUpdate_rule [where I = I and M = M]) (use assms in auto)

section \<open>Histories\<close>

text \<open>The calls made since the history was \<open>h\<close> all satisfy \<open>P\<close>.\<close>

abbreviation logged :: "('e \<Rightarrow> bool) \<Rightarrow> 'e list \<Rightarrow> ('w, 'e, 'm) gst_scheme \<Rightarrow> bool" where
  "logged P h t \<equiv> \<exists>l. history t = h @ l \<and> list_all P l"

end
