(* ===== verification/Requests.thy ===== *)
theory Requests
  imports KubeClient
begin

text \<open>
  Which resources a changed DB instance wakes up: \<open>getOwnerInstanceRequests\<close> and
  \<open>parseNamespacedName\<close> (\<open>controllers/rdsinstance_controller.go\<close>),
  \<open>getInstanceInventoryRequests\<close> (\<open>rdsinventory_controller.go\<close>) and
  \<open>getInstanceConnectionRequests\<close> (\<open>rdsconnection_controller.go\<close>). The owner of an object is
  found by parsing the annotation \<open>namespace/name\<close> that operator-lib wrote.
\<close>

definition rdsInstanceType :: string where
  "rdsInstanceType = ''RDSInstance.dbaas.redhat.com''"

definition rdsInventoryType :: string where
  "rdsInventoryType = ''RDSInventory.dbaas.redhat.com''"

definition parseNamespacedName :: "string \<Rightarrow> key" where
  "parseNamespacedName s =
     (case SplitN2 (CHR ''/'') s of
        [v0] \<Rightarrow> \<lparr>k_namespace = [], k_name = v0\<rparr>
      | v0 # v1 # _ \<Rightarrow> \<lparr>k_namespace = v0, k_name = v1\<rparr>
      | [] \<Rightarrow> \<lparr>k_namespace = [], k_name = []\<rparr>)"

text \<open>The annotation's format, \<open>namespace/name\<close>.\<close>

definition namespaced_name :: "key \<Rightarrow> string" where
  "namespaced_name k = k_namespace k @ ''/'' @ k_name k"

lemma parseNamespacedName_print:
  "CHR ''/'' \<notin> set (k_namespace k) \<Longrightarrow> parseNamespacedName (namespaced_name k) = k"
  by (simp add: parseNamespacedName_def namespaced_name_def SplitN2_sep)

interpretation key_codec: codec
  "\<lambda>k. CHR ''/'' \<notin> set (k_namespace k)" namespaced_name "\<lambda>s. Some (parseNamespacedName s)"
  by unfold_locales (simp add: parseNamespacedName_print)

text \<open>
  The owner an object's annotations name, for an owner of the given type; the tests are those
  of \<open>getOwnerInstanceRequests\<close> and of the inventory's deletion loop.
\<close>

definition annotated_owner :: "'n lib_scheme \<Rightarrow> string \<Rightarrow> object_meta \<Rightarrow> key option" where
  "annotated_owner L ty m =
     (case om_annotations m (TypeAnnotation L) of
        None \<Rightarrow> None
      | Some typeString \<Rightarrow>
          if typeString = ty
          then (case om_annotations m (NamespacedNameAnnotation L) of
                  None \<Rightarrow> None
                | Some s \<Rightarrow> if TrimSpace s = [] then None else Some (parseNamespacedName s))
          else None)"

definition getOwnerInstanceRequests :: "'n lib_scheme \<Rightarrow> object_meta \<Rightarrow> key list" where
  "getOwnerInstanceRequests L m =
     (case annotated_owner L rdsInstanceType m of None \<Rightarrow> [] | Some k \<Rightarrow> [k])"

definition getInstanceInventoryRequests ::
  "('w, 'n) env_scheme \<Rightarrow> db_instance \<Rightarrow> (('w, event, 'm) gst_scheme, key list) state" where
  "getInstanceInventoryRequests E db = do {
     let ns = Some (om_namespace (db_meta db));
     r \<leftarrow> api_call (api_listInventories E ns) (EvListInventories ns);
     State_Monad.return (case r of
         Inl _ \<Rightarrow> []
       | Inr items \<Rightarrow> map (\<lambda>i. object_key (inv_meta i)) items)
   }"

abbreviation instanceIDKey :: string where "instanceIDKey \<equiv> ''.spec.instanceID''"

text \<open>The namespace test of \<open>getInstanceConnectionRequests\<close>.\<close>

definition connection_matches :: "rds_connection \<Rightarrow> string \<Rightarrow> bool" where
  "connection_matches c ns =
     (if length (k_namespace (con_inventoryRef c)) > 0
      then k_namespace (con_inventoryRef c) = ns
      else om_namespace (con_meta c) = ns)"

text \<open>A nil identifier is a panic (\<open>None\<close>).\<close>

definition getInstanceConnectionRequests ::
  "('w, 'n) env_scheme \<Rightarrow> db_instance \<Rightarrow> (('w, event, 'm) gst_scheme, key list option) state" where
  "getInstanceConnectionRequests E db =
     (case sp_dbInstanceIdentifier (db_spec db) of
        None \<Rightarrow> State_Monad.return None
      | Some i \<Rightarrow> do {
          r \<leftarrow> api_call (api_listConnections E (instanceIDKey, i)) (EvListConnections (instanceIDKey, i));
          State_Monad.return (case r of
              Inl _ \<Rightarrow> Some []
            | Inr items \<Rightarrow>
                Some (map (\<lambda>c. object_key (con_meta c))
                  (filter (\<lambda>c. connection_matches c (om_namespace (db_meta db))) items))) })"

text \<open>
  What operator-lib documents of \<open>SetOwnerAnnotations\<close>: the type annotation is the owner's kind
  and group, the other is \<open>namespace/name\<close>, and nothing but the annotations changes.
\<close>

fun owner_type :: "kobject \<Rightarrow> string" where
  "owner_type (OwnerInventory _) = ''RDSInventory.dbaas.redhat.com''"
| "owner_type (OwnerConnection _) = ''RDSConnection.dbaas.redhat.com''"
| "owner_type (OwnerInstance _) = ''RDSInstance.dbaas.redhat.com''"
| "owner_type (OwnerDBInstance _) = ''DBInstance.rds.services.k8s.aws''"

definition owner_annotations_ok :: "'n lib_scheme \<Rightarrow> bool" where
  "owner_annotations_ok L \<longleftrightarrow>
     TypeAnnotation L \<noteq> NamespacedNameAnnotation L \<and>
     (\<forall>ow m m'. SetOwnerAnnotations L ow m = Inr m' \<longrightarrow>
        (\<exists>an. m' = m\<lparr>om_annotations := an\<rparr> \<and>
              an (TypeAnnotation L) = Some (owner_type ow) \<and>
              an (NamespacedNameAnnotation L) = Some (namespaced_name (object_key (kobject_meta ow)))))"

lemma TrimSpace_nonblank:
  assumes "c \<in> set s" "\<And>e. e \<in> set space_encodings \<Longrightarrow> c \<notin> set e"
  shows "TrimSpace s \<noteq> []"
proof -
  have keep: "c \<in> set (trim_left encs t)"
    if "c \<in> set t" "\<And>e. e \<in> set encs \<Longrightarrow> c \<notin> set e" for encs t
    using that
  proof (induction encs t rule: trim_left.induct)
    case (1 encs t)
    show ?case
    proof (cases "[] \<in> set encs")
      case True
      with "1.prems" show ?thesis by (subst trim_left.simps) simp
    next
      case nonempty: False
      show ?thesis
      proof (cases "drop_one encs t")
        case None
        with nonempty "1.prems" show ?thesis by (subst trim_left.simps) simp
      next
        case (Some u)
        then obtain e where e: "find (\<lambda>e. take (length e) t = e) encs = Some e" "u = drop (length e) t"
          by (auto simp: drop_one_def split: option.splits)
        then have "e \<in> set encs" "t = e @ u"
          by (auto simp: find_Some_iff) (metis append_take_drop_id)
        with "1.prems" have "c \<in> set u" by auto
        with "1.IH" [OF nonempty Some] "1.prems"(2) nonempty Some show ?thesis
          by (subst trim_left.simps) simp
      qed
    qed
  qed
  have "c \<in> set (rev (trim_left space_encodings s))"
    using keep assms by simp
  then have "c \<in> set (trim_left (map rev space_encodings) (rev (trim_left space_encodings s)))"
    by (rule keep) (use assms(2) in auto)
  then show ?thesis by (auto simp: TrimSpace_def)
qed

lemma slash_not_space: "e \<in> set space_encodings \<Longrightarrow> CHR ''/'' \<notin> set e"
proof -
  have "list_all (\<lambda>e. CHR ''/'' \<notin> set e) space_encodings" by code_simp
  then show "e \<in> set space_encodings \<Longrightarrow> CHR ''/'' \<notin> set e" by (simp add: list_all_iff)
qed

lemma TrimSpace_namespaced_name: "TrimSpace (namespaced_name k) \<noteq> []"
  by (rule TrimSpace_nonblank [of "CHR ''/''"]) (auto simp: namespaced_name_def dest: slash_not_space)

lemma annotated_owner_set:
  assumes "owner_annotations_ok L" "SetOwnerAnnotations L ow m = Inr m'"
    and "CHR ''/'' \<notin> set (om_namespace (kobject_meta ow))"
  shows "annotated_owner L ty m' =
    (if ty = owner_type ow then Some (object_key (kobject_meta ow)) else None)"
proof -
  obtain an where "m' = m\<lparr>om_annotations := an\<rparr>" "an (TypeAnnotation L) = Some (owner_type ow)"
    "an (NamespacedNameAnnotation L) = Some (namespaced_name (object_key (kobject_meta ow)))"
    using assms(1,2) unfolding owner_annotations_ok_def by blast
  moreover have "parseNamespacedName (namespaced_name (object_key (kobject_meta ow))) =
      object_key (kobject_meta ow)"
    using assms(3) by (intro parseNamespacedName_print) (simp add: object_key_def)
  ultimately show ?thesis
    by (simp add: annotated_owner_def TrimSpace_namespaced_name)
qed

end
