(* ===== verification/Sample.thy ===== *)
theory Sample
  imports Requests
begin

text \<open>
  A small outside world, for the examples that show each conditional property at work: one
  inventory, one instance, one connection and one DB instance, and a client that answers from
  them. The helpers of the other packages are implemented the way those packages document them,
  and meet the hypotheses of the development. The world is the number of pages a
  \<open>DescribeDBInstances\<close> paginator still has.
\<close>

section \<open>Helpers\<close>

fun put_condition :: "condition list \<Rightarrow> condition \<Rightarrow> condition list" where
  "put_condition [] c = [c]"
| "put_condition (d # ds) c = (if c_type d = c_type c then c # ds else d # put_condition ds c)"

definition find_condition :: "condition list \<Rightarrow> string \<Rightarrow> condition option" where
  "find_condition cs ty = find (\<lambda>c. c_type c = ty) cs"

lemma find_put_condition:
  "find_condition (put_condition cs c) ty = (if ty = c_type c then Some c else find_condition cs ty)"
  by (induction cs) (auto simp: find_condition_def)

definition set_owner :: "kobject \<Rightarrow> object_meta \<Rightarrow> error + object_meta" where
  "set_owner ow m = Inr (m\<lparr>om_annotations := (om_annotations m)
     (''operator-sdk/primary-resource-type'' \<mapsto> owner_type ow,
      ''operator-sdk/primary-resource'' \<mapsto> namespaced_name (object_key (kobject_meta ow)))\<rparr>)"

text \<open>An object has one controller; taking it from another owner is an error.\<close>

definition set_controller :: "kobject \<Rightarrow> object_meta \<Rightarrow> error + object_meta" where
  "set_controller ow m =
     (if om_controller m \<in> {None, Some (om_uid (kobject_meta ow))}
      then Inr (m\<lparr>om_controller := Some (om_uid (kobject_meta ow))\<rparr>)
      else Inl (PlainError ''object is already owned by another controller''))"

section \<open>Objects\<close>

definition sample_meta :: "string \<Rightarrow> string list \<Rightarrow> object_meta" where
  "sample_meta n fs = empty_meta\<lparr>om_name := n, om_namespace := ''apps'', om_uid := n, om_finalizers := fs\<rparr>"

definition sample_key :: "string \<Rightarrow> key" where
  "sample_key n = \<lparr>k_namespace = ''apps'', k_name = n\<rparr>"

definition sample_inventory :: rds_inventory where
  "sample_inventory = \<lparr>inv_kind = ''RDSInventory'',
     inv_meta = sample_meta ''inventory'' [''rds.dbaas.redhat.com/inventory''],
     inv_credentialsRef = Some (sample_key ''aws''),
     inv_conditions = [\<lparr>c_type = ''SpecSynced'', c_status = ConditionTrue, c_reason = ''SyncOK'',
       c_message = [], c_lastTransitionTime = 1\<rparr>],
     inv_instances = [\<lparr>di_instanceID = ''orders'', di_name = ''db1'', di_instanceInfo = Map.empty\<rparr>]\<rparr>"

definition sample_connection :: rds_connection where
  "sample_connection = \<lparr>con_kind = ''RDSConnection'', con_meta = sample_meta ''binding'' [],
     con_inventoryRef = sample_key ''inventory'', con_instanceID = ''orders'', con_conditions = [],
     con_credentialsRef = None, con_connectionInfoRef = None\<rparr>"

definition sample_instance :: rds_instance where
  "sample_instance = \<lparr>ri_kind = ''RDSInstance'',
     ri_meta = sample_meta ''db1'' [''rds.dbaas.redhat.com/instance''],
     ri_inventoryRef = sample_key ''inventory'', ri_cloudRegion = ''us-east-1a'',
     ri_otherInstanceParams = [''Engine'' \<mapsto> ''postgres'', ''DBInstanceIdentifier'' \<mapsto> ''orders'',
       ''DBInstanceClass'' \<mapsto> ''db.t3.micro'', ''AllocatedStorage'' \<mapsto> ''20''],
     ri_conditions = [], ri_instanceID = [], ri_instanceInfo = Map.empty, ri_phase = []\<rparr>"

definition sample_db :: db_instance where
  "sample_db = \<lparr>db_kind = ''DBInstance'', db_meta = sample_meta ''db1'' [],
     db_spec = empty_spec\<lparr>sp_engine := Some ''postgres'', sp_dbInstanceIdentifier := Some ''orders'',
       sp_masterUsername := Some ''postgres'', sp_dbName := Some ''postgres'',
       sp_masterUserPassword := Some \<lparr>skr_name = ''db1-credentials'', skr_namespace = ''apps'',
         skr_key = ''password''\<rparr>\<rparr>,
     db_status = empty_status\<lparr>st_dbInstanceStatus := Some ''available'',
       st_endpoint := Some \<lparr>ep_address = Some ''db1.example.com'', ep_hostedZoneID = None, ep_port = Some 5432\<rparr>\<rparr>\<rparr>"

definition sample_secret :: "key \<Rightarrow> secret" where
  "sample_secret k = \<lparr>sec_meta = empty_meta\<lparr>om_name := k_name k, om_namespace := k_namespace k\<rparr>,
     sec_data = Some [''password'' \<mapsto> ''Sw0rd~fish'', ''AWS_ACCESS_KEY_ID'' \<mapsto> ''AKIA'',
       ''AWS_SECRET_ACCESS_KEY'' \<mapsto> ''wJal'', ''AWS_REGION'' \<mapsto> ''us-east-1'']\<rparr>"

definition sample_aws :: aws_db_instance where
  "sample_aws = \<lparr>aws_dbInstanceIdentifier = Some ''orders'', aws_dbInstanceStatus = Some ''available'',
     aws_masterUsername = Some ''postgres'', aws_dbName = Some ''postgres''\<rparr>"

definition not_found :: error where
  "not_found = StatusError ReasonNotFound ''not found''"

section \<open>The client\<close>

definition stored :: "'o option \<Rightarrow> 'o \<Rightarrow> error + op_result \<times> 'o" where
  "stored found new = Inr ((case found of None \<Rightarrow> OperationResultCreated | Some _ \<Rightarrow> OperationResultUpdated), new)"

definition idle :: "'w env" where
  "idle = \<lparr>SetStatusCondition = put_condition, FindStatusCondition = find_condition,
     ContainsFinalizer = (\<lambda>m f. f \<in> set (om_finalizers m)),
     AddFinalizer = (\<lambda>m f. m\<lparr>om_finalizers := om_finalizers m @ [f]\<rparr>),
     RemoveFinalizer = (\<lambda>m f. m\<lparr>om_finalizers := removeAll f (om_finalizers m)\<rparr>),
     SetOwnerAnnotations = set_owner, SetControllerReference = set_controller,
     TypeAnnotation = ''operator-sdk/primary-resource-type'',
     NamespacedNameAnnotation = ''operator-sdk/primary-resource'',
     TypeLabelKey = ''db-operator/type'', TypeLabelValue = ''credentials'',
     rdsGroup = ''rds.services.k8s.aws'', timeString = (\<lambda>_. ''2022-06-01''),
     api_getInventory = (\<lambda>k. Pair (Inr sample_inventory)),
     api_updateInventory = (\<lambda>o1. Pair (Inr o1)),
     api_statusUpdateInventory = (\<lambda>o1. Pair (Inr o1)),
     api_listInventories = (\<lambda>n. Pair (Inr [sample_inventory])),
     api_getConnection = (\<lambda>k. Pair (Inr sample_connection)),
     api_statusUpdateConnection = (\<lambda>o1. Pair (Inr o1)),
     api_listConnections = (\<lambda>f. Pair (Inr [sample_connection])),
     api_getInstance = (\<lambda>k. Pair (Inr sample_instance)),
     api_updateInstance = (\<lambda>o1. Pair (Inr o1)),
     api_statusUpdateInstance = (\<lambda>o1. Pair (Inr o1)),
     api_getDBInstance = (\<lambda>k. Pair (Inr sample_db)),
     api_listDBInstances = (\<lambda>n sel. Pair (Inr [sample_db])),
     api_updateDBInstance = (\<lambda>o1. Pair (Inr o1)),
     api_deleteDBInstance = (\<lambda>o1. Pair None),
     cou_fetchDBInstance = (\<lambda>o1. Pair (Inr None)),
     cou_storeDBInstance = (\<lambda>found new. Pair (stored found new)),
     api_listAdopted = (\<lambda>n. Pair (Inr [])),
     api_createAdopted = (\<lambda>o1. Pair (Inr o1)),
     api_deleteAdopted = (\<lambda>o1. Pair None),
     api_getSecret = (\<lambda>k. Pair (Inr (sample_secret k))),
     api_createSecret = (\<lambda>o1. Pair (Inr o1)),
     api_updateSecret = (\<lambda>o1. Pair (Inr o1)),
     api_deleteSecret = (\<lambda>o1. Pair None),
     cou_fetchSecret = (\<lambda>o1. Pair (Inr None)),
     cou_storeSecret = (\<lambda>found new. Pair (stored found new)),
     api_getConfigMap = (\<lambda>k. Pair (Inr empty_configmap)),
     api_deleteConfigMap = (\<lambda>o1. Pair None),
     cou_fetchConfigMap = (\<lambda>o1. Pair (Inr None)),
     cou_storeConfigMap = (\<lambda>found new. Pair (stored found new)),
     api_getDeployment = (\<lambda>k. Pair (Inr \<lparr>dep_meta = empty_meta, dep_replicas = Some 1, dep_readyReplicas = 1\<rparr>)),
     api_updateDeployment = (\<lambda>o1. Pair (Inr o1)),
     cou_fetchCRD = (\<lambda>o1. Pair (Inr None)),
     cou_storeCRD = (\<lambda>found new. Pair (stored found new)),
     aws_newPaginator = (\<lambda>c. Pair ()),
     aws_HasMorePages = (\<lambda>c w. False),
     aws_NextPage = (\<lambda>c. Pair (Inr None)),
     aws_ModifyDBInstance = (\<lambda>c i. Pair None),
     crypto_randInt = (\<lambda>n. Pair (Some 0)),
     math_randInt = (\<lambda>n. Pair 0)\<rparr>"

text \<open>With a paginator whose pages left are the world.\<close>

definition sample :: "nat env" where
  "sample = idle\<lparr>aws_newPaginator := (\<lambda>c w. ((), 1)), aws_HasMorePages := (\<lambda>c w. 0 < w),
     aws_NextPage := (\<lambda>c w. (Inr (Some [sample_aws]), w - 1))\<rparr>"

text \<open>Each field, so that examples evaluate without unfolding the whole client.\<close>

lemma sample_fields [simp]:
  "SetStatusCondition sample = put_condition"
  "FindStatusCondition sample = find_condition"
  "ContainsFinalizer sample = (\<lambda>m f. f \<in> set (om_finalizers m))"
  "AddFinalizer sample = (\<lambda>m f. m\<lparr>om_finalizers := om_finalizers m @ [f]\<rparr>)"
  "RemoveFinalizer sample = (\<lambda>m f. m\<lparr>om_finalizers := removeAll f (om_finalizers m)\<rparr>)"
  "SetOwnerAnnotations sample = set_owner"
  "SetControllerReference sample = set_controller"
  "TypeAnnotation sample = ''operator-sdk/primary-resource-type''"
  "NamespacedNameAnnotation sample = ''operator-sdk/primary-resource''"
  "TypeLabelKey sample = ''db-operator/type''"
  "TypeLabelValue sample = ''credentials''"
  "rdsGroup sample = ''rds.services.k8s.aws''"
  "timeString sample = (\<lambda>_. ''2022-06-01'')"
  "api_getInventory sample = (\<lambda>k. Pair (Inr sample_inventory))"
  "api_updateInventory sample = (\<lambda>o1. Pair (Inr o1))"
  "api_statusUpdateInventory sample = (\<lambda>o1. Pair (Inr o1))"
  "api_listInventories sample = (\<lambda>n. Pair (Inr [sample_inventory]))"
  "api_getConnection sample = (\<lambda>k. Pair (Inr sample_connection))"
  "api_statusUpdateConnection sample = (\<lambda>o1. Pair (Inr o1))"
  "api_listConnections sample = (\<lambda>f. Pair (Inr [sample_connection]))"
  "api_getInstance sample = (\<lambda>k. Pair (Inr sample_instance))"
  "api_updateInstance sample = (\<lambda>o1. Pair (Inr o1))"
  "api_statusUpdateInstance sample = (\<lambda>o1. Pair (Inr o1))"
  "api_getDBInstance sample = (\<lambda>k. Pair (Inr sample_db))"
  "api_listDBInstances sample = (\<lambda>n sel. Pair (Inr [sample_db]))"
  "api_updateDBInstance sample = (\<lambda>o1. Pair (Inr o1))"
  "api_deleteDBInstance sample = (\<lambda>o1. Pair None)"
  "cou_fetchDBInstance sample = (\<lambda>o1. Pair (Inr None))"
  "cou_storeDBInstance sample = (\<lambda>found new. Pair (stored found new))"
  "api_listAdopted sample = (\<lambda>n. Pair (Inr []))"
  "api_createAdopted sample = (\<lambda>o1. Pair (Inr o1))"
  "api_deleteAdopted sample = (\<lambda>o1. Pair None)"
  "api_getSecret sample = (\<lambda>k. Pair (Inr (sample_secret k)))"
  "api_createSecret sample = (\<lambda>o1. Pair (Inr o1))"
  "api_updateSecret sample = (\<lambda>o1. Pair (Inr o1))"
  "api_deleteSecret sample = (\<lambda>o1. Pair None)"
  "cou_fetchSecret sample = (\<lambda>o1. Pair (Inr None))"
  "cou_storeSecret sample = (\<lambda>found new. Pair (stored found new))"
  "api_getConfigMap sample = (\<lambda>k. Pair (Inr empty_configmap))"
  "api_deleteConfigMap sample = (\<lambda>o1. Pair None)"
  "cou_fetchConfigMap sample = (\<lambda>o1. Pair (Inr None))"
  "cou_storeConfigMap sample = (\<lambda>found new. Pair (stored found new))"
  "api_getDeployment sample = (\<lambda>k. Pair (Inr \<lparr>dep_meta = empty_meta, dep_replicas = Some 1, dep_readyReplicas = 1\<rparr>))"
  "api_updateDeployment sample = (\<lambda>o1. Pair (Inr o1))"
  "cou_fetchCRD sample = (\<lambda>o1. Pair (Inr None))"
  "cou_storeCRD sample = (\<lambda>found new. Pair (stored found new))"
  "aws_newPaginator sample = (\<lambda>c w. ((), 1))"
  "aws_HasMorePages sample = (\<lambda>c w. 0 < w)"
  "aws_NextPage sample = (\<lambda>c w. (Inr (Some [sample_aws]), w - 1))"
  "aws_ModifyDBInstance sample = (\<lambda>c i. Pair None)"
  "crypto_randInt sample = (\<lambda>n. Pair (Some 0))"
  "math_randInt sample = (\<lambda>n. Pair 0)"
  by (simp_all add: sample_def idle_def)

section \<open>It meets the hypotheses\<close>

lemma sample_conditions_ok: "conditions_ok sample"
proof -
  have "\<exists>t. c = c\<lparr>c_lastTransitionTime := t\<rparr>" for c :: condition
    by (rule exI [of _ "c_lastTransitionTime c"]) simp
  then show ?thesis
    by (simp add: conditions_ok_def find_put_condition)
qed

lemma sample_finalizers_ok: "finalizers_ok sample"
  unfolding finalizers_ok_def by auto

lemma sample_rand_ok: "rand_ok sample"
  by (simp add: rand_ok_def)

lemma sample_owner_annotations_ok: "owner_annotations_ok sample"
  by (auto simp: owner_annotations_ok_def set_owner_def)

end
