(* ===== verification/Credential.thy ===== *)
theory Credential
  imports KubeClient "HOL-Library.Multiset"
begin

text \<open>
  \<open>controllers/credential.go\<close>: the passwords the operator generates and its tables from the
  engine of a DB instance to the master user, the initial database and the binding type.
  Randomness comes from the parameter \<open>env\<close>; \<open>None\<close> is a panic (an index out of range, or the
  nil result of a failed random read).
\<close>

section \<open>Tables over the engine\<close>

definition postgres_engines :: "string list" where
  "postgres_engines = [''postgres'', ''aurora-postgresql'']"

definition mysql_engines :: "string list" where
  "mysql_engines = [''mysql'', ''mariadb'', ''aurora'', ''aurora-mysql'']"

definition oracle_engines :: "string list" where
  "oracle_engines =
     [''oracle-se2'', ''oracle-se2-cdb'', ''oracle-ee'', ''oracle-ee-cdb'', ''custom-oracle-ee'']"

definition sqlserver_engines :: "string list" where
  "sqlserver_engines = [''sqlserver-ee'', ''sqlserver-se'', ''sqlserver-ex'', ''sqlserver-web'']"

definition generateUsername :: "string \<Rightarrow> string" where
  "generateUsername engine =
     (if engine = ''postgres'' \<or> engine = ''aurora-postgresql'' then ''postgres'' else ''admin'')"

definition generateDBName :: "string \<Rightarrow> string option" where
  "generateDBName engine =
     (if engine \<in> set postgres_engines then Some ''postgres''
      else if engine \<in> set mysql_engines then Some ''mydb''
      else if engine \<in> set oracle_engines then Some ''ORCL''
      else None)"

definition generateBindingType :: "string \<Rightarrow> string" where
  "generateBindingType engine =
     (if engine \<in> set postgres_engines then ''postgresql''
      else if engine \<in> set mysql_engines then ''mysql''
      else if engine \<in> set oracle_engines then ''oracle''
      else if engine \<in> set sqlserver_engines then ''sqlserver''
      else [])"

lemmas engine_defs = postgres_engines_def mysql_engines_def oracle_engines_def sqlserver_engines_def

section \<open>Passwords\<close>

definition digits :: string where
  "digits = ''0123456789''"

definition specials :: string where
  "specials = ''~=+%^*()[]{}!#$?|''"

definition all_chars :: string where
  "all_chars = ''ABCDEFGHIJKLMNOPQRSTUVWXYZabcdefghijklmnopqrstuvwxyz'' @ digits @ specials"

definition getRandInt :: "('w, 'n) env_scheme \<Rightarrow> nat \<Rightarrow> (('w, 'e, 'm) gst_scheme, nat option) state" where
  "getRandInt E n = silent_call (crypto_randInt E n)"

text \<open>\<open>cs[getRandInt(len(cs))]\<close>\<close>

definition pick :: "('w, 'n) env_scheme \<Rightarrow> string \<Rightarrow> (('w, 'e, 'm) gst_scheme, char option) state" where
  "pick E cs = do {
     r \<leftarrow> getRandInt E (length cs);
     State_Monad.return (case r of
       None \<Rightarrow> None
     | Some i \<Rightarrow> if i < length cs then Some (cs ! i) else None)
   }"

text \<open>The loop that writes \<open>buf[i]\<close> for each of the given positions.\<close>

fun fill_buf ::
  "('w, 'n) env_scheme \<Rightarrow> nat list \<Rightarrow> string \<Rightarrow> (('w, 'e, 'm) gst_scheme, string option) state" where
  "fill_buf E [] buf = State_Monad.return (Some buf)"
| "fill_buf E (i # is) buf = do {
     c \<leftarrow> pick E all_chars;
     (case c of
        None \<Rightarrow> State_Monad.return None
      | Some ch \<Rightarrow> fill_buf E is (buf[i := ch]))
   }"

text \<open>\<open>rand.Shuffle\<close>: swap position \<open>i\<close> with a random one up to \<open>i\<close>, downwards.\<close>

fun shuffle_buf ::
  "('w, 'n) env_scheme \<Rightarrow> nat \<Rightarrow> string \<Rightarrow> (('w, 'e, 'm) gst_scheme, string option) state" where
  "shuffle_buf E 0 buf = State_Monad.return (Some buf)"
| "shuffle_buf E (Suc i) buf = do {
     j \<leftarrow> silent_call (math_randInt E (Suc (Suc i)));
     (if j < length buf \<and> Suc i < length buf
      then shuffle_buf E i (buf[Suc i := buf ! j, j := buf ! Suc i])
      else State_Monad.return None)
   }"

definition generatePassword :: "('w, 'n) env_scheme \<Rightarrow> (('w, 'e, 'm) gst_scheme, string option) state" where
  "generatePassword E = do {
     let buf = replicate 12 (CHR 0x00);
     d \<leftarrow> pick E digits;
     (case d of
        None \<Rightarrow> State_Monad.return None
      | Some dc \<Rightarrow> do {
          s \<leftarrow> pick E specials;
          (case s of
             None \<Rightarrow> State_Monad.return None
           | Some sc \<Rightarrow> do {
               b \<leftarrow> fill_buf E [2..<12] (buf[0 := dc, 1 := sc]);
               (case b of
                  None \<Rightarrow> State_Monad.return None
                | Some full \<Rightarrow> shuffle_buf E (length full - 1) full) }) })
   }"

section \<open>What a generated password looks like\<close>

definition strong_password :: "string \<Rightarrow> bool" where
  "strong_password pw \<longleftrightarrow>
     length pw = 12 \<and> (\<exists>c \<in> set pw. c \<in> set digits) \<and> (\<exists>c \<in> set pw. c \<in> set specials) \<and>
     set pw \<subseteq> set all_chars"

lemma wp_pick:
  assumes "\<And>w. Q None (s\<lparr>world := w\<rparr>)" and "\<And>c w. c \<in> set cs \<Longrightarrow> Q (Some c) (s\<lparr>world := w\<rparr>)"
  shows "wp (pick E cs) Q s"
  using assms by (simp add: pick_def getRandInt_def wp_simps split: prod.splits option.splits)

lemma wp_pick_ok:
  assumes "rand_ok E" "cs \<noteq> []"
    and "\<And>w w'. crypto_randInt E (length cs) w = (None, w') \<Longrightarrow> Q None (s\<lparr>world := w'\<rparr>)"
    and "\<And>c w. c \<in> set cs \<Longrightarrow> Q (Some c) (s\<lparr>world := w\<rparr>)"
  shows "wp (pick E cs) Q s"
proof -
  have "r < length cs" if "crypto_randInt E (length cs) w = (Some r, w')" for r w w'
    using assms(1,2) that by (auto simp: rand_ok_def dest!: spec [of _ "length cs"] spec [of _ w])
  then show ?thesis
    using assms(3,4) by (fastforce simp: pick_def getRandInt_def wp_simps split: prod.splits option.splits)
qed

text \<open>The shuffle permutes: it keeps the length and the characters.\<close>

lemma wp_shuffle_buf:
  "mset buf = M \<Longrightarrow>
   wp (shuffle_buf E i buf) (\<lambda>r s'. (\<exists>w. s' = sa\<lparr>world := w\<rparr>) \<and>
     (case r of None \<Rightarrow> True | Some b \<Rightarrow> mset b = M)) (sa\<lparr>world := wa\<rparr>)"
proof (induction i arbitrary: buf wa)
  case 0
  then show ?case by (auto simp: wp_simps)
next
  case (Suc i)
  have swap: "mset (buf[Suc i := buf ! j, j := buf ! Suc i]) = M"
    if "j < length buf" "Suc i < length buf" for j
    using that Suc.prems by (simp add: mset_swap)
  have nothing: "\<exists>w. sa\<lparr>world := w1\<rparr> = sa\<lparr>world := w\<rparr>" for w1 by blast
  show ?case
    using Suc.IH [OF swap] by (auto simp: wp_simps split: prod.splits)
qed

lemma wp_fill_buf:
  assumes "\<forall>i \<in> set is. 2 \<le> i" "length buf = 12" "buf ! 0 = d" "buf ! 1 = sp"
    "\<forall>k < 12. k \<notin> set is \<longrightarrow> buf ! k \<in> set all_chars"
  shows "wp (fill_buf E is buf) (\<lambda>r s'. (\<exists>w. s' = sa\<lparr>world := w\<rparr>) \<and>
     (case r of None \<Rightarrow> True
      | Some b \<Rightarrow> length b = 12 \<and> b ! 0 = d \<and> b ! 1 = sp \<and> (\<forall>k < 12. b ! k \<in> set all_chars)))
     (sa\<lparr>world := wa\<rparr>)"
  using assms
proof (induction "is" arbitrary: buf wa)
  case Nil
  then show ?case by (auto simp: wp_simps)
next
  case (Cons i "is")
  show ?case unfolding fill_buf.simps wp_bind
  proof (rule wp_pick)
    fix w
    show "wp (case None of None \<Rightarrow> State_Monad.return None | Some ch \<Rightarrow> fill_buf E is (buf[i := ch]))
      (\<lambda>r s'. (\<exists>w. s' = sa\<lparr>world := w\<rparr>) \<and>
        (case r of None \<Rightarrow> True
         | Some b \<Rightarrow> length b = 12 \<and> b ! 0 = d \<and> b ! 1 = sp \<and> (\<forall>k < 12. b ! k \<in> set all_chars)))
      (sa\<lparr>world := wa\<rparr>\<lparr>world := w\<rparr>)"
      by (auto simp: wp_simps)
  next
    fix c w assume c: "c \<in> set all_chars"
    have "2 \<le> i" using Cons.prems(1) by simp
    then have keep: "length (buf[i := c]) = 12" "buf[i := c] ! 0 = d" "buf[i := c] ! 1 = sp"
      using Cons.prems(2-4) by simp_all
    have "buf[i := c] ! k \<in> set all_chars" if "k < 12" "k \<notin> set is" for k
      using Cons.prems(2,5) c that by (cases "k = i") simp_all
    then have "\<forall>k < 12. k \<notin> set is \<longrightarrow> buf[i := c] ! k \<in> set all_chars" by blast
    with Cons.IH [of "buf[i := c]" w] keep Cons.prems(1)
    show "wp (case Some c of None \<Rightarrow> State_Monad.return None | Some ch \<Rightarrow> fill_buf E is (buf[i := ch]))
      (\<lambda>r s'. (\<exists>w. s' = sa\<lparr>world := w\<rparr>) \<and>
        (case r of None \<Rightarrow> True
         | Some b \<Rightarrow> length b = 12 \<and> b ! 0 = d \<and> b ! 1 = sp \<and> (\<forall>k < 12. b ! k \<in> set all_chars)))
      (sa\<lparr>world := wa\<rparr>\<lparr>world := w\<rparr>)"
      by simp
  qed
qed

lemma set_digits_all: "set digits \<subseteq> set all_chars" and set_specials_all: "set specials \<subseteq> set all_chars"
  by (auto simp: all_chars_def)

lemma filled_strong:
  assumes "mset pw = mset full" "length full = 12" "full ! 0 \<in> set digits" "full ! 1 \<in> set specials"
    "\<forall>k < 12. full ! k \<in> set all_chars"
  shows "strong_password pw"
proof -
  have sets: "set pw = set full" and len: "length pw = 12"
    using assms(1,2) by (blast dest: mset_eq_setD, metis mset_eq_length)
  have "full ! 0 \<in> set full" "full ! 1 \<in> set full"
    using assms(2) by simp_all
  moreover have "set full \<subseteq> set all_chars"
    using assms(2,5) by (auto simp: in_set_conv_nth)
  ultimately show ?thesis
    using assms(3,4) len sets by (auto simp: strong_password_def)
qed

text \<open>Every generated password is strong, and generating one only draws random numbers.\<close>

lemma wp_generatePassword:
  "wp (generatePassword E) (\<lambda>r s'. (\<exists>w. s' = s\<lparr>world := w\<rparr>) \<and>
     (case r of None \<Rightarrow> True | Some pw \<Rightarrow> strong_password pw)) s"
proof -
  let ?Q = "\<lambda>r s'. (\<exists>w. s' = s\<lparr>world := w\<rparr>) \<and> (case r of None \<Rightarrow> True | Some pw \<Rightarrow> strong_password pw)"
  have fin: "wp (case b of None \<Rightarrow> State_Monad.return None | Some full \<Rightarrow> shuffle_buf E (length full - 1) full) ?Q s'"
    if ex: "\<exists>w. s' = s\<lparr>world := w\<rparr>" and b: "case b of None \<Rightarrow> True | Some full \<Rightarrow> length full = 12 \<and> full ! 0 = d \<and>
        full ! 1 = sp \<and> (\<forall>k < 12. full ! k \<in> set all_chars)"
      and ds: "d \<in> set digits" "sp \<in> set specials" for b s' d sp
  proof (cases b)
    case None
    with ex show ?thesis by (auto simp: wp_simps)
  next
    case (Some full)
    obtain w where w: "s' = s\<lparr>world := w\<rparr>" using ex by blast
    have "wp (shuffle_buf E (length full - 1) full) (\<lambda>r s'. (\<exists>w. s' = s\<lparr>world := w\<rparr>) \<and>
        (case r of None \<Rightarrow> True | Some pw \<Rightarrow> mset pw = mset full)) (s\<lparr>world := w\<rparr>)"
      by (rule wp_shuffle_buf) simp
    then have "wp (shuffle_buf E (length full - 1) full) ?Q (s\<lparr>world := w\<rparr>)"
    proof (rule wp_mono)
      fix r s'' assume "(\<exists>w. s'' = s\<lparr>world := w\<rparr>) \<and> (case r of None \<Rightarrow> True | Some pw \<Rightarrow> mset pw = mset full)"
      with b ds Some show "?Q r s''"
        by (auto split: option.splits intro!: filled_strong)
    qed
    with Some w show ?thesis by simp
  qed
  have fill: "wp (fill_buf E [2..<12] ((replicate 12 (CHR 0x00))[0 := d, 1 := sp]))
      (\<lambda>b. wp (case b of None \<Rightarrow> State_Monad.return None | Some full \<Rightarrow> shuffle_buf E (length full - 1) full) ?Q)
      (s\<lparr>world := w\<rparr>)"
    if ds: "d \<in> set digits" "sp \<in> set specials" for d sp w
  proof -
    have base: "\<forall>k < 12. k \<notin> set [2..<12] \<longrightarrow> (replicate 12 (CHR 0x00))[0 := d, 1 := sp] ! k \<in> set all_chars"
    proof (intro allI impI)
      fix k :: nat assume "k < 12" "k \<notin> set [2..<12]"
      then have "k = 0 \<or> k = 1" unfolding set_upt atLeastLessThan_iff by linarith
      with ds show "(replicate 12 (CHR 0x00))[0 := d, 1 := sp] ! k \<in> set all_chars"
        using set_digits_all set_specials_all by auto
    qed
    show ?thesis
      by (rule wp_mono [OF wp_fill_buf [where sa = s and d = d and sp = sp]], use base in auto)
        (rule fin, use ds in auto)
  qed
  show ?thesis unfolding generatePassword_def Let_def wp_bind
  proof (rule wp_pick, goal_cases)
    case (1 w)
    then show ?case by (auto simp: wp_simps)
  next
    case (2 d w)
    show ?case unfolding option.case wp_bind
    proof (rule wp_pick, goal_cases)
      case (1 wa)
      then show ?case by (auto simp: wp_simps)
    next
      case (2 sp wa)
      show ?case unfolding option.case wp_bind
        using fill [OF \<open>d \<in> set digits\<close> \<open>sp \<in> set specials\<close>, of wa]
        by (simp del: fill_buf.simps)
    qed
  qed
qed

text \<open>With random sources that work, a password is always made.\<close>

lemma wp_pick_some:
  assumes "rand_ok E" "\<And>n w. fst (crypto_randInt E n w) \<noteq> None" "cs \<noteq> []"
    and "\<And>c w. c \<in> set cs \<Longrightarrow> Q (Some c) (s\<lparr>world := w\<rparr>)"
  shows "wp (pick E cs) Q s"
  by (rule wp_pick_ok [OF assms(1,3)]) (use assms(2,4) in \<open>metis fst_conv\<close>)+

lemma wp_fill_buf_some:
  assumes "rand_ok E" "\<And>n w. fst (crypto_randInt E n w) \<noteq> None"
  shows "wp (fill_buf E is buf) (\<lambda>r _. \<exists>b. r = Some b \<and> length b = length buf) s"
proof (induction "is" arbitrary: buf s)
  case Nil
  then show ?case by (simp add: wp_simps)
next
  case (Cons i "is")
  have all: "all_chars \<noteq> []" by (simp add: all_chars_def)
  show ?case
    unfolding fill_buf.simps wp_bind
    by (rule wp_pick_some [OF assms all]) (use Cons.IH [of "buf[i := c]" for c] in simp)
qed

lemma wp_shuffle_buf_some:
  assumes "rand_ok E"
  shows "i < length buf \<Longrightarrow> wp (shuffle_buf E i buf) (\<lambda>r _. \<exists>b. r = Some b) s"
proof (induction i arbitrary: buf s)
  case 0
  then show ?case by (simp add: wp_simps)
next
  case (Suc i)
  have "j < Suc (Suc i)" if "math_randInt E (Suc (Suc i)) w = (j, w')" for j w w'
    using assms that unfolding rand_ok_def by (metis case_prodD zero_less_Suc)
  then show ?case
    using Suc by (fastforce simp: wp_simps split: prod.split)
qed

lemma wp_generatePassword_succeeds:
  assumes "rand_ok E" "\<And>n w. fst (crypto_randInt E n w) \<noteq> None"
  shows "wp (generatePassword E) (\<lambda>r _. r \<noteq> None) s"
proof -
  have fill: "wp (fill_buf E is buf) (\<lambda>b. wp (case b of None \<Rightarrow> State_Monad.return None
      | Some full \<Rightarrow> shuffle_buf E (length full - 1) full) (\<lambda>r _. r \<noteq> None)) t"
    if ne: "buf \<noteq> []" for "is" buf t
  proof (rule wp_mono [OF wp_fill_buf_some [OF assms]])
    fix r :: "string option" and u
    assume "\<exists>b. r = Some b \<and> length b = length buf"
    then obtain b where b: "r = Some b" "length b - 1 < length b" using ne by (cases buf) auto
    then show "wp (case r of None \<Rightarrow> State_Monad.return None | Some full \<Rightarrow> shuffle_buf E (length full - 1) full)
        (\<lambda>r _. r \<noteq> None) u"
      using wp_shuffle_buf_some [OF assms(1) b(2)] by simp
  qed
  have ne: "digits \<noteq> []" "specials \<noteq> []" by (simp_all add: digits_def specials_def)
  show ?thesis
    unfolding generatePassword_def Let_def wp_bind
    by (rule wp_pick_some [OF assms ne(1)], unfold option.case wp_bind,
        rule wp_pick_some [OF assms ne(2)], unfold option.case wp_bind, rule fill) simp
qed

end
