(* ===== verification/InstanceSpec.thy ===== *)
theory InstanceSpec
  imports Credential
begin

text \<open>
  How the instance controller fills the specification of a DB instance
  (\<open>setDBInstanceSpec\<close>, \<open>setCredentials\<close>, \<open>createSecretLabels\<close> in
  \<open>controllers/rdsinstance_controller.go\<close>): the user's parameters, the master credentials and
  the defaults that depend on the engine.
\<close>

section \<open>Parameters\<close>

definition requiredParameterError :: "string \<Rightarrow> error" where
  "requiredParameterError p = PlainError (''required parameter '' @ p @ '' is missing'')"

definition invalidParameterError :: "string \<Rightarrow> error" where
  "invalidParameterError p = PlainError (''value of parameter '' @ p @ '' is invalid'')"

abbreviation engine_key :: string where "engine_key \<equiv> ''Engine''"
abbreviation engineVersion_key :: string where "engineVersion_key \<equiv> ''EngineVersion''"
abbreviation dbInstanceIdentifier_key :: string where "dbInstanceIdentifier_key \<equiv> ''DBInstanceIdentifier''"
abbreviation dbInstanceClass_key :: string where "dbInstanceClass_key \<equiv> ''DBInstanceClass''"
abbreviation storageType_key :: string where "storageType_key \<equiv> ''StorageType''"
abbreviation allocatedStorage_key :: string where "allocatedStorage_key \<equiv> ''AllocatedStorage''"
abbreviation iops_key :: string where "iops_key \<equiv> ''IOPS''"
abbreviation maxAllocatedStorage_key :: string where "maxAllocatedStorage_key \<equiv> ''MaxAllocatedStorage''"
abbreviation dbSubnetGroupName_key :: string where "dbSubnetGroupName_key \<equiv> ''DBSubnetGroupName''"
abbreviation publiclyAccessible_key :: string where "publiclyAccessible_key \<equiv> ''PubliclyAccessible''"
abbreviation vpcSecurityGroupIDs_key :: string where "vpcSecurityGroupIDs_key \<equiv> ''VPCSecurityGroupIDs''"
abbreviation licenseModel_key :: string where "licenseModel_key \<equiv> ''LicenseModel''"

type_synonym spec_step = "smap \<Rightarrow> db_instance_spec \<Rightarrow> error + db_instance_spec"

text \<open>The four shapes of the parameter blocks of \<open>setDBInstanceSpec\<close>.\<close>

definition required_string :: "string \<Rightarrow> (string \<Rightarrow> db_instance_spec \<Rightarrow> db_instance_spec) \<Rightarrow> spec_step" where
  "required_string k upd p sp =
     (case p k of Some v \<Rightarrow> Inr (upd v sp) | None \<Rightarrow> Inl (requiredParameterError k))"

definition optional_string :: "string \<Rightarrow> (string \<Rightarrow> db_instance_spec \<Rightarrow> db_instance_spec) \<Rightarrow> spec_step" where
  "optional_string k upd p sp = (case p k of Some v \<Rightarrow> Inr (upd v sp) | None \<Rightarrow> Inr sp)"

definition required_int :: "string \<Rightarrow> (int64 \<Rightarrow> db_instance_spec \<Rightarrow> db_instance_spec) \<Rightarrow> spec_step" where
  "required_int k upd p sp =
     (case p k of
        Some v \<Rightarrow> (case ParseInt v of None \<Rightarrow> Inl (invalidParameterError k) | Some i \<Rightarrow> Inr (upd i sp))
      | None \<Rightarrow> Inl (requiredParameterError k))"

definition optional_int :: "string \<Rightarrow> (int64 \<Rightarrow> db_instance_spec \<Rightarrow> db_instance_spec) \<Rightarrow> spec_step" where
  "optional_int k upd p sp =
     (case p k of
        Some v \<Rightarrow> (case ParseInt v of None \<Rightarrow> Inl (invalidParameterError k) | Some i \<Rightarrow> Inr (upd i sp))
      | None \<Rightarrow> Inr sp)"

definition optional_bool :: "string \<Rightarrow> (bool \<Rightarrow> db_instance_spec \<Rightarrow> db_instance_spec) \<Rightarrow> spec_step" where
  "optional_bool k upd p sp =
     (case p k of
        Some v \<Rightarrow> (case ParseBool v of None \<Rightarrow> Inl (invalidParameterError k) | Some b \<Rightarrow> Inr (upd b sp))
      | None \<Rightarrow> Inr sp)"

definition security_groups :: "string \<Rightarrow> string option list" where
  "security_groups v = map Some (Split (CHR '','') v)"

text \<open>The blocks, in the order of the code; the first error ends the function.\<close>

definition param_steps :: "spec_step list" where
  "param_steps =
     [required_string engine_key (\<lambda>v sp. sp\<lparr>sp_engine := Some v\<rparr>),
      optional_string engineVersion_key (\<lambda>v sp. sp\<lparr>sp_engineVersion := Some v\<rparr>),
      required_string dbInstanceIdentifier_key (\<lambda>v sp. sp\<lparr>sp_dbInstanceIdentifier := Some v\<rparr>),
      required_string dbInstanceClass_key (\<lambda>v sp. sp\<lparr>sp_dbInstanceClass := Some v\<rparr>),
      optional_string storageType_key (\<lambda>v sp. sp\<lparr>sp_storageType := Some v\<rparr>),
      required_int allocatedStorage_key (\<lambda>v sp. sp\<lparr>sp_allocatedStorage := Some v\<rparr>),
      optional_int iops_key (\<lambda>v sp. sp\<lparr>sp_iops := Some v\<rparr>),
      optional_int maxAllocatedStorage_key (\<lambda>v sp. sp\<lparr>sp_maxAllocatedStorage := Some v\<rparr>),
      optional_string dbSubnetGroupName_key (\<lambda>v sp. sp\<lparr>sp_dbSubnetGroupName := Some v\<rparr>),
      optional_bool publiclyAccessible_key (\<lambda>v sp. sp\<lparr>sp_publiclyAccessible := Some v\<rparr>),
      optional_string vpcSecurityGroupIDs_key
        (\<lambda>v sp. sp\<lparr>sp_vpcSecurityGroupIDs := security_groups v\<rparr>),
      optional_string licenseModel_key (\<lambda>v sp. sp\<lparr>sp_licenseModel := Some v\<rparr>)]"

fun run_steps :: "spec_step list \<Rightarrow> spec_step" where
  "run_steps [] p sp = Inr sp"
| "run_steps (f # fs) p sp = (case f p sp of Inl e \<Rightarrow> Inl e | Inr sp' \<Rightarrow> run_steps fs p sp')"

section \<open>Credentials\<close>

definition credentials_name :: "string \<Rightarrow> string" where
  "credentials_name n = n @ ''-credentials''"

definition createSecretLabels :: "'n lib_scheme \<Rightarrow> kobject option \<Rightarrow> string \<Rightarrow> smap" where
  "createSecretLabels L owner kind =
     (case owner of
        Some ow \<Rightarrow>
          [''managed-by'' \<mapsto> ''rds-dbaas-operator'',
           ''owner'' \<mapsto> om_name (kobject_meta ow),
           ''owner.kind'' \<mapsto> kind,
           ''owner.namespace'' \<mapsto> om_namespace (kobject_meta ow),
           TypeLabelKey L \<mapsto> TypeLabelValue L]
      | None \<Rightarrow> [TypeLabelKey L \<mapsto> TypeLabelValue L])"

text \<open>The branch of \<open>setCredentials\<close> for a secret that does not exist yet.\<close>

definition create_credentials ::
  "('w, 'n) env_scheme \<Rightarrow> string \<Rightarrow> string \<Rightarrow> kobject option \<Rightarrow> string \<Rightarrow>
   (('w, event, 'm) gst_scheme, secret outcome) state" where
  "create_credentials E secretName namespace owner kind = do {
     let m = empty_meta\<lparr>om_name := secretName, om_namespace := namespace,
               om_labels := createSecretLabels E owner kind\<rparr>;
     (case (case owner of None \<Rightarrow> Inr m | Some ow \<Rightarrow> SetControllerReference E ow m) of
        Inl e \<Rightarrow> State_Monad.return (Err e)
      | Inr m' \<Rightarrow> do {
          p \<leftarrow> generatePassword E;
          (case p of
             None \<Rightarrow> State_Monad.return Panics
           | Some pw \<Rightarrow> do {
               let sec = \<lparr>sec_meta = m', sec_data = Some [''password'' \<mapsto> pw]\<rparr>;
               r \<leftarrow> api_call (api_createSecret E sec) (EvCreateSecret sec);
               State_Monad.return (case r of Inl e \<Rightarrow> Err e | Inr sec' \<Rightarrow> Ret sec') }) })
   }"

text \<open>The check after it: a secret without a password gets one.\<close>

definition ensure_password ::
  "('w, 'n) env_scheme \<Rightarrow> secret \<Rightarrow> (('w, event, 'm) gst_scheme, secret outcome) state" where
  "ensure_password E sec = do {
     let data = (case sec_data sec of None \<Rightarrow> Map.empty | Some m \<Rightarrow> m);
     (case data ''password'' of
        Some _ \<Rightarrow> State_Monad.return (Ret (sec\<lparr>sec_data := Some data\<rparr>))
      | None \<Rightarrow> do {
          p \<leftarrow> generatePassword E;
          (case p of
             None \<Rightarrow> State_Monad.return Panics
           | Some pw \<Rightarrow> do {
               let sec1 = sec\<lparr>sec_data := Some (data(''password'' \<mapsto> pw))\<rparr>;
               r \<leftarrow> api_call (api_updateSecret E sec1) (EvUpdateSecret sec1);
               State_Monad.return (case r of Inl e \<Rightarrow> Err e | Inr sec' \<Rightarrow> Ret sec') }) })
   }"

definition setCredentials ::
  "('w, 'n) env_scheme \<Rightarrow> db_instance \<Rightarrow> string \<Rightarrow> kobject option \<Rightarrow> string \<Rightarrow>
   (('w, event, 'm) gst_scheme, (secret \<times> db_instance) outcome) state" where
  "setCredentials E db namespace owner kind = do {
     let secretName = credentials_name (om_name (db_meta db));
     let k = \<lparr>k_namespace = namespace, k_name = secretName\<rparr>;
     r \<leftarrow> api_call (api_getSecret E k) (EvGetSecret k);
     r1 \<leftarrow> (case r of
        Inr sec \<Rightarrow> State_Monad.return (Ret sec)
      | Inl e \<Rightarrow> if IsNotFound e then create_credentials E secretName namespace owner kind
                 else State_Monad.return (Err e));
     (case r1 of
        Err e \<Rightarrow> State_Monad.return (Err e)
      | Panics \<Rightarrow> State_Monad.return Panics
      | Ret sec1 \<Rightarrow> do {
          r2 \<leftarrow> ensure_password E sec1;
          (case r2 of
             Err e \<Rightarrow> State_Monad.return (Err e)
           | Panics \<Rightarrow> State_Monad.return Panics
           | Ret sec2 \<Rightarrow>
               let ref = \<lparr>skr_name = secretName, skr_namespace = namespace, skr_key = ''password''\<rparr>;
                   sp = db_spec db
               in (case (sp_masterUsername sp, sp_engine sp) of
                     (Some _, _) \<Rightarrow>
                       State_Monad.return (Ret (sec2, db\<lparr>db_spec := sp\<lparr>sp_masterUserPassword := Some ref\<rparr>\<rparr>))
                   | (None, None) \<Rightarrow> State_Monad.return Panics
                   | (None, Some eng) \<Rightarrow>
                       State_Monad.return (Ret (sec2,
                         db\<lparr>db_spec := sp\<lparr>sp_masterUsername := Some (generateUsername eng),
                                         sp_masterUserPassword := Some ref\<rparr>\<rparr>)))) })
   }"

section \<open>The specification\<close>

definition setDBInstanceSpec ::
  "('w, 'n) env_scheme \<Rightarrow> db_instance \<Rightarrow> rds_instance \<Rightarrow>
   (('w, event, 'm) gst_scheme, db_instance outcome) state" where
  "setDBInstanceSpec E db ri =
     (case run_steps param_steps (ri_otherInstanceParams ri) (db_spec db) of
        Inl e \<Rightarrow> State_Monad.return (Err e)
      | Inr sp \<Rightarrow> do {
          c \<leftarrow> setCredentials E (db\<lparr>db_spec := sp\<rparr>) (om_namespace (ri_meta ri))
                 (Some (OwnerInstance ri)) (ri_kind ri);
          State_Monad.return (case c of
              Err _ \<Rightarrow> Err (PlainError ''failed to set credentials for DB instance'')
            | Panics \<Rightarrow> Panics
            | Ret (_, db1) \<Rightarrow>
                (case sp_engine (db_spec db1) of
                   None \<Rightarrow> Panics
                 | Some eng \<Rightarrow>
                     Ret (db1\<lparr>db_spec := (db_spec db1)\<lparr>
                       sp_dbName := generateDBName eng,
                       sp_availabilityZone := Some (ri_cloudRegion ri)\<rparr>\<rparr>))) })"

end
