(* ===== verification/InstanceStatus.thy ===== *)
theory InstanceStatus
  imports KubeClient
begin

text \<open>
  How the status of a DB instance is summarised for the user
  (\<open>controllers/rdsinstance_controller.go\<close>): \<open>setDBInstancePhase\<close> maps the AWS status to a
  phase, \<open>parseDBInstanceStatus\<close> flattens the status into a map of strings, and
  \<open>setDBInstanceStatus\<close> stores that map.
\<close>

section \<open>Phases\<close>

abbreviation instancePhasePending :: string where "instancePhasePending \<equiv> ''Pending''"
abbreviation instancePhaseCreating :: string where "instancePhaseCreating \<equiv> ''Creating''"
abbreviation instancePhaseUpdating :: string where "instancePhaseUpdating \<equiv> ''Updating''"
abbreviation instancePhaseDeleting :: string where "instancePhaseDeleting \<equiv> ''Deleting''"
abbreviation instancePhaseDeleted :: string where "instancePhaseDeleted \<equiv> ''Deleted''"
abbreviation instancePhaseReady :: string where "instancePhaseReady \<equiv> ''Ready''"
abbreviation instancePhaseError :: string where "instancePhaseError \<equiv> ''Error''"
abbreviation instancePhaseFailed :: string where "instancePhaseFailed \<equiv> ''Failed''"
abbreviation instancePhaseUnknown :: string where "instancePhaseUnknown \<equiv> ''Unknown''"

definition error_statuses :: "string list" where
  "error_statuses =
     [''inaccessible-encryption-credentials-recoverable'', ''incompatible-parameters'', ''restore-error'']"

definition updating_statuses :: "string list" where
  "updating_statuses =
     [''backing-up'', ''configuring-enhanced-monitoring'', ''configuring-iam-database-auth'',
      ''configuring-log-exports'', ''converting-to-vpc'', ''maintenance'', ''modifying'',
      ''moving-to-vpc'', ''rebooting'', ''resetting-master-credentials'', ''renaming'',
      ''starting'', ''stopping'', ''storage-optimization'', ''upgrading'']"

definition unknown_statuses :: "string list" where
  "unknown_statuses =
     [''inaccessible-encryption-credentials'', ''incompatible-network'',
      ''incompatible-option-group'', ''incompatible-restore'', ''insufficient-capacity'',
      ''stopped'', ''storage-full'']"

definition setDBInstancePhase :: "db_instance \<Rightarrow> rds_instance \<Rightarrow> rds_instance" where
  "setDBInstancePhase db ri =
     (let status = (case st_dbInstanceStatus (db_status db) of Some s \<Rightarrow> s | None \<Rightarrow> [])
      in ri\<lparr>ri_phase :=
           (if status = ''available'' then instancePhaseReady
            else if status = ''creating'' then instancePhaseCreating
            else if status = ''deleting'' then instancePhaseDeleting
            else if status = ''failed'' then instancePhaseFailed
            else if status \<in> set error_statuses then instancePhaseError
            else if status \<in> set updating_statuses then instancePhaseUpdating
            else if status \<in> set unknown_statuses then instancePhaseUnknown
            else instancePhaseUnknown)\<rparr>)"

section \<open>Flattening the status\<close>

text \<open>
  The code is a long sequence of blocks \<open>if x != nil { m[key] = *x }\<close>. A block is a pair of its
  key and its optional value; a section of the code is a list of such pairs, in order, and
  the result is the map after all the assignments.
\<close>

type_synonym assigns = "(string \<times> string option) list"

fun assign :: "smap \<Rightarrow> string \<times> string option \<Rightarrow> smap" where
  "assign m (k, None) = m"
| "assign m (k, Some v) = m(k \<mapsto> v)"

definition int_opt :: "int64 option \<Rightarrow> string option" where
  "int_opt = map_option FormatInt"

definition bool_opt :: "bool option \<Rightarrow> string option" where
  "bool_opt = map_option FormatBool"

definition time_opt :: "'n lib_scheme \<Rightarrow> gotime option \<Rightarrow> string option" where
  "time_opt L = map_option (timeString L)"

text \<open>The key \<open>group[i]\<close>, with a suffix for a field.\<close>

definition idx :: "string \<Rightarrow> nat \<Rightarrow> string \<Rightarrow> string" where
  "idx g i suf = g @ ''['' @ show_nat i @ '']'' @ suf"

text \<open>\<open>for i, r := range xs { ... }\<close>\<close>

fun each_from :: "nat \<Rightarrow> (nat \<Rightarrow> 'a \<Rightarrow> assigns) \<Rightarrow> 'a list \<Rightarrow> assigns" where
  "each_from i f [] = []"
| "each_from i f (x # xs) = f i x @ each_from (Suc i) f xs"

definition each :: "(nat \<Rightarrow> 'a \<Rightarrow> assigns) \<Rightarrow> 'a list \<Rightarrow> assigns" where
  "each f xs = each_from 0 f xs"

definition ack_assigns :: "db_instance_status \<Rightarrow> assigns" where
  "ack_assigns st =
     (case st_ackResourceMetadata st of None \<Rightarrow> []
      | Some a \<Rightarrow>
          [(''ackResourceMetadata.arn'', ar_arn a),
           (''ackResourceMetadata.ownerAccountID'', ar_ownerAccountID a),
           (''ackResourceMetadata.region'', ar_region a)])"

definition activity_assigns :: "db_instance_status \<Rightarrow> assigns" where
  "activity_assigns st =
     [(''activityStreamEngineNativeAuditFieldsIncluded'',
         bool_opt (st_activityStreamEngineNativeAuditFieldsIncluded st)),
      (''activityStreamKinesisStreamName'', st_activityStreamKinesisStreamName st),
      (''activityStreamKMSKeyID'', st_activityStreamKMSKeyID st),
      (''activityStreamMode'', st_activityStreamMode st),
      (''activityStreamStatus'', st_activityStreamStatus st)]"

definition role_assigns :: "db_instance_status \<Rightarrow> assigns" where
  "role_assigns st =
     each (\<lambda>i r. [(idx ''associatedRoles'' i ''.featureName'', dr_featureName r),
                  (idx ''associatedRoles'' i ''.roleARN'', dr_roleARN r),
                  (idx ''associatedRoles'' i ''.status'', dr_status r)])
       (st_associatedRoles st)"

definition automation_assigns :: "'n lib_scheme \<Rightarrow> db_instance_status \<Rightarrow> assigns" where
  "automation_assigns L st =
     [(''automaticRestartTime'', time_opt L (st_automaticRestartTime st)),
      (''automationMode'', st_automationMode st),
      (''awsBackupRecoveryPointARN'', st_awsBackupRecoveryPointARN st),
      (''caCertificateIdentifier'', st_caCertificateIdentifier st),
      (''customerOwnedIPEnabled'', bool_opt (st_customerOwnedIPEnabled st))]"

definition backup_assigns :: "db_instance_status \<Rightarrow> assigns" where
  "backup_assigns st =
     each (\<lambda>i r. [(idx ''dbInstanceAutomatedBackupsReplications'' i ''.dbInstanceAutomatedBackupsARN'', r)])
       (st_automatedBackupsReplications st)"

definition group_assigns :: "db_instance_status \<Rightarrow> assigns" where
  "group_assigns st =
     (''dbInstanceStatus'', st_dbInstanceStatus st) #
     each (\<lambda>i g. [(idx ''dbParameterGroups'' i ''.dbParameterGroupName'', pg_dbParameterGroupName g),
                  (idx ''dbParameterGroups'' i ''.parameterApplyStatus'', pg_parameterApplyStatus g)])
       (st_dbParameterGroups st)"

definition subnet_assigns :: "db_instance_status \<Rightarrow> assigns" where
  "subnet_assigns st =
     (case st_dbSubnetGroup st of None \<Rightarrow> []
      | Some g \<Rightarrow>
          [(''dbSubnetGroup.dbSubnetGroupARN'', sg_arn g),
           (''dbSubnetGroup.dbSubnetGroupDescription'', sg_description g),
           (''dbSubnetGroup.dbSubnetGroupName'', sg_name g),
           (''dbSubnetGroup.subnetGroupStatus'', sg_status g)] @
          each (\<lambda>i s. [(idx ''dbSubnetGroup.subnets'' i ''.subnetAvailabilityZone.name'',
                          Option.bind (sn_availabilityZone s) (\<lambda>n. n)),
                       (idx ''dbSubnetGroup.subnets'' i ''.subnetIdentifier'', sn_subnetIdentifier s),
                       (idx ''dbSubnetGroup.subnets'' i ''.subnetOutpost.arn'',
                          Option.bind (sn_subnetOutpost s) (\<lambda>n. n)),
                       (idx ''dbSubnetGroup.subnets'' i ''.subnetStatus'', sn_subnetStatus s)])
            (sg_subnets g) @
          [(''dbSubnetGroup.vpcID'', sg_vpcID g)])"

definition domain_assigns :: "db_instance_status \<Rightarrow> assigns" where
  "domain_assigns st =
     [(''dbInstancePort'', int_opt (st_dbInstancePort st)),
      (''dbiResourceID'', st_dbiResourceID st)] @
     each (\<lambda>i m. [(idx ''domainMemberships'' i ''.domain'', dm_domain m),
                  (idx ''domainMemberships'' i ''.fQDN'', dm_fqdn m),
                  (idx ''domainMemberships'' i ''.iamRoleName'', dm_iamRoleName m),
                  (idx ''domainMemberships'' i ''.status'', dm_status m)])
       (st_domainMemberships st) @
     each (\<lambda>i e. [(idx ''enabledCloudwatchLogsExports'' i [], e)]) (st_enabledCloudwatchLogsExports st)"

definition endpoint_assigns :: "'n lib_scheme \<Rightarrow> db_instance_status \<Rightarrow> assigns" where
  "endpoint_assigns L st =
     (case st_endpoint st of None \<Rightarrow> []
      | Some e \<Rightarrow> [(''endpoint.address'', ep_address e),
                  (''endpoint.hostedZoneID'', ep_hostedZoneID e),
                  (''endpoint.port'', int_opt (ep_port e))]) @
     [(''enhancedMonitoringResourceARN'', st_enhancedMonitoringResourceARN st),
      (''iamDatabaseAuthenticationEnabled'', bool_opt (st_iamDatabaseAuthenticationEnabled st)),
      (''instanceCreateTime'', time_opt L (st_instanceCreateTime st)),
      (''latestRestorableTime'', time_opt L (st_latestRestorableTime st))] @
     (case st_listenerEndpoint st of None \<Rightarrow> []
      | Some e \<Rightarrow> [(''listenerEndpoint.address'', ep_address e),
                  (''listenerEndpoint.hostedZoneID'', ep_hostedZoneID e),
                  (''listenerEndpoint.port'', int_opt (ep_port e))]) @
     each (\<lambda>i m. [(idx ''optionGroupMemberships'' i ''.optionGroupName'', og_name m),
                  (idx ''optionGroupMemberships'' i ''.status'', og_status m)])
       (st_optionGroupMemberships st)"

definition pending_assigns :: "'n lib_scheme \<Rightarrow> db_instance_status \<Rightarrow> assigns" where
  "pending_assigns L st =
     (case st_pendingModifiedValues st of None \<Rightarrow> []
      | Some p \<Rightarrow>
          [(''pendingModifiedValues.allocatedStorage'', int_opt (pm_allocatedStorage p)),
           (''pendingModifiedValues.automationMode'', pm_automationMode p),
           (''pendingModifiedValues.backupRetentionPeriod'', int_opt (pm_backupRetentionPeriod p)),
           (''pendingModifiedValues.caCertificateIdentifier'', pm_caCertificateIdentifier p),
           (''pendingModifiedValues.dbInstanceClass'', pm_dbInstanceClass p),
           (''pendingModifiedValues.dbInstanceIdentifier'', pm_dbInstanceIdentifier p),
           (''pendingModifiedValues.dbSubnetGroupName'', pm_dbSubnetGroupName p),
           (''pendingModifiedValues.engineVersion'', pm_engineVersion p),
           (''pendingModifiedValues.iamDatabaseAuthenticationEnabled'',
              bool_opt (pm_iamDatabaseAuthenticationEnabled p)),
           (''pendingModifiedValues.iops'', int_opt (pm_iops p)),
           (''pendingModifiedValues.licenseModel'', pm_licenseModel p),
           (''pendingModifiedValues.masterUserPassword'', pm_masterUserPassword p),
           (''pendingModifiedValues.multiAZ'', bool_opt (pm_multiAZ p))] @
          (case pm_pendingCloudwatchLogsExports p of None \<Rightarrow> []
           | Some l \<Rightarrow>
               each (\<lambda>i d. [(idx ''pendingModifiedValues.pendingCloudwatchLogsExports.logTypesToDisable'' i [], d)])
                 (pl_logTypesToDisable l) @
               each (\<lambda>i e. [(idx ''pendingModifiedValues.pendingCloudwatchLogsExports.logTypesToEnable'' i [], e)])
                 (pl_logTypesToEnable l)) @
          [(''pendingModifiedValues.port'', int_opt (pm_port p))] @
          each (\<lambda>i f. [(idx ''pendingModifiedValues.ProcessorFeature'' i ''.name'', pf_name f),
                       (idx ''pendingModifiedValues.ProcessorFeature'' i ''.value'', pf_value f)])
            (pm_processorFeatures p) @
          [(''pendingModifiedValues.resumeFullAutomationModeTime'',
              time_opt L (pm_resumeFullAutomationModeTime p)),
           (''pendingModifiedValues.storageType'', pm_storageType p)])"

definition replica_assigns :: "'n lib_scheme \<Rightarrow> db_instance_status \<Rightarrow> assigns" where
  "replica_assigns L st =
     (''performanceInsightsEnabled'', bool_opt (st_performanceInsightsEnabled st)) #
     each (\<lambda>i r. [(idx ''readReplicaDBClusterIdentifiers'' i [], r)]) (st_readReplicaDBClusterIdentifiers st) @
     each (\<lambda>i r. [(idx ''readReplicaDBInstanceIdentifiers'' i [], r)]) (st_readReplicaDBInstanceIdentifiers st) @
     [(''readReplicaSourceDBInstanceIdentifier'', st_readReplicaSourceDBInstanceIdentifier st),
      (''replicaMode'', st_replicaMode st),
      (''resumeFullAutomationModeTime'', time_opt L (st_resumeFullAutomationModeTime st)),
      (''secondaryAvailabilityZone'', st_secondaryAvailabilityZone st)]"

definition info_assigns :: "db_instance_status \<Rightarrow> assigns" where
  "info_assigns st =
     each (\<lambda>i f. [(idx ''statusInfos'' i ''.message'', si_message f),
                  (idx ''statusInfos'' i ''.normal'', bool_opt (si_normal f)),
                  (idx ''statusInfos'' i ''.status'', si_status f),
                  (idx ''statusInfos'' i ''.statusType'', si_statusType f)])
       (st_statusInfos st) @
     each (\<lambda>i t. [(idx ''tagList'' i ''.key'', tag_key t), (idx ''tagList'' i ''.value'', tag_value t)])
       (st_tagList st) @
     each (\<lambda>i g. [(idx ''vpcSecurityGroups'' i ''.status'', vg_status g),
                  (idx ''vpcSecurityGroups'' i ''.vpcSecurityGroupID'', vg_id g)])
       (st_vpcSecurityGroups st)"

definition status_assigns :: "'n lib_scheme \<Rightarrow> db_instance_status \<Rightarrow> assigns" where
  "status_assigns L st =
     ack_assigns st @ activity_assigns st @ role_assigns st @ automation_assigns L st @
     backup_assigns st @ group_assigns st @ subnet_assigns st @ domain_assigns st @
     endpoint_assigns L st @ pending_assigns L st @ replica_assigns L st @ info_assigns st"

definition parseDBInstanceStatus :: "'n lib_scheme \<Rightarrow> db_instance \<Rightarrow> smap" where
  "parseDBInstanceStatus L db = foldl assign Map.empty (status_assigns L (db_status db))"

definition setDBInstanceStatus :: "'n lib_scheme \<Rightarrow> db_instance \<Rightarrow> rds_instance \<Rightarrow> rds_instance" where
  "setDBInstanceStatus L db ri = ri\<lparr>ri_instanceInfo := parseDBInstanceStatus L db\<rparr>"

section \<open>No two assignments share a key\<close>

text \<open>
  The root of a key is what stands before its first bracket. Every section uses its own roots,
  and inside an indexed group the index and the field determine the key.
\<close>

definition root :: "string \<Rightarrow> string" where
  "root k = takeWhile (\<lambda>c. c \<noteq> CHR ''['') k"

lemma root_idx: "CHR ''['' \<notin> set g \<Longrightarrow> root (idx g i suf) = g"
  by (induction g) (auto simp: root_def idx_def)

lemma bracket_split:
  assumes "a @ CHR '']'' # x = b @ CHR '']'' # y" "CHR '']'' \<notin> set a" "CHR '']'' \<notin> set b"
  shows "a = b \<and> x = y"
  using assms
proof (induction a arbitrary: b)
  case Nil
  then show ?case by (cases b) auto
next
  case (Cons c a)
  then show ?case by (cases b) auto
qed

lemma idx_inject: "idx g i s = idx g j t \<longleftrightarrow> i = j \<and> s = t"
proof
  assume "idx g i s = idx g j t"
  then have "show_nat i @ CHR '']'' # s = show_nat j @ CHR '']'' # t"
    by (simp add: idx_def)
  from bracket_split [OF this show_nat_no_bracket show_nat_no_bracket]
  show "i = j \<and> s = t" by simp
qed simp

lemma each_from_keys:
  "(k, v) \<in> set (each_from n f xs) \<Longrightarrow> \<exists>i < length xs. (k, v) \<in> set (f (n + i) (xs ! i))"
proof (induction xs arbitrary: n)
  case (Cons x xs)
  then consider "(k, v) \<in> set (f n x)" | "(k, v) \<in> set (each_from (Suc n) f xs)" by auto
  then show ?case
  proof cases
    case 1
    then show ?thesis by (intro exI [of _ 0]) simp
  next
    case 2
    then obtain i where "i < length xs" "(k, v) \<in> set (f (Suc n + i) (xs ! i))"
      using Cons.IH by blast
    then show ?thesis by (intro exI [of _ "Suc i"]) simp
  qed
qed simp

text \<open>A group of fields of one indexed list: fixed suffixes, pairwise different.\<close>

definition fields :: "string \<Rightarrow> string list \<Rightarrow> (nat \<Rightarrow> 'a \<Rightarrow> assigns) \<Rightarrow> bool" where
  "fields g sufs f \<longleftrightarrow> distinct sufs \<and> (\<forall>i x. map fst (f i x) = map (idx g i) sufs)"

lemma each_from_roots:
  assumes "fields g sufs f" "CHR ''['' \<notin> set g" "k \<in> fst ` set (each_from n f xs)"
  shows "root k = g \<and> (\<exists>i \<ge> n. \<exists>suf. k = idx g i suf)"
proof -
  from assms(3) obtain v i where "(k, v) \<in> set (f (n + i) (xs ! i))"
    using each_from_keys by fastforce
  then have "k \<in> set (map fst (f (n + i) (xs ! i)))" by force
  moreover have "map fst (f (n + i) (xs ! i)) = map (idx g (n + i)) sufs"
    using assms(1) unfolding fields_def by blast
  ultimately obtain suf where "k = idx g (n + i) suf"
    by (metis imageE list.set_map)
  then show ?thesis using root_idx [OF assms(2)] by (metis le_add1)
qed

lemma each_from_distinct:
  assumes "fields g sufs f" "CHR ''['' \<notin> set g"
  shows "distinct (map fst (each_from n f xs))"
proof (induction xs arbitrary: n)
  case (Cons x xs)
  have here: "map fst (f n x) = map (idx g n) sufs" and "distinct sufs"
    using assms(1) by (auto simp: fields_def)
  then have "distinct (map fst (f n x))"
    by (simp add: distinct_map inj_on_def idx_inject)
  moreover have new: "k \<notin> fst ` set (each_from (Suc n) f xs)" if k: "k \<in> set (map fst (f n x))" for k
  proof
    assume "k \<in> fst ` set (each_from (Suc n) f xs)"
    then obtain i suf where "Suc n \<le> i" "k = idx g i suf"
      using each_from_roots [OF assms] by blast
    moreover obtain suf' where "k = idx g n suf'"
      using k unfolding here by (metis imageE list.set_map)
    ultimately show False by (simp add: idx_inject)
  qed
  then have "set (map fst (f n x)) \<inter> set (map fst (each_from (Suc n) f xs)) = {}"
    by (simp only: disjoint_iff list.set_map) blast
  ultimately show ?case
    using Cons.IH by (simp only: each_from.simps map_append distinct_append)
qed simp

text \<open>
  \<open>keyed r as\<close>: the roots of the keys of \<open>as\<close> are among \<open>r\<close>, and no key is assigned twice as
  long as the roots in \<open>r\<close> are different.
\<close>

definition keyed :: "string list \<Rightarrow> assigns \<Rightarrow> bool" where
  "keyed r as \<longleftrightarrow> root ` fst ` set as \<subseteq> set r \<and> (distinct r \<longrightarrow> distinct (map fst as))"

lemma keyed_Nil: "keyed r []"
  by (simp add: keyed_def)

lemma keyed_append: "keyed r as \<Longrightarrow> keyed q bs \<Longrightarrow> keyed (r @ q) (as @ bs)"
  unfolding keyed_def by (auto simp: image_subset_iff) (metis disjoint_iff fst_conv)

lemma keyed_single: "CHR ''['' \<notin> set k \<Longrightarrow> keyed [k] [(k, v)]"
proof -
  assume "CHR ''['' \<notin> set k"
  then have "root k = k" unfolding root_def by (induction k) auto
  then show ?thesis by (simp add: keyed_def)
qed

lemma keyed_Cons: "CHR ''['' \<notin> set k \<Longrightarrow> keyed r as \<Longrightarrow> keyed (k # r) ((k, v) # as)"
  using keyed_append [OF keyed_single] by fastforce

lemma keyed_each: "fields g sufs f \<Longrightarrow> CHR ''['' \<notin> set g \<Longrightarrow> keyed [g] (each f xs)"
  using each_from_roots each_from_distinct by (fastforce simp: keyed_def each_def)

lemma keyed_option: "(\<And>y. keyed r (f y)) \<Longrightarrow> keyed r (case x of None \<Rightarrow> [] | Some y \<Rightarrow> f y)"
  by (cases x) (simp_all add: keyed_Nil)

lemma fields_1: "fields g [a] (\<lambda>i x. [(idx g i a, v i x)])"
  and fields_2: "a \<noteq> b \<Longrightarrow> fields g [a, b] (\<lambda>i x. [(idx g i a, v i x), (idx g i b, w i x)])"
  and fields_3: "distinct [a, b, c] \<Longrightarrow>
    fields g [a, b, c] (\<lambda>i x. [(idx g i a, v i x), (idx g i b, w i x), (idx g i c, y i x)])"
  and fields_4: "distinct [a, b, c, d] \<Longrightarrow>
    fields g [a, b, c, d] (\<lambda>i x. [(idx g i a, v i x), (idx g i b, w i x), (idx g i c, y i x), (idx g i d, z i x)])"
  by (simp_all add: fields_def)

lemmas keyed_each_intros =
  keyed_each [OF fields_1] keyed_each [OF fields_2] keyed_each [OF fields_3] keyed_each [OF fields_4]

lemmas keyed_intros = keyed_append keyed_Cons keyed_each_intros keyed_option keyed_Nil

definition ack_roots :: "string list" where
  "ack_roots =
     [''ackResourceMetadata.arn'', ''ackResourceMetadata.ownerAccountID'',
       ''ackResourceMetadata.region'']"

lemma keyed_ack: "keyed ack_roots (ack_assigns st)"
  unfolding ack_roots_def ack_assigns_def
  by (intro keyed_intros) simp_all

definition activity_roots :: "string list" where
  "activity_roots =
     [''activityStreamEngineNativeAuditFieldsIncluded'', ''activityStreamKinesisStreamName'',
       ''activityStreamKMSKeyID'', ''activityStreamMode'', ''activityStreamStatus'']"

lemma keyed_activity: "keyed activity_roots (activity_assigns st)"
  unfolding activity_roots_def activity_assigns_def
  by (intro keyed_intros) simp_all

definition role_roots :: "string list" where
  "role_roots =
     [''associatedRoles'']"

lemma keyed_role: "keyed role_roots (role_assigns st)"
  unfolding role_roots_def role_assigns_def
  by (intro keyed_intros) simp_all

definition automation_roots :: "string list" where
  "automation_roots =
     [''automaticRestartTime'', ''automationMode'', ''awsBackupRecoveryPointARN'',
       ''caCertificateIdentifier'', ''customerOwnedIPEnabled'']"

lemma keyed_automation: "keyed automation_roots (automation_assigns L st)"
  unfolding automation_roots_def automation_assigns_def
  by (intro keyed_intros) simp_all

definition backup_roots :: "string list" where
  "backup_roots =
     [''dbInstanceAutomatedBackupsReplications'']"

lemma keyed_backup: "keyed backup_roots (backup_assigns st)"
  unfolding backup_roots_def backup_assigns_def
  by (intro keyed_intros) simp_all

definition group_roots :: "string list" where
  "group_roots =
     ''dbInstanceStatus'' # [''dbParameterGroups'']"

lemma keyed_group: "keyed group_roots (group_assigns st)"
  unfolding group_roots_def group_assigns_def
  by (intro keyed_intros) simp_all

definition subnet_roots :: "string list" where
  "subnet_roots =
     [''dbSubnetGroup.dbSubnetGroupARN'', ''dbSubnetGroup.dbSubnetGroupDescription'',
       ''dbSubnetGroup.dbSubnetGroupName'', ''dbSubnetGroup.subnetGroupStatus''] @
      [''dbSubnetGroup.subnets''] @
      [''dbSubnetGroup.vpcID'']"

lemma keyed_subnet: "keyed subnet_roots (subnet_assigns st)"
  unfolding subnet_roots_def subnet_assigns_def
  by (intro keyed_intros) simp_all

definition domain_roots :: "string list" where
  "domain_roots =
     [''dbInstancePort'', ''dbiResourceID''] @
      [''domainMemberships''] @
      [''enabledCloudwatchLogsExports'']"

lemma keyed_domain: "keyed domain_roots (domain_assigns st)"
  unfolding domain_roots_def domain_assigns_def
  by (intro keyed_intros) simp_all

definition endpoint_roots :: "string list" where
  "endpoint_roots =
     [''endpoint.address'', ''endpoint.hostedZoneID'', ''endpoint.port''] @
      [''enhancedMonitoringResourceARN'', ''iamDatabaseAuthenticationEnabled'',
       ''instanceCreateTime'', ''latestRestorableTime''] @
      [''listenerEndpoint.address'', ''listenerEndpoint.hostedZoneID'', ''listenerEndpoint.port''] @
      [''optionGroupMemberships'']"

lemma keyed_endpoint: "keyed endpoint_roots (endpoint_assigns L st)"
  unfolding endpoint_roots_def endpoint_assigns_def
  by (intro keyed_intros) simp_all

definition pending_roots :: "string list" where
  "pending_roots =
     [''pendingModifiedValues.allocatedStorage'', ''pendingModifiedValues.automationMode'',
       ''pendingModifiedValues.backupRetentionPeriod'',
       ''pendingModifiedValues.caCertificateIdentifier'', ''pendingModifiedValues.dbInstanceClass'',
       ''pendingModifiedValues.dbInstanceIdentifier'', ''pendingModifiedValues.dbSubnetGroupName'',
       ''pendingModifiedValues.engineVersion'',
       ''pendingModifiedValues.iamDatabaseAuthenticationEnabled'', ''pendingModifiedValues.iops'',
       ''pendingModifiedValues.licenseModel'', ''pendingModifiedValues.masterUserPassword'',
       ''pendingModifiedValues.multiAZ''] @
      ([''pendingModifiedValues.pendingCloudwatchLogsExports.logTypesToDisable''] @
       [''pendingModifiedValues.pendingCloudwatchLogsExports.logTypesToEnable'']) @
      [''pendingModifiedValues.port''] @
      [''pendingModifiedValues.ProcessorFeature''] @
      [''pendingModifiedValues.resumeFullAutomationModeTime'', ''pendingModifiedValues.storageType'']"

lemma keyed_pending: "keyed pending_roots (pending_assigns L st)"
  unfolding pending_roots_def pending_assigns_def
  by (intro keyed_intros) simp_all

definition replica_roots :: "string list" where
  "replica_roots =
     ''performanceInsightsEnabled'' # [''readReplicaDBClusterIdentifiers''] @
      [''readReplicaDBInstanceIdentifiers''] @
      [''readReplicaSourceDBInstanceIdentifier'', ''replicaMode'', ''resumeFullAutomationModeTime'',
       ''secondaryAvailabilityZone'']"

lemma keyed_replica: "keyed replica_roots (replica_assigns L st)"
  unfolding replica_roots_def replica_assigns_def
  by (intro keyed_intros) simp_all

definition info_roots :: "string list" where
  "info_roots =
     [''statusInfos''] @
      [''tagList''] @
      [''vpcSecurityGroups'']"

lemma keyed_info: "keyed info_roots (info_assigns st)"
  unfolding info_roots_def info_assigns_def
  by (intro keyed_intros) simp_all

definition status_roots :: "string list" where
  "status_roots =
     ack_roots @ activity_roots @ role_roots @ automation_roots @ backup_roots @ group_roots @
     subnet_roots @ domain_roots @ endpoint_roots @ pending_roots @ replica_roots @ info_roots"

lemma distinct_status_roots: "distinct status_roots"
  by code_simp

lemma distinct_status_keys: "distinct (map fst (status_assigns L st))"
proof -
  have "keyed status_roots (status_assigns L st)"
    unfolding status_roots_def status_assigns_def
    by (intro keyed_append keyed_ack keyed_activity keyed_role keyed_automation keyed_backup
        keyed_group keyed_subnet keyed_domain keyed_endpoint keyed_pending keyed_replica keyed_info)
  then show ?thesis by (simp add: keyed_def distinct_status_roots)
qed

lemma foldl_assign:
  "distinct (map fst as) \<Longrightarrow> fst ` set as \<inter> dom m = {} \<Longrightarrow>
   foldl assign m as k = Some v \<longleftrightarrow> (k, Some v) \<in> set as \<or> m k = Some v"
proof (induction as arbitrary: m)
  case (Cons a as)
  obtain x y where a: "a = (x, y)" by fastforce
  have "fst ` set as \<inter> dom (assign m a) = {}"
    using Cons.prems a by (cases y) auto
  then have "foldl assign (assign m a) as k = Some v \<longleftrightarrow>
      (k, Some v) \<in> set as \<or> assign m a k = Some v"
    using Cons.IH Cons.prems(1) by simp
  then show ?case
    using Cons.prems(2) a by (cases y) (auto simp: dom_def)
qed simp

end
