(* ===== verification/Reconcile.thy ===== *)
theory Reconcile
  imports Requests
begin

text \<open>
  What the three resource reconcilers share: the variables every \<open>Reconcile\<close> declares (its
  named results and the status, reason and message of its ready condition), the contract of
  the \<open>return...\<close> closures, the deferred status update, and the contract of the
  finalizer check at the start of a reconciliation.
\<close>

section \<open>The variables of a reconciliation\<close>

record 'w rst = "('w, event) gst" +
  r_requeue :: bool
  r_err :: "error option"
  v_status :: string
  v_reason :: string
  v_message :: string

text \<open>The assignments every closure \<open>return...\<close> makes.\<close>

definition report ::
  "bool \<Rightarrow> error option \<Rightarrow> string \<Rightarrow> string \<Rightarrow> string \<Rightarrow> ('w, 'm) rst_scheme \<Rightarrow> ('w, 'm) rst_scheme" where
  "report rq e st rs msg s =
     s\<lparr>r_requeue := rq, r_err := e, v_status := st, v_reason := rs, v_message := msg\<rparr>"

lemma report_simps [simp]:
  "r_requeue (report rq e st rs msg s) = rq" "r_err (report rq e st rs msg s) = e"
  "v_status (report rq e st rs msg s) = st" "v_reason (report rq e st rs msg s) = rs"
  "v_message (report rq e st rs msg s) = msg" "world (report rq e st rs msg s) = world s"
  "history (report rq e st rs msg s) = history s"
  "rst.more (report rq e st rs msg s) = rst.more s"
  by (simp_all add: report_def)

text \<open>
  A report is consistent when an error, a retry and a ready condition exclude each other the
  way the controllers promise: only an error-free, unrequeued reconciliation is ready, an error
  comes with a condition that is False, and the condition has a reason the API server accepts.
\<close>

definition consistent :: "('w, 'm) rst_scheme \<Rightarrow> bool" where
  "consistent s \<longleftrightarrow>
     v_status s \<in> {ConditionTrue, ConditionFalse, ConditionUnknown} \<and>
     (v_status s = ConditionTrue \<longrightarrow> r_err s = None \<and> \<not> r_requeue s) \<and>
     (r_err s \<noteq> None \<longrightarrow> v_status s = ConditionFalse \<and> \<not> r_requeue s) \<and>
     (v_status s = ConditionUnknown \<longrightarrow> r_requeue s) \<and>
     reason_match (v_reason s)"

text \<open>A step that ends the reconciliation reports, consistently, that the object is not ready.\<close>

definition unready_stop :: "flow \<Rightarrow> ('w, 'm) rst_scheme \<Rightarrow> bool" where
  "unready_stop f t \<longleftrightarrow> (f = Stop \<longrightarrow> consistent t \<and> v_status t \<noteq> ConditionTrue)"

lemma unready_stop_simps [simp]:
  "unready_stop Continue t" "unready_stop Panic t" "unready_stop Diverge t"
  by (simp_all add: unready_stop_def)

text \<open>The condition is not (yet) reported true; only the final report of a reconciliation does.\<close>

abbreviation unclaimed :: "('w, 'm) rst_scheme \<Rightarrow> bool" where
  "unclaimed t \<equiv> v_status t \<noteq> ConditionTrue"

lemma extends_status: "extends P (s :: ('w, 'm) rst_scheme) t \<Longrightarrow> v_status t = v_status s"
  by (auto simp: extends_def)

text \<open>The contract of the closures every reconciler has.\<close>

locale reporter =
  fixes error_out :: "error \<Rightarrow> string \<Rightarrow> string \<Rightarrow> ('w, 'm) rst_scheme \<Rightarrow> ('w, 'm) rst_scheme"
    and requeue_out :: "string \<Rightarrow> string \<Rightarrow> ('w, 'm) rst_scheme \<Rightarrow> ('w, 'm) rst_scheme"
    and ready_out :: "('w, 'm) rst_scheme \<Rightarrow> ('w, 'm) rst_scheme"
  assumes error_is: "\<exists>msg. error_out e rs m s = report False (Some e) ConditionFalse rs msg s"
    and requeue_is: "requeue_out rs m s = report True None ConditionFalse rs m s"
    and ready_is: "\<exists>rs msg. reason_match rs \<and> ready_out s = report False None ConditionTrue rs msg s"
begin

lemma consistent_error: "reason_match rs \<Longrightarrow> consistent (error_out e rs m s)"
  using error_is [of e rs m s] by (auto simp: consistent_def)

lemma consistent_requeue: "reason_match rs \<Longrightarrow> consistent (requeue_out rs m s)"
  by (simp add: consistent_def requeue_is)

lemma consistent_ready: "consistent (ready_out s)"
  using ready_is [of s] by (auto simp: consistent_def)

lemma error_frame:
  "world (error_out e rs m s) = world s" "history (error_out e rs m s) = history s"
  "rst.more (error_out e rs m s) = rst.more s"
  using error_is [of e rs m s] by auto

lemma ready_frame:
  "world (ready_out s) = world s" "history (ready_out s) = history s"
  "rst.more (ready_out s) = rst.more s"
  using ready_is [of s] by auto

lemmas consistent_outs = consistent_error consistent_requeue consistent_ready

lemma unready_error: "reason_match rs \<Longrightarrow> unready_stop Stop (error_out e rs m s)"
  using error_is [of e rs m s] by (auto simp: unready_stop_def consistent_def)

lemma unready_requeue: "reason_match rs \<Longrightarrow> unready_stop Stop (requeue_out rs m s)"
  by (simp add: unready_stop_def consistent_def requeue_is)

end

text \<open>The inventory and the instance also report that they wait or that they are being deleted.\<close>

locale waiting_reporter = reporter +
  fixes updating_out :: "('w, 'm) rst_scheme \<Rightarrow> ('w, 'm) rst_scheme"
    and not_ready_out :: "string \<Rightarrow> string \<Rightarrow> ('w, 'm) rst_scheme \<Rightarrow> ('w, 'm) rst_scheme"
  assumes updating_is: "\<exists>rs msg. reason_match rs \<and> updating_out s = report True None ConditionUnknown rs msg s"
    and not_ready_is: "not_ready_out rs m s = report False None ConditionFalse rs m s"
begin

lemma consistent_updating: "consistent (updating_out s)"
  using updating_is [of s] by (auto simp: consistent_def)

lemma consistent_not_ready: "reason_match rs \<Longrightarrow> consistent (not_ready_out rs m s)"
  by (simp add: consistent_def not_ready_is)

lemma updating_frame:
  "world (updating_out s) = world s" "history (updating_out s) = history s"
  "rst.more (updating_out s) = rst.more s"
  using updating_is [of s] by auto

lemma unready_updating: "unready_stop Stop (updating_out s)"
  using updating_is [of s] by (auto simp: unready_stop_def consistent_def)

lemma unready_not_ready: "reason_match rs \<Longrightarrow> unready_stop Stop (not_ready_out rs m s)"
  by (simp add: unready_stop_def consistent_def not_ready_is)

lemmas unready_outs = unready_error unready_requeue unready_updating unready_not_ready

lemmas consistent_all = consistent_outs consistent_updating consistent_not_ready

end

section \<open>The deferred status update\<close>

text \<open>
  How the deferred closures treat the answer of \<open>Status().Update\<close>: a conflict asks for a retry,
  another error is returned unless there is an error already.
\<close>

definition after_status_update :: "error \<Rightarrow> ('w, 'm) rst_scheme \<Rightarrow> ('w, 'm) rst_scheme" where
  "after_status_update e s =
     (if IsConflict e then s\<lparr>r_requeue := True\<rparr>
      else if r_err s = None then s\<lparr>r_err := Some e\<rparr> else s)"

definition ready_condition :: "string \<Rightarrow> ('w, 'm) rst_scheme \<Rightarrow> condition" where
  "ready_condition ty s =
     \<lparr>c_type = ty, c_status = v_status s, c_reason = v_reason s, c_message = v_message s,
      c_lastTransitionTime = 0\<rparr>"

text \<open>What a reader of the conditions sees.\<close>

definition condition_true :: "'n lib_scheme \<Rightarrow> condition list \<Rightarrow> string \<Rightarrow> bool" where
  "condition_true L cs ty \<longleftrightarrow>
     (case FindStatusCondition L cs ty of None \<Rightarrow> False | Some c \<Rightarrow> c_status c = ConditionTrue)"

lemma condition_true_set:
  "conditions_ok L \<Longrightarrow> condition_true L (SetStatusCondition L cs c) (c_type c) \<longleftrightarrow> c_status c = ConditionTrue"
proof -
  assume "conditions_ok L"
  then obtain t where "FindStatusCondition L (SetStatusCondition L cs c) (c_type c) =
      Some (c\<lparr>c_lastTransitionTime := t\<rparr>)"
    unfolding conditions_ok_def by blast
  then show ?thesis by (simp add: condition_true_def)
qed

lemma condition_true_ready:
  "conditions_ok L \<Longrightarrow> condition_true L (SetStatusCondition L cs (ready_condition ty s)) ty \<longleftrightarrow> v_status s = ConditionTrue"
  using condition_true_set [of L cs "ready_condition ty s"] by (simp add: ready_condition_def)

section \<open>Steps that do not claim readiness\<close>

text \<open>
  \<open>keeps m\<close>: \<open>m\<close> does not report the condition true unless it ends the reconciliation, not even
  when it panics.
\<close>

named_theorems keeps_intros \<open>rules that follow the structure of a step that does not claim readiness\<close>

definition keeps :: "(('w, 'm) rst_scheme, flow) state \<Rightarrow> bool" where
  "keeps m \<longleftrightarrow> (\<forall>s. unclaimed s \<longrightarrow> wp m (\<lambda>f t. f \<noteq> Stop \<longrightarrow> unclaimed t) s)"

lemma keepsD: "keeps m \<Longrightarrow> unclaimed s \<Longrightarrow> wp m (\<lambda>f t. f \<noteq> Stop \<longrightarrow> unclaimed t) s"
  by (simp add: keeps_def)

lemma keeps_return [keeps_intros]: "keeps (State_Monad.return f)"
  by (simp add: keeps_def wp_simps)

lemma keeps_stop_with [keeps_intros]: "keeps (stop_with f)"
  by (simp add: keeps_def wp_simps)

lemma keeps_get [keeps_intros]: "(\<And>s. keeps (k s)) \<Longrightarrow> keeps (State_Monad.get \<bind> k)"
  by (simp add: keeps_def wp_simps)

lemma keeps_update [keeps_intros]:
  "(\<And>s. v_status (u s) = v_status s) \<Longrightarrow> keeps (k ()) \<Longrightarrow> keeps (State_Monad.update u \<bind> k)"
  by (simp add: keeps_def wp_simps)

lemma keeps_does:
  assumes "does P m A" and "\<And>a. keeps (k a)"
  shows "keeps (m \<bind> k)"
  unfolding keeps_def wp_bind
  by (intro allI impI, rule does_wp [OF assms(1)]) (use assms(2) in \<open>simp add: keeps_def extends_status\<close>)

lemma keeps_api [keeps_intros]: "(\<And>r. keeps (k r)) \<Longrightarrow> keeps (api_call f ev \<bind> k)"
  by (rule keeps_does [OF does_api [where P = "\<lambda>_. True" and R = "\<lambda>_. True"]]) simp_all

lemma keeps_silent [keeps_intros]: "(\<And>r. keeps (k r)) \<Longrightarrow> keeps (silent_call f \<bind> k)"
  by (rule keeps_does [OF does_silent [where P = "\<lambda>_. True"]])

lemma keeps_if [keeps_intros]: "keeps m \<Longrightarrow> keeps n \<Longrightarrow> keeps (if b then m else n)"
  by simp

lemma keeps_case_option [keeps_intros]:
  "keeps m \<Longrightarrow> (\<And>a. keeps (f a)) \<Longrightarrow> keeps (case x of None \<Rightarrow> m | Some a \<Rightarrow> f a)"
  by (cases x) simp_all

lemma keeps_case_sum [keeps_intros]:
  "(\<And>e. keeps (f e)) \<Longrightarrow> (\<And>a. keeps (g a)) \<Longrightarrow> keeps (case x of Inl e \<Rightarrow> f e | Inr a \<Rightarrow> g a)"
  by (cases x) simp_all

lemma keeps_case_prod [keeps_intros]: "(\<And>a b. keeps (f a b)) \<Longrightarrow> keeps (case x of (a, b) \<Rightarrow> f a b)"
  by (cases x) simp

lemma keeps_let [keeps_intros]: "keeps (f a) \<Longrightarrow> keeps (let x = a in f x)"
  by simp

lemma keeps_on_ret:
  assumes "does P m A" and "\<And>a. keeps (k a)" and "\<And>e. keeps (h e)"
  shows "keeps (on_ret m h k)"
  unfolding on_ret_def
proof (rule keeps_does [OF assms(1)])
  show "keeps (case r of Ret a \<Rightarrow> k a | Err e \<Rightarrow> h e | Panics \<Rightarrow> State_Monad.return Panic)" for r
    by (cases r) (simp_all add: assms(2,3) keeps_return)
qed

lemma keeps_andThen [keeps_intros]:
  assumes "keeps m" and "keeps n"
  shows "keeps (andThen m n)"
  unfolding keeps_def wp_andThen
proof (intro allI impI)
  fix s :: "('a, 'b) rst_scheme"
  assume "unclaimed s"
  from keepsD [OF assms(1) this]
  show "wp m (\<lambda>f t. if f = Continue then wp n (\<lambda>f t. f \<noteq> Stop \<longrightarrow> unclaimed t) t else f \<noteq> Stop \<longrightarrow> unclaimed t) s"
    by (rule wp_mono) (simp add: keepsD [OF assms(2)])
qed

lemma keeps_for_each [keeps_intros]: "(\<And>x. keeps (f x)) \<Longrightarrow> keeps (for_each f xs)"
  by (induction xs) (auto intro: keeps_return keeps_andThen)

lemma does_CreateOrUpdate_pure:
  "does (\<lambda>_. True) (CreateOrUpdate fetch evf store evs obj (\<lambda>old. State_Monad.return (g old))) (\<lambda>_. True)"
  unfolding CreateOrUpdate_def
  by (intro does_intros does_bind [OF does_return [where R = "\<lambda>_. True"]]) simp_all

section \<open>The inventory's condition\<close>

abbreviation inventoryConditionReady :: string where "inventoryConditionReady \<equiv> ''SpecSynced''"

text \<open>The test with which the instance and the connection begin their work.\<close>

definition inventory_ready :: "'n lib_scheme \<Rightarrow> rds_inventory \<Rightarrow> bool" where
  "inventory_ready L iv = condition_true L (inv_conditions iv) inventoryConditionReady"

section \<open>The finalizer check\<close>

text \<open>
  The check lets the reconciliation go on, without any effect, exactly for an object that is
  not being deleted and carries the finalizer. The rest of a reconciliation then only runs
  for such objects.
\<close>

locale finalizer_guard =
  fixes guard :: "('s, flow) state"
    and live :: "'s \<Rightarrow> bool"
    and guarded :: "'s \<Rightarrow> bool"
  assumes pass: "live s \<Longrightarrow> guarded s \<Longrightarrow> run_state guard s = (Continue, s)"
    and stop: "\<not> (live s \<and> guarded s) \<Longrightarrow> fst (run_state guard s) \<noteq> Continue"
begin

lemma wp_guard:
  "wp (andThen guard body) Q s = (if live s \<and> guarded s then wp body Q s else wp guard Q s)"
proof (cases "live s \<and> guarded s")
  case True
  then show ?thesis
    using pass [of s] by (simp add: wp_simps) (simp add: wp_def)
next
  case False
  then have "fst (run_state guard s) \<noteq> Continue" by (rule stop)
  with False show ?thesis
    by (cases "run_state guard s") (auto simp: wp_andThen wp_def)
qed

text \<open>What the body does, it does to a live and guarded object.\<close>

lemma body_only_guarded:
  assumes "\<And>s. live s \<Longrightarrow> guarded s \<Longrightarrow> wp body Q s" and "wp guard Q s"
  shows "wp (andThen guard body) Q s"
  using assms by (auto simp: wp_guard)

end

end
