(* ===== verification/InventoryController.thy ===== *)
theory InventoryController
  imports InstanceSpec InstanceStatus Reconcile
begin

text \<open>
  The RDSInventory reconciler (\<open>controllers/rdsinventory_controller.go\<close>): it configures and
  starts the ACK RDS controller with the user's AWS credentials, adopts the DB instances found in
  AWS, gives the adopted ones a master password, lists all DB instances in its status, and takes
  the controller down before the RDSInventory goes away.
\<close>

definition inventoryFinalizer :: string where
  "inventoryFinalizer = ''rds.dbaas.redhat.com/inventory''"

abbreviation awsAccessKeyID :: string where "awsAccessKeyID \<equiv> ''AWS_ACCESS_KEY_ID''"
abbreviation awsSecretAccessKey :: string where "awsSecretAccessKey \<equiv> ''AWS_SECRET_ACCESS_KEY''"
abbreviation awsRegion :: string where "awsRegion \<equiv> ''AWS_REGION''"
abbreviation ackResourceTags :: string where "ackResourceTags \<equiv> ''ACK_RESOURCE_TAGS''"
abbreviation ackLogLevel :: string where "ackLogLevel \<equiv> ''ACK_LOG_LEVEL''"
abbreviation ackEnableDevelopmentLogging :: string where
  "ackEnableDevelopmentLogging \<equiv> ''ACK_ENABLE_DEVELOPMENT_LOGGING''"
abbreviation ackWatchNamespace :: string where "ackWatchNamespace \<equiv> ''ACK_WATCH_NAMESPACE''"
abbreviation awsEndpointUrl :: string where "awsEndpointUrl \<equiv> ''AWS_ENDPOINT_URL''"

abbreviation secretName :: string where "secretName \<equiv> ''ack-user-secrets''"
abbreviation configmapName :: string where "configmapName \<equiv> ''ack-user-config''"
abbreviation ackDeploymentName :: string where "ackDeploymentName \<equiv> ''ack-rds-controller''"
abbreviation rdsInstanceKind :: string where "rdsInstanceKind \<equiv> ''DBInstance''"

abbreviation adpotedDBInstanceLabelKey :: string where
  "adpotedDBInstanceLabelKey \<equiv> ''rds.dbaas.redhat.com/adopted''"
abbreviation adpotedDBInstanceLabelValue :: string where
  "adpotedDBInstanceLabelValue \<equiv> ''true''"

abbreviation inventoryStatusReasonSyncOK :: string where "inventoryStatusReasonSyncOK \<equiv> ''SyncOK''"
abbreviation inventoryStatusReasonUpdating :: string where "inventoryStatusReasonUpdating \<equiv> ''Updating''"
abbreviation inventoryStatusReasonDeleting :: string where "inventoryStatusReasonDeleting \<equiv> ''Deleting''"
abbreviation inventoryStatusReasonInputError :: string where "inventoryStatusReasonInputError \<equiv> ''InputError''"
abbreviation inventoryStatusReasonBackendError :: string where "inventoryStatusReasonBackendError \<equiv> ''BackendError''"
abbreviation inventoryStatusReasonNotFound :: string where "inventoryStatusReasonNotFound \<equiv> ''NotFound''"

abbreviation inventoryStatusMessageUpdating :: string where
  "inventoryStatusMessageUpdating \<equiv> ''Updating Inventory''"
abbreviation inventoryStatusMessageUpdateError :: string where
  "inventoryStatusMessageUpdateError \<equiv> ''Failed to update Inventory''"
abbreviation inventoryStatusMessageDeleting :: string where
  "inventoryStatusMessageDeleting \<equiv> ''Deleting Inventory''"
abbreviation inventoryStatusMessageInstalling :: string where
  "inventoryStatusMessageInstalling \<equiv> ''Installing RDS controller''"
abbreviation inventoryStatusMessageGetInstancesError :: string where
  "inventoryStatusMessageGetInstancesError \<equiv> ''Failed to get Instances''"
abbreviation inventoryStatusMessageAdoptInstanceError :: string where
  "inventoryStatusMessageAdoptInstanceError \<equiv> ''Failed to adopt DB Instance''"
abbreviation inventoryStatusMessageUpdateInstanceError :: string where
  "inventoryStatusMessageUpdateInstanceError \<equiv> ''Failed to update DB Instance''"
abbreviation inventoryStatusMessageUninstallError :: string where
  "inventoryStatusMessageUninstallError \<equiv> ''Failed to uninstall RDS controller''"

section \<open>State and closures\<close>

text \<open>
  The variables of \<open>Reconcile\<close> and, after them, the locals of its closures that a loop updates.
\<close>

record 'w inv_st = "'w rst" +
  iv_inventory :: rds_inventory
  iv_credentialsRef :: secret
  iv_accessKey :: string
  iv_secretKey :: string
  iv_region :: string
  iv_deleting :: bool
  iv_awsMap :: "string \<Rightarrow> aws_db_instance option"
  iv_adopting :: bool
  iv_waiting :: bool

definition init_inv :: "'w \<Rightarrow> 'w inv_st" where
  "init_inv w = \<lparr>world = w, history = [], r_requeue = False, r_err = None, v_status = [],
     v_reason = [], v_message = [], iv_inventory = empty_inventory, iv_credentialsRef = empty_secret,
     iv_accessKey = [], iv_secretKey = [], iv_region = [], iv_deleting = False,
     iv_awsMap = Map.empty, iv_adopting = False, iv_waiting = False\<rparr>"

definition inv_returnUpdating :: "('w, 'm) rst_scheme \<Rightarrow> ('w, 'm) rst_scheme" where
  "inv_returnUpdating =
     report True None ConditionUnknown inventoryStatusReasonUpdating inventoryStatusMessageUpdating"

definition inv_returnError :: "error \<Rightarrow> string \<Rightarrow> string \<Rightarrow> ('w, 'm) rst_scheme \<Rightarrow> ('w, 'm) rst_scheme" where
  "inv_returnError e reason message = report False (Some e) ConditionFalse reason message"

definition inv_returnNotReady :: "string \<Rightarrow> string \<Rightarrow> ('w, 'm) rst_scheme \<Rightarrow> ('w, 'm) rst_scheme" where
  "inv_returnNotReady reason message = report False None ConditionFalse reason message"

definition inv_returnRequeue :: "string \<Rightarrow> string \<Rightarrow> ('w, 'm) rst_scheme \<Rightarrow> ('w, 'm) rst_scheme" where
  "inv_returnRequeue reason message = report True None ConditionFalse reason message"

definition inv_returnReady :: "('w, 'm) rst_scheme \<Rightarrow> ('w, 'm) rst_scheme" where
  "inv_returnReady s = report False None ConditionTrue inventoryStatusReasonSyncOK (v_message s) s"

text \<open>The most common exit: a backend error with a message.\<close>

abbreviation inv_backend :: "error \<Rightarrow> string \<Rightarrow> ('w inv_st, flow) state" where
  "inv_backend e message \<equiv> stop_with (inv_returnError e inventoryStatusReasonBackendError message)"

definition updateInventoryReadyCondition :: "('w, 'n) env_scheme \<Rightarrow> ('w inv_st, unit) state" where
  "updateInventoryReadyCondition E = do {
     s \<leftarrow> State_Monad.get;
     let iv = iv_inventory s;
     let iv1 = iv\<lparr>inv_conditions := SetStatusCondition E (inv_conditions iv)
                                      (ready_condition inventoryConditionReady s)\<rparr>;
     State_Monad.update (\<lambda>s. s\<lparr>iv_inventory := iv1\<rparr>);
     r \<leftarrow> api_call (api_statusUpdateInventory E iv1) (EvStatusInventory iv1);
     (case r of
        Inl e \<Rightarrow> State_Monad.update (after_status_update e)
      | Inr iv2 \<Rightarrow> State_Monad.update (\<lambda>s. s\<lparr>iv_inventory := iv2\<rparr>))
   }"

section \<open>The deployment of the ACK controller\<close>

text \<open>
  The loop of \<open>stopRDSController\<close> around its \<open>Get\<close>; with \<open>wait\<close> it sleeps and retries while the
  deployment is missing, for ever if need be. \<open>None\<close>: not ended within the fuel.
\<close>

fun get_deployment ::
  "('w, 'n) env_scheme \<Rightarrow> key \<Rightarrow> bool \<Rightarrow> nat \<Rightarrow>
   (('w, event, 'm) gst_scheme, (error + deployment) option) state" where
  "get_deployment E k wait 0 = State_Monad.return None"
| "get_deployment E k wait (Suc n) = do {
     r \<leftarrow> api_call (api_getDeployment E k) (EvGetDeployment k);
     (case r of
        Inl e \<Rightarrow> if IsNotFound e \<and> wait then get_deployment E k wait n
                 else State_Monad.return (Some (Inl e))
      | Inr d \<Rightarrow> State_Monad.return (Some (Inr d)))
   }"

definition deployment_key :: "string \<Rightarrow> key" where
  "deployment_key ns = \<lparr>k_namespace = ns, k_name = ackDeploymentName\<rparr>"

text \<open>Scale the deployment when the test on its replicas says so.\<close>

definition scale_deployment ::
  "('w, 'n) env_scheme \<Rightarrow> deployment \<Rightarrow> bool \<Rightarrow> 32 word \<Rightarrow>
   (('w, event, 'm) gst_scheme, error option) state" where
  "scale_deployment E d test replicas =
     (if test then do {
        let d1 = d\<lparr>dep_replicas := Some replicas\<rparr>;
        r \<leftarrow> api_call (api_updateDeployment E d1) (EvUpdateDeployment d1);
        State_Monad.return (case r of Inl e \<Rightarrow> Some e | Inr _ \<Rightarrow> None) }
      else State_Monad.return None)"

text \<open>\<open>None\<close>: not ended within the fuel; \<open>Some None\<close>: no error.\<close>

definition stopRDSController ::
  "('w, 'n) env_scheme \<Rightarrow> string \<Rightarrow> bool \<Rightarrow> nat \<Rightarrow>
   (('w, event, 'm) gst_scheme, error option option) state" where
  "stopRDSController E ns wait n = do {
     r \<leftarrow> get_deployment E (deployment_key ns) wait n;
     (case r of
        None \<Rightarrow> State_Monad.return None
      | Some g \<Rightarrow>
          (case g of
             Inl e \<Rightarrow> State_Monad.return (Some (Some e))
           | Inr d \<Rightarrow> do {
               e \<leftarrow> scale_deployment E d
                      (case dep_replicas d of None \<Rightarrow> True | Some i \<Rightarrow> 0 <s i) 0;
               State_Monad.return (Some e) }))
   }"

definition startRDSController ::
  "('w, 'n) env_scheme \<Rightarrow> string \<Rightarrow> (('w, event, 'm) gst_scheme, error option) state" where
  "startRDSController E ns = do {
     r \<leftarrow> api_call (api_getDeployment E (deployment_key ns)) (EvGetDeployment (deployment_key ns));
     (case r of
        Inl e \<Rightarrow> State_Monad.return (Some e)
      | Inr d \<Rightarrow> scale_deployment E d (dep_replicas d = Some 0) 1)
   }"

definition waitForRDSController ::
  "('w, 'n) env_scheme \<Rightarrow> string \<Rightarrow> (('w, event, 'm) gst_scheme, error + bool) state" where
  "waitForRDSController E ns = do {
     r \<leftarrow> api_call (api_getDeployment E (deployment_key ns)) (EvGetDeployment (deployment_key ns));
     State_Monad.return (case r of Inl e \<Rightarrow> Inl e | Inr d \<Rightarrow> Inr (0 <s dep_readyReplicas d))
   }"

section \<open>Finalizer\<close>

definition inv_addFinalizer :: "('w, 'n) env_scheme \<Rightarrow> ('w inv_st, flow) state" where
  "inv_addFinalizer E = do {
     State_Monad.update (\<lambda>s. s\<lparr>iv_inventory := (iv_inventory s)\<lparr>
       inv_meta := AddFinalizer E (inv_meta (iv_inventory s)) inventoryFinalizer\<rparr>\<rparr>);
     s \<leftarrow> State_Monad.get;
     r \<leftarrow> api_call (api_updateInventory E (iv_inventory s)) (EvUpdateInventory (iv_inventory s));
     (case r of
        Inl e \<Rightarrow> if IsConflict e then stop_with inv_returnUpdating
                 else inv_backend e inventoryStatusMessageUpdateError
      | Inr iv \<Rightarrow> do {
          State_Monad.update (\<lambda>s. s\<lparr>iv_inventory := iv\<rparr>);
          stop_with (inv_returnNotReady inventoryStatusReasonUpdating inventoryStatusMessageUpdating) })
   }"

definition inv_removeFinalizer :: "('w, 'n) env_scheme \<Rightarrow> ('w inv_st, flow) state" where
  "inv_removeFinalizer E = do {
     State_Monad.update (\<lambda>s. s\<lparr>iv_inventory := (iv_inventory s)\<lparr>
       inv_meta := RemoveFinalizer E (inv_meta (iv_inventory s)) inventoryFinalizer\<rparr>\<rparr>);
     s \<leftarrow> State_Monad.get;
     r \<leftarrow> api_call (api_updateInventory E (iv_inventory s)) (EvUpdateInventory (iv_inventory s));
     (case r of
        Inl e \<Rightarrow> if IsConflict e then stop_with inv_returnUpdating
                 else inv_backend e inventoryStatusMessageUpdateError
      | Inr iv \<Rightarrow> do {
          State_Monad.update (\<lambda>s. s\<lparr>iv_inventory := iv\<rparr>);
          stop_with (inv_returnNotReady inventoryStatusReasonUpdating inventoryStatusMessageUpdating) })
   }"

text \<open>The adopted resources of this inventory, by their owner annotations.\<close>

definition owned_adopted :: "'n lib_scheme \<Rightarrow> rds_inventory \<Rightarrow> adopted_resource \<Rightarrow> bool" where
  "owned_adopted L iv a \<longleftrightarrow>
     (case annotated_owner L rdsInventoryType (ad_meta a) of
        None \<Rightarrow> False
      | Some nsn \<Rightarrow> k_name nsn = om_name (inv_meta iv) \<and> k_namespace nsn = om_namespace (inv_meta iv))"

definition delete_adopted ::
  "('w, 'n) env_scheme \<Rightarrow> rds_inventory \<Rightarrow> adopted_resource \<Rightarrow> ('w inv_st, flow) state" where
  "delete_adopted E iv a =
     (if owned_adopted E iv a then do {
        d \<leftarrow> (if time_IsZero (om_deletionTimestamp (ad_meta a))
              then api_call (api_deleteAdopted E a) (EvDeleteAdopted a)
              else State_Monad.return None);
        (case d of
           Some e \<Rightarrow> inv_backend e ''Failed to delete AdoptedResource''
         | None \<Rightarrow> do {
             State_Monad.update (\<lambda>s. s\<lparr>iv_deleting := True\<rparr>);
             State_Monad.return Continue }) }
      else State_Monad.return Continue)"

definition delete_adopted_resources :: "('w, 'n) env_scheme \<Rightarrow> ('w inv_st, flow) state" where
  "delete_adopted_resources E = do {
     s \<leftarrow> State_Monad.get;
     let iv = iv_inventory s;
     let ns = om_namespace (inv_meta iv);
     r \<leftarrow> api_call (api_listAdopted E ns) (EvListAdopted ns);
     (case r of
        Inl e \<Rightarrow> inv_backend e ''Failed to delete AdoptedResource''
      | Inr items \<Rightarrow> do {
          State_Monad.update (\<lambda>s. s\<lparr>iv_deleting := False\<rparr>);
          andThen (for_each (delete_adopted E iv) items) (do {
            t \<leftarrow> State_Monad.get;
            (if iv_deleting t then stop_with inv_returnUpdating else State_Monad.return Continue) }) })
   }"

definition uninstall_controller ::
  "('w, 'n) env_scheme \<Rightarrow> string \<Rightarrow> nat \<Rightarrow> ('w inv_st, flow) state" where
  "uninstall_controller E N n = do {
     r \<leftarrow> stopRDSController E N False n;
     (case r of
        None \<Rightarrow> State_Monad.return Diverge
      | Some e \<Rightarrow>
          (case e of
             Some e \<Rightarrow> inv_backend e inventoryStatusMessageUninstallError
           | None \<Rightarrow> State_Monad.return Continue))
   }"

definition delete_ack_secret :: "('w, 'n) env_scheme \<Rightarrow> string \<Rightarrow> ('w inv_st, flow) state" where
  "delete_ack_secret E N = do {
     let k = \<lparr>k_namespace = N, k_name = secretName\<rparr>;
     r \<leftarrow> api_call (api_getSecret E k) (EvGetSecret k);
     (case r of
        Inl e \<Rightarrow> if \<not> IsNotFound e then inv_backend e ''Failed to get Secret'' else State_Monad.return Continue
      | Inr sec \<Rightarrow> do {
          d \<leftarrow> api_call (api_deleteSecret E sec) (EvDeleteSecret sec);
          (case d of
             Some e \<Rightarrow> inv_backend e ''Failed to delete Secret''
           | None \<Rightarrow> stop_with inv_returnUpdating) })
   }"

definition delete_ack_configmap :: "('w, 'n) env_scheme \<Rightarrow> string \<Rightarrow> ('w inv_st, flow) state" where
  "delete_ack_configmap E N = do {
     let k = \<lparr>k_namespace = N, k_name = configmapName\<rparr>;
     r \<leftarrow> api_call (api_getConfigMap E k) (EvGetConfigMap k);
     (case r of
        Inl e \<Rightarrow> if \<not> IsNotFound e then inv_backend e ''Failed to get ConfigMap'' else State_Monad.return Continue
      | Inr cm \<Rightarrow> do {
          d \<leftarrow> api_call (api_deleteConfigMap E cm) (EvDeleteConfigMap cm);
          (case d of
             Some e \<Rightarrow> inv_backend e ''Failed to delete ConfigMap''
           | None \<Rightarrow> stop_with inv_returnUpdating) })
   }"

definition inv_checkFinalizer ::
  "('w, 'n) env_scheme \<Rightarrow> string \<Rightarrow> nat \<Rightarrow> ('w inv_st, flow) state" where
  "inv_checkFinalizer E N n = do {
     s \<leftarrow> State_Monad.get;
     let m = inv_meta (iv_inventory s);
     (if time_IsZero (om_deletionTimestamp m) then
        (if \<not> ContainsFinalizer E m inventoryFinalizer then inv_addFinalizer E
         else State_Monad.return Continue)
      else if ContainsFinalizer E m inventoryFinalizer then
        andThen (delete_adopted_resources E)
       (andThen (uninstall_controller E N n)
       (andThen (delete_ack_secret E N)
       (andThen (delete_ack_configmap E N)
        (inv_removeFinalizer E))))
      else stop_with (inv_returnNotReady inventoryStatusReasonDeleting inventoryStatusMessageDeleting))
   }"

section \<open>Credentials and the ACK controller\<close>

definition requiredCredentialError :: "string \<Rightarrow> error" where
  "requiredCredentialError p = PlainError (''required credential '' @ p @ '' is missing'')"

text \<open>One credential: present and not empty, or an input error.\<close>

definition require_credential ::
  "string \<Rightarrow> (string \<Rightarrow> 'w inv_st \<Rightarrow> 'w inv_st) \<Rightarrow> ('w inv_st, flow) state" where
  "require_credential k upd = do {
     s \<leftarrow> State_Monad.get;
     (case data_get (sec_data (iv_credentialsRef s)) k of
        None \<Rightarrow> stop_with (inv_returnError (requiredCredentialError k) inventoryStatusReasonInputError
                  (Error_text (requiredCredentialError k)))
      | Some v \<Rightarrow>
          if length v = 0
          then stop_with (inv_returnError (requiredCredentialError k) inventoryStatusReasonInputError
                 (Error_text (requiredCredentialError k)))
          else do { State_Monad.update (upd v); State_Monad.return Continue })
   }"

definition require_credentials :: "('w inv_st, flow) state" where
  "require_credentials =
     andThen (require_credential awsAccessKeyID (\<lambda>v s. s\<lparr>iv_accessKey := v\<rparr>))
    (andThen (require_credential awsSecretAccessKey (\<lambda>v s. s\<lparr>iv_secretKey := v\<rparr>))
     (require_credential awsRegion (\<lambda>v s. s\<lparr>iv_region := v\<rparr>)))"

text \<open>A missing secret is reported twice; the second report stands.\<close>

definition credentials_unread :: "error \<Rightarrow> ('w inv_st, flow) state" where
  "credentials_unread e = do {
     (if IsNotFound e
      then State_Monad.update (inv_returnError e inventoryStatusReasonNotFound ''Failed to get Credential'')
      else State_Monad.return ());
     inv_backend e ''Failed to get Credential''
   }"

definition validateAWSParameter :: "('w, 'n) env_scheme \<Rightarrow> ('w inv_st, flow) state" where
  "validateAWSParameter E = do {
     s \<leftarrow> State_Monad.get;
     (case inv_credentialsRef (iv_inventory s) of
        None \<Rightarrow> State_Monad.return Panic
      | Some k \<Rightarrow> do {
          r \<leftarrow> api_call (api_getSecret E k) (EvGetSecret k);
          (case r of
             Inl e \<Rightarrow> credentials_unread e
           | Inr sec \<Rightarrow> do {
               State_Monad.update (\<lambda>s. s\<lparr>iv_credentialsRef := sec\<rparr>);
               require_credentials }) })
   }"

definition buildInventoryLabels :: "'n lib_scheme \<Rightarrow> rds_inventory \<Rightarrow> smap" where
  "buildInventoryLabels L iv =
     [''managed-by'' \<mapsto> ''rds-dbaas-operator'',
      ''owner'' \<mapsto> om_name (inv_meta iv),
      ''owner.kind'' \<mapsto> inv_kind iv,
      ''owner.namespace'' \<mapsto> om_namespace (inv_meta iv),
      TypeLabelKey L \<mapsto> TypeLabelValue L]"

text \<open>\<open>m[k]\<close> of a map of strings or byte strings: empty when the key is missing.\<close>

definition data_or_empty :: "smap option \<Rightarrow> string \<Rightarrow> string" where
  "data_or_empty d k = (case data_get d k of None \<Rightarrow> [] | Some v \<Rightarrow> v)"

definition ack_secret ::
  "'n lib_scheme \<Rightarrow> rds_inventory \<Rightarrow> secret \<Rightarrow> secret \<Rightarrow> secret outcome" where
  "ack_secret L iv cred old =
     (case SetOwnerAnnotations L (OwnerInventory iv) ((sec_meta old)\<lparr>om_labels := buildInventoryLabels L iv\<rparr>) of
        Inl e \<Rightarrow> Err e
      | Inr m \<Rightarrow> Ret (old\<lparr>sec_meta := m, sec_data := Some
          [awsAccessKeyID \<mapsto> data_or_empty (sec_data cred) awsAccessKeyID,
           awsSecretAccessKey \<mapsto> data_or_empty (sec_data cred) awsSecretAccessKey]\<rparr>))"

definition inv_createOrUpdateSecret ::
  "('w, 'n) env_scheme \<Rightarrow> string \<Rightarrow> rds_inventory \<Rightarrow> secret \<Rightarrow>
   (('w, event, 'm) gst_scheme, (op_result \<times> secret) outcome) state" where
  "inv_createOrUpdateSecret E N iv cred =
     CreateOrUpdate (cou_fetchSecret E) EvFetchSecret (cou_storeSecret E) EvApplySecret
       (empty_secret\<lparr>sec_meta := empty_meta\<lparr>om_name := secretName, om_namespace := N\<rparr>\<rparr>)
       (\<lambda>old. State_Monad.return (ack_secret E iv cred old))"

definition ack_config :: "secret \<Rightarrow> smap" where
  "ack_config cred =
     (let m = [awsRegion \<mapsto> data_or_empty (sec_data cred) awsRegion, awsEndpointUrl \<mapsto> [],
               ackEnableDevelopmentLogging \<mapsto> ''false'', ackWatchNamespace \<mapsto> [],
               ackLogLevel \<mapsto> ''info'', ackResourceTags \<mapsto> ''rhoda''];
          m1 = (case data_get (sec_data cred) ackLogLevel of Some l \<Rightarrow> m(ackLogLevel \<mapsto> l) | None \<Rightarrow> m)
      in case data_get (sec_data cred) ackResourceTags of
           Some t \<Rightarrow> m1(ackResourceTags \<mapsto> t) | None \<Rightarrow> m1)"

definition ack_configmap ::
  "'n lib_scheme \<Rightarrow> rds_inventory \<Rightarrow> secret \<Rightarrow> configmap \<Rightarrow> configmap outcome" where
  "ack_configmap L iv cred old =
     (case SetOwnerAnnotations L (OwnerInventory iv) ((cm_meta old)\<lparr>om_labels := buildInventoryLabels L iv\<rparr>) of
        Inl e \<Rightarrow> Err e
      | Inr m \<Rightarrow> Ret (old\<lparr>cm_meta := m, cm_data := Some (ack_config cred)\<rparr>))"

definition inv_createOrUpdateConfigMap ::
  "('w, 'n) env_scheme \<Rightarrow> string \<Rightarrow> rds_inventory \<Rightarrow> secret \<Rightarrow>
   (('w, event, 'm) gst_scheme, (op_result \<times> configmap) outcome) state" where
  "inv_createOrUpdateConfigMap E N iv cred =
     CreateOrUpdate (cou_fetchConfigMap E) EvFetchConfigMap (cou_storeConfigMap E) EvApplyConfigMap
       (empty_configmap\<lparr>cm_meta := empty_meta\<lparr>om_name := configmapName, om_namespace := N\<rparr>\<rparr>)
       (\<lambda>old. State_Monad.return (ack_configmap E iv cred old))"

definition installRDSController :: "('w, 'n) env_scheme \<Rightarrow> string \<Rightarrow> ('w inv_st, flow) state" where
  "installRDSController E N =
     andThen (do {
       s \<leftarrow> State_Monad.get;
       on_ret (inv_createOrUpdateSecret E N (iv_inventory s) (iv_credentialsRef s))
         (\<lambda>e. inv_backend e ''Failed to create or update Secret'')
         (\<lambda>_. State_Monad.return Continue) })
    (andThen (do {
       s \<leftarrow> State_Monad.get;
       on_ret (inv_createOrUpdateConfigMap E N (iv_inventory s) (iv_credentialsRef s))
         (\<lambda>e. inv_backend e ''Failed to create or update ConfigMap'')
         (\<lambda>_. State_Monad.return Continue) })
    (andThen (do {
       r \<leftarrow> startRDSController E N;
       (case r of
          Some e \<Rightarrow> inv_backend e ''Failed to install Operator Deployment for RDS controller''
        | None \<Rightarrow> State_Monad.return Continue) })
     (do {
       r \<leftarrow> waitForRDSController E N;
       (case r of
          Inl e \<Rightarrow> inv_backend e ''Failed to verify Operator Deployment ready for RDS controller''
        | Inr ready \<Rightarrow>
            if \<not> ready then stop_with (inv_returnRequeue inventoryStatusReasonUpdating inventoryStatusMessageInstalling)
            else State_Monad.return Continue) })))"

section \<open>Adoption\<close>

text \<open>
  The loop over the pages of \<open>DescribeDBInstances\<close>; \<open>None\<close>: not ended within the fuel. A page
  may be nil.
\<close>

fun read_pages ::
  "('w, 'n) env_scheme \<Rightarrow> aws_creds \<Rightarrow> nat \<Rightarrow> aws_db_instance list \<Rightarrow>
   (('w, event, 'm) gst_scheme, (error + aws_db_instance list) option) state" where
  "read_pages E c 0 acc = State_Monad.return None"
| "read_pages E c (Suc n) acc = do {
     more \<leftarrow> api_call (\<lambda>w. (aws_HasMorePages E c w, w)) (EvMorePages c);
     (if \<not> more then State_Monad.return (Some (Inr acc))
      else do {
        r \<leftarrow> api_call (aws_NextPage E c) (EvNextPage c);
        (case r of
           Inl e \<Rightarrow> State_Monad.return (Some (Inl e))
         | Inr output \<Rightarrow>
             read_pages E c n (case output of None \<Rightarrow> acc | Some xs \<Rightarrow> acc @ xs)) })
   }"

definition createAdoptedResource :: "'n lib_scheme \<Rightarrow> string \<Rightarrow> rds_inventory \<Rightarrow> adopted_resource" where
  "createAdoptedResource L i iv =
     \<lparr>ad_meta = empty_meta\<lparr>om_namespace := om_namespace (inv_meta iv), om_generateName := i @ ''-'',
        om_labels := [''managed-by'' \<mapsto> ''rds-dbaas-operator'', ''owner'' \<mapsto> om_name (inv_meta iv),
          ''owner.kind'' \<mapsto> inv_kind iv, ''owner.namespace'' \<mapsto> om_namespace (inv_meta iv)]\<rparr>,
      ad_group = rdsGroup L, ad_kind = rdsInstanceKind,
      ad_targetNamespace = om_namespace (inv_meta iv),
      ad_targetLabels = [adpotedDBInstanceLabelKey \<mapsto> adpotedDBInstanceLabelValue],
      ad_nameOrID = Some i\<rparr>"

text \<open>One turn of the adoption loop; \<open>known\<close> are the identifiers in the cluster or being adopted.\<close>

definition adopt_one ::
  "('w, 'n) env_scheme \<Rightarrow> rds_inventory \<Rightarrow> string set \<Rightarrow> aws_db_instance \<Rightarrow> ('w inv_st, flow) state" where
  "adopt_one E iv known a =
     (case aws_dbInstanceIdentifier a of
        None \<Rightarrow> State_Monad.return Panic
      | Some i \<Rightarrow> do {
          State_Monad.update (\<lambda>s. s\<lparr>iv_awsMap := (iv_awsMap s)(i \<mapsto> a)\<rparr>);
          (if aws_dbInstanceStatus a = Some ''deleting'' \<or> i \<in> known then State_Monad.return Continue
           else
             let ad = createAdoptedResource E i iv
             in case SetOwnerAnnotations E (OwnerInventory iv) (ad_meta ad) of
                  Inl e \<Rightarrow> inv_backend e inventoryStatusMessageAdoptInstanceError
                | Inr m \<Rightarrow> do {
                    let ad1 = ad\<lparr>ad_meta := m\<rparr>;
                    r \<leftarrow> api_call (api_createAdopted E ad1) (EvCreateAdopted ad1);
                    (case r of
                       Inl e \<Rightarrow> inv_backend e inventoryStatusMessageAdoptInstanceError
                     | Inr _ \<Rightarrow> do {
                         State_Monad.update (\<lambda>s. s\<lparr>iv_adopting := True\<rparr>);
                         State_Monad.return Continue }) }) })"

text \<open>The first half of \<open>adoptDBInstances\<close>: adopt what AWS has and the cluster does not know.\<close>

definition adopt_missing ::
  "('w, 'n) env_scheme \<Rightarrow> aws_db_instance list \<Rightarrow> ('w inv_st, flow) state" where
  "adopt_missing E awsDBInstances = do {
     s \<leftarrow> State_Monad.get;
     let iv = iv_inventory s;
     let ns = om_namespace (inv_meta iv);
     r1 \<leftarrow> api_call (api_listDBInstances E ns None) (EvListDBInstances ns None);
     (case r1 of
        Inl e \<Rightarrow> inv_backend e inventoryStatusMessageGetInstancesError
      | Inr dbs \<Rightarrow>
          if None \<in> set (map (\<lambda>d. sp_dbInstanceIdentifier (db_spec d)) dbs) then State_Monad.return Panic
          else do {
            r2 \<leftarrow> api_call (api_listAdopted E ns) (EvListAdopted ns);
            (case r2 of
               Inl e \<Rightarrow> inv_backend e inventoryStatusMessageGetInstancesError
             | Inr ads \<Rightarrow>
                 if None \<in> set (map ad_nameOrID ads) then State_Monad.return Panic
                 else do {
                   let known = set (List.map_filter (\<lambda>d. sp_dbInstanceIdentifier (db_spec d)) dbs)
                               \<union> set (List.map_filter ad_nameOrID ads);
                   State_Monad.update (\<lambda>s. s\<lparr>iv_adopting := False\<rparr>);
                   andThen (for_each (adopt_one E iv known) awsDBInstances) (do {
                     t \<leftarrow> State_Monad.get;
                     (if iv_adopting t then stop_with inv_returnUpdating
                      else State_Monad.return Continue) }) }) })
   }"

text \<open>
  Updating an adopted DB instance: a conflict is retried, another error reported; \<open>Inr\<close> is the
  object as the server returns it.
\<close>

definition update_adopted ::
  "('w, 'n) env_scheme \<Rightarrow> db_instance \<Rightarrow> (db_instance \<Rightarrow> ('w inv_st, flow) state) \<Rightarrow>
   ('w inv_st, flow) state" where
  "update_adopted E db k = do {
     r \<leftarrow> api_call (api_updateDBInstance E db) (EvUpdateDBInstance db);
     (case r of
        Inl e \<Rightarrow> if IsConflict e then stop_with inv_returnUpdating
                 else inv_backend e inventoryStatusMessageUpdateInstanceError
      | Inr db1 \<Rightarrow> k db1)
   }"

text \<open>The user and database AWS reports fill the fields the adopted DB instance lacks.\<close>

definition fill_connection_info :: "db_instance \<Rightarrow> aws_db_instance \<Rightarrow> db_instance" where
  "fill_connection_info db a =
     db\<lparr>db_spec := (db_spec db)\<lparr>
       sp_masterUsername := (case sp_masterUsername (db_spec db) of
           Some u \<Rightarrow> Some u | None \<Rightarrow> aws_masterUsername a),
       sp_dbName := (case sp_dbName (db_spec db) of Some n \<Rightarrow> Some n | None \<Rightarrow> aws_dbName a)\<rparr>\<rparr>"

definition needs_fill :: "db_instance \<Rightarrow> aws_db_instance \<Rightarrow> bool" where
  "needs_fill db a \<longleftrightarrow>
     sp_masterUsername (db_spec db) = None \<and> aws_masterUsername a \<noteq> None \<or>
     sp_dbName (db_spec db) = None \<and> aws_dbName a \<noteq> None"

text \<open>The password of an adopted DB instance: made, set in AWS, and only then recorded.\<close>

definition reset_password ::
  "('w, 'n) env_scheme \<Rightarrow> aws_creds \<Rightarrow> rds_inventory \<Rightarrow> db_instance \<Rightarrow> ('w inv_st, flow) state" where
  "reset_password E creds iv db =
     (if sp_masterUserPassword (db_spec db) \<noteq> None then State_Monad.return Continue
      else if st_dbInstanceStatus (db_status db) \<notin> {None, Some ''available''} then do {
        State_Monad.update (\<lambda>s. s\<lparr>iv_waiting := True\<rparr>);
        State_Monad.return Continue }
      else do {
        on_ret (setCredentials E db (om_namespace (inv_meta iv)) (Some (OwnerDBInstance db)) (db_kind db))
          (\<lambda>e. inv_backend e inventoryStatusMessageUpdateInstanceError)
          (\<lambda>(sec, db1). do {
             let input = \<lparr>mi_dbInstanceIdentifier = sp_dbInstanceIdentifier (db_spec db1),
                          mi_masterUserPassword = Some (data_or_empty (sec_data sec) ''password'')\<rparr>;
             m \<leftarrow> api_call (aws_ModifyDBInstance E creds input) (EvModifyDBInstance creds input);
             (case m of
                Some e \<Rightarrow> inv_backend e inventoryStatusMessageUpdateInstanceError
              | None \<Rightarrow> update_adopted E db1 (\<lambda>_. State_Monad.return Continue)) }) })"

definition complete_adopted ::
  "('w, 'n) env_scheme \<Rightarrow> aws_creds \<Rightarrow> rds_inventory \<Rightarrow> db_instance \<Rightarrow> ('w inv_st, flow) state" where
  "complete_adopted E creds iv db =
     (if sp_masterUsername (db_spec db) = None \<or> sp_dbName (db_spec db) = None then
        (case sp_dbInstanceIdentifier (db_spec db) of
           None \<Rightarrow> State_Monad.return Panic
         | Some i \<Rightarrow> do {
             s \<leftarrow> State_Monad.get;
             (case iv_awsMap s i of
                None \<Rightarrow> reset_password E creds iv db
              | Some a \<Rightarrow>
                  if needs_fill db a
                  then update_adopted E (fill_connection_info db a) (reset_password E creds iv)
                  else reset_password E creds iv db) })
      else reset_password E creds iv db)"

text \<open>The second half of \<open>adoptDBInstances\<close>.\<close>

definition complete_all :: "('w, 'n) env_scheme \<Rightarrow> aws_creds \<Rightarrow> ('w inv_st, flow) state" where
  "complete_all E creds = do {
     s \<leftarrow> State_Monad.get;
     let iv = iv_inventory s;
     let ns = om_namespace (inv_meta iv);
     let sel = Some (adpotedDBInstanceLabelKey, adpotedDBInstanceLabelValue);
     r \<leftarrow> api_call (api_listDBInstances E ns sel) (EvListDBInstances ns sel);
     (case r of
        Inl e \<Rightarrow> inv_backend e inventoryStatusMessageGetInstancesError
      | Inr dbs \<Rightarrow> do {
          State_Monad.update (\<lambda>s. s\<lparr>iv_waiting := False\<rparr>);
          andThen (for_each (complete_adopted E creds iv) dbs) (do {
            t \<leftarrow> State_Monad.get;
            (if iv_waiting t then stop_with inv_returnUpdating else State_Monad.return Continue) }) })
   }"

definition adoptDBInstances :: "('w, 'n) env_scheme \<Rightarrow> nat \<Rightarrow> ('w inv_st, flow) state" where
  "adoptDBInstances E n = do {
     s \<leftarrow> State_Monad.get;
     let creds = (iv_accessKey s, iv_secretKey s, iv_region s);
     _ \<leftarrow> api_call (aws_newPaginator E creds) (EvNewPaginator creds);
     pages \<leftarrow> read_pages E creds n [];
     (case pages of
        None \<Rightarrow> State_Monad.return Diverge
      | Some p \<Rightarrow>
          (case p of
             Inl e \<Rightarrow> inv_backend e inventoryStatusMessageGetInstancesError
           | Inr awsDBInstances \<Rightarrow> do {
               State_Monad.update (\<lambda>s. s\<lparr>iv_awsMap := Map.empty\<rparr>);
               andThen (if awsDBInstances = [] then State_Monad.return Continue
                        else adopt_missing E awsDBInstances)
                (complete_all E creds) }))
   }"

section \<open>Status\<close>

text \<open>The inventory's entry for a DB instance.\<close>

definition listed_instance :: "'n lib_scheme \<Rightarrow> db_instance \<Rightarrow> string \<Rightarrow> dbaas_instance" where
  "listed_instance L db i =
     \<lparr>di_instanceID = i, di_name = om_name (db_meta db), di_instanceInfo = parseDBInstanceStatus L db\<rparr>"

fun listed_instances :: "'n lib_scheme \<Rightarrow> db_instance list \<Rightarrow> dbaas_instance list option" where
  "listed_instances L [] = Some []"
| "listed_instances L (db # dbs) =
     (case sp_dbInstanceIdentifier (db_spec db) of
        None \<Rightarrow> None
      | Some i \<Rightarrow> map_option ((#) (listed_instance L db i)) (listed_instances L dbs))"

definition syncDBInstancesStatus :: "('w, 'n) env_scheme \<Rightarrow> ('w inv_st, flow) state" where
  "syncDBInstancesStatus E = do {
     s \<leftarrow> State_Monad.get;
     let ns = om_namespace (inv_meta (iv_inventory s));
     r \<leftarrow> api_call (api_listDBInstances E ns None) (EvListDBInstances ns None);
     (case r of
        Inl e \<Rightarrow> inv_backend e inventoryStatusMessageGetInstancesError
      | Inr dbs \<Rightarrow>
          (case listed_instances E dbs of
             None \<Rightarrow> State_Monad.return Panic
           | Some instances \<Rightarrow> do {
               let iv1 = (iv_inventory s)\<lparr>inv_instances := instances\<rparr>;
               State_Monad.update (\<lambda>s. s\<lparr>iv_inventory := iv1\<rparr>);
               u \<leftarrow> api_call (api_statusUpdateInventory E iv1) (EvStatusInventory iv1);
               (case u of
                  Inl e \<Rightarrow>
                    if IsConflict e then stop_with inv_returnUpdating
                    else inv_backend e inventoryStatusMessageUpdateError
                | Inr iv2 \<Rightarrow> do {
                    State_Monad.update (\<lambda>s. s\<lparr>iv_inventory := iv2\<rparr>);
                    State_Monad.return Continue }) }))
   }"

section \<open>Reconcile\<close>

definition inv_body :: "('w, 'n) env_scheme \<Rightarrow> string \<Rightarrow> nat \<Rightarrow> ('w inv_st, flow) state" where
  "inv_body E N n =
     andThen (inv_checkFinalizer E N n)
    (andThen (validateAWSParameter E)
    (andThen (installRDSController E N)
    (andThen (adoptDBInstances E n)
    (andThen (syncDBInstancesStatus E)
     (stop_with inv_returnReady)))))"

definition Reconcile_inventory ::
  "('w, 'n) env_scheme \<Rightarrow> string \<Rightarrow> nat \<Rightarrow> key \<Rightarrow> ('w inv_st, flow) state" where
  "Reconcile_inventory E N n req = do {
     r \<leftarrow> api_call (api_getInventory E req) (EvGetInventory req);
     (case r of
        Inl e \<Rightarrow>
          if IsNotFound e then State_Monad.return Stop
          else stop_with (\<lambda>s. s\<lparr>r_err := Some e\<rparr>)
      | Inr iv \<Rightarrow> do {
          State_Monad.update (\<lambda>s. s\<lparr>iv_inventory := iv\<rparr>);
          deferring (updateInventoryReadyCondition E) (inv_body E N n) })
   }"

end
