(* ===== verification/InventoryDeletion.thy ===== *)
theory InventoryDeletion
  imports InventoryController
begin

text \<open>
  The deletion of an RDSInventory. The finalizer check meets the contract of \<open>Reconcile\<close>; the
  order in which it takes things down is a small state machine, and the finalizer is removed
  only in its last state.
\<close>

section \<open>The closures meet their contract\<close>

lemma reason_match_inventory [simp]:
  "reason_match inventoryStatusReasonSyncOK" "reason_match inventoryStatusReasonUpdating"
  "reason_match inventoryStatusReasonDeleting" "reason_match inventoryStatusReasonInputError"
  "reason_match inventoryStatusReasonBackendError" "reason_match inventoryStatusReasonNotFound"
  by code_simp+

interpretation inv_rep: waiting_reporter inv_returnError inv_returnRequeue inv_returnReady
  inv_returnUpdating inv_returnNotReady
  by unfold_locales
    (force simp: inv_returnError_def inv_returnRequeue_def inv_returnReady_def
      inv_returnUpdating_def inv_returnNotReady_def)+

lemma inv_not_ready_frame [simp]:
  "history (inv_returnNotReady rs m s) = history s" "history (inv_returnRequeue rs m s) = history s"
  "rst.more (inv_returnNotReady rs m s) = rst.more s" "rst.more (inv_returnRequeue rs m s) = rst.more s"
  by (simp_all add: inv_returnNotReady_def inv_returnRequeue_def)

lemmas inv_frames = inv_rep.error_frame inv_rep.updating_frame inv_rep.ready_frame

abbreviation inv_live :: "rds_inventory \<Rightarrow> bool" where
  "inv_live iv \<equiv> time_IsZero (om_deletionTimestamp (inv_meta iv))"

abbreviation inv_guarded :: "'n lib_scheme \<Rightarrow> rds_inventory \<Rightarrow> bool" where
  "inv_guarded L iv \<equiv> ContainsFinalizer L (inv_meta iv) inventoryFinalizer"

lemma wp_inv_addFinalizer_stops: "wp (inv_addFinalizer E) (\<lambda>f _. f = Stop) s"
  by (simp add: inv_addFinalizer_def wp_simps split: sum.splits prod.splits)

lemma wp_inv_removeFinalizer_stops: "wp (inv_removeFinalizer E) (\<lambda>f _. f = Stop) s"
  by (simp add: inv_removeFinalizer_def wp_simps split: sum.splits prod.splits)

interpretation inv_guard: finalizer_guard "inv_checkFinalizer E N n"
  "\<lambda>s. inv_live (iv_inventory s)" "\<lambda>s. inv_guarded E (iv_inventory s)" for E N n
proof
  show "run_state (inv_checkFinalizer E N n) s = (Continue, s)"
    if "inv_live (iv_inventory s)" "inv_guarded E (iv_inventory s)" for s
    using that by (simp add: run_iff_wp inv_checkFinalizer_def wp_simps)
next
  fix s :: "'a inv_st"
  assume no: "\<not> (inv_live (iv_inventory s) \<and> inv_guarded E (iv_inventory s))"
  have last: "wp (andThen m (inv_removeFinalizer E)) (\<lambda>f _. f \<noteq> Continue) t"
    for m and t :: "'a inv_st"
    by (auto simp: wp_andThen intro!: wp_mono [OF wp_true] wp_mono [OF wp_inv_removeFinalizer_stops])
  have keep: "wp (andThen m k) (\<lambda>f _. f \<noteq> Continue) t" if "\<And>t. wp k (\<lambda>f _. f \<noteq> Continue) t" for m k t
    unfolding wp_andThen by (rule wp_mono [OF wp_true]) (simp add: that)
  have "wp (inv_checkFinalizer E N n) (\<lambda>f _. f \<noteq> Continue) s"
    using no unfolding inv_checkFinalizer_def
    by (auto simp: wp_bind wp_get wp_let Let_def wp_stop_with
        intro!: wp_mono [OF wp_inv_addFinalizer_stops] keep last)
  then show "fst (run_state (inv_checkFinalizer E N n) s) \<noteq> Continue" by (simp add: wp_fst_snd)
qed

section \<open>The wait for the deployment\<close>

text \<open>Without \<open>wait\<close> one round is enough.\<close>

lemma wp_get_deployment_once:
  "wp (get_deployment E k False (Suc n)) Q s =
   wp (api_call (api_getDeployment E k) (EvGetDeployment k)) (\<lambda>r. Q (Some r)) s"
  by (cases "api_getDeployment E k (world s)"; cases "fst (api_getDeployment E k (world s))")
    (auto simp: wp_simps)

text \<open>
  The number of turns the loop takes in a world: \<open>first_answer E k w m\<close> says that the first \<open>m\<close>
  answers are \<open>NotFound\<close> and the next one is not.
\<close>

primrec first_answer :: "('w, 'n) env_scheme \<Rightarrow> key \<Rightarrow> 'w \<Rightarrow> nat \<Rightarrow> bool" where
  "first_answer E k w 0 =
     (case fst (api_getDeployment E k w) of Inl e \<Rightarrow> \<not> IsNotFound e | Inr _ \<Rightarrow> True)"
| "first_answer E k w (Suc m) =
     ((case fst (api_getDeployment E k w) of Inl e \<Rightarrow> IsNotFound e | Inr _ \<Rightarrow> False) \<and>
      first_answer E k (snd (api_getDeployment E k w)) m)"

lemma get_deployment_returns:
  assumes "first_answer E k (world s) m" "m < n"
  shows "wp (get_deployment E k True n) (\<lambda>r _. case r of None \<Rightarrow> False
    | Some g \<Rightarrow> (case g of Inl e \<Rightarrow> \<not> IsNotFound e | Inr _ \<Rightarrow> True)) s"
  using assms
proof (induction m arbitrary: n s)
  case 0
  then obtain n' where n: "n = Suc n'" by (cases n) auto
  show ?case
    using 0 unfolding n
    by (cases "api_getDeployment E k (world s)") (auto simp: wp_simps split: sum.splits)
next
  case (Suc m)
  then obtain n' where n: "n = Suc n'" "m < n'" by (cases n) auto
  obtain e w where g: "api_getDeployment E k (world s) = (Inl e, w)" "IsNotFound e"
    using Suc.prems(1) by (cases "api_getDeployment E k (world s)") (auto split: sum.splits)
  let ?s = "s\<lparr>world := w, history := history s @ [EvGetDeployment k (Inl e)]\<rparr>"
  have "first_answer E k (world ?s) m" using Suc.prems(1) g by simp
  from Suc.IH [OF this n(2)] show ?case
    using g by (simp add: n wp_simps)
qed

text \<open>A deployment that never appears keeps the start-up waiting for ever.\<close>

lemma get_deployment_waits:
  assumes "\<And>w. \<exists>e w'. api_getDeployment E k w = (Inl e, w') \<and> IsNotFound e"
  shows "wp (get_deployment E k True n) (\<lambda>r _. r = None) s"
proof (induction n arbitrary: s)
  case (Suc n)
  obtain e w where "api_getDeployment E k (world s) = (Inl e, w)" "IsNotFound e"
    using assms by blast
  then show ?case using Suc by (simp add: wp_simps)
qed (simp add: wp_simps)

section \<open>The order of the deletion\<close>

text \<open>
  How far the take-down has come, and the calls that brought it there: no adopted resource of
  the inventory is left, the deployment is found, it has no replicas, the secret is gone, the
  config map is gone.
\<close>

datatype stage = Unadopted | Found deployment | Stopped | SecretGone | ConfigGone

definition scaled_down :: "deployment \<Rightarrow> bool" where
  "scaled_down d \<longleftrightarrow> (case dep_replicas d of None \<Rightarrow> False | Some i \<Rightarrow> \<not> 0 <s i)"

inductive taken_down ::
  "'n lib_scheme \<Rightarrow> string \<Rightarrow> rds_inventory \<Rightarrow> event list \<Rightarrow> stage \<Rightarrow> bool"
  for L :: "'n lib_scheme" and N :: string and iv :: rds_inventory where
  listed: "list_all (\<lambda>a. \<not> owned_adopted L iv a) items \<Longrightarrow>
     taken_down L N iv [EvListAdopted (om_namespace (inv_meta iv)) (Inr items)] Unadopted"
| found: "taken_down L N iv h Unadopted \<Longrightarrow>
     taken_down L N iv (h @ [EvGetDeployment (deployment_key N) (Inr d)]) (Found d)"
| stopped: "taken_down L N iv h (Found d) \<Longrightarrow> scaled_down d \<Longrightarrow> taken_down L N iv h Stopped"
| scaled: "taken_down L N iv h (Found d) \<Longrightarrow> \<not> scaled_down d \<Longrightarrow>
     taken_down L N iv (h @ [EvUpdateDeployment (d\<lparr>dep_replicas := Some 0\<rparr>) (Inr d1)]) Stopped"
| secret_gone: "taken_down L N iv h Stopped \<Longrightarrow> IsNotFound e \<Longrightarrow>
     taken_down L N iv (h @ [EvGetSecret \<lparr>k_namespace = N, k_name = secretName\<rparr> (Inl e)]) SecretGone"
| config_gone: "taken_down L N iv h SecretGone \<Longrightarrow> IsNotFound e \<Longrightarrow>
     taken_down L N iv (h @ [EvGetConfigMap \<lparr>k_namespace = N, k_name = configmapName\<rparr> (Inl e)]) ConfigGone"

inductive_cases unadoptedE: "taken_down L N iv h Unadopted"
inductive_cases foundE: "taken_down L N iv h (Found d)"
inductive_cases stoppedE: "taken_down L N iv h Stopped"
inductive_cases secretGoneE: "taken_down L N iv h SecretGone"
inductive_cases configGoneE: "taken_down L N iv h ConfigGone"

text \<open>Nothing is written on the way but the deployment's replicas.\<close>

lemma taken_down_writes:
  "taken_down L N iv h st \<Longrightarrow> e \<in> set h \<Longrightarrow>
   (case e of
      EvUpdateDeployment d _ \<Rightarrow> dep_replicas d = Some 0
    | EvListAdopted _ _ \<Rightarrow> True | EvGetDeployment _ _ \<Rightarrow> True
    | EvGetSecret _ _ \<Rightarrow> True | EvGetConfigMap _ _ \<Rightarrow> True
    | _ \<Rightarrow> False)"
  by (induction arbitrary: e rule: taken_down.induct) auto

text \<open>
  The calls of a take-down that stops on the way: a stage reached, then the call that ended it.
\<close>

definition ends_in :: "stage \<Rightarrow> string \<Rightarrow> event list \<Rightarrow> bool" where
  "ends_in st N es \<longleftrightarrow>
     (case st of
        Unadopted \<Rightarrow> (\<exists>e. es = [EvGetDeployment (deployment_key N) (Inl e)])
      | Found d \<Rightarrow> (\<exists>e. es = [EvUpdateDeployment (d\<lparr>dep_replicas := Some 0\<rparr>) (Inl e)])
      | Stopped \<Rightarrow>
          (\<exists>e. es = [EvGetSecret \<lparr>k_namespace = N, k_name = secretName\<rparr> (Inl e)] \<and> \<not> IsNotFound e) \<or>
          (\<exists>sec r. es = [EvGetSecret \<lparr>k_namespace = N, k_name = secretName\<rparr> (Inr sec), EvDeleteSecret sec r])
      | SecretGone \<Rightarrow>
          (\<exists>e. es = [EvGetConfigMap \<lparr>k_namespace = N, k_name = configmapName\<rparr> (Inl e)] \<and> \<not> IsNotFound e) \<or>
          (\<exists>cm r. es = [EvGetConfigMap \<lparr>k_namespace = N, k_name = configmapName\<rparr> (Inr cm), EvDeleteConfigMap cm r])
      | ConfigGone \<Rightarrow> False)"

text \<open>
  All the histories of the check on an inventory being deleted: only deletions of its adopted
  resources, or a take-down that ends early, or a complete one that removes the finalizer.
\<close>

definition deletion_trace :: "'n lib_scheme \<Rightarrow> string \<Rightarrow> rds_inventory \<Rightarrow> event list \<Rightarrow> bool" where
  "deletion_trace L N iv h \<longleftrightarrow>
     (\<exists>e. h = [EvListAdopted (om_namespace (inv_meta iv)) (Inl e)]) \<or>
     (\<exists>items dels. h = EvListAdopted (om_namespace (inv_meta iv)) (Inr items) # dels \<and>
        list_ex (owned_adopted L iv) items \<and>
        list_all (\<lambda>e. \<exists>a r. e = EvDeleteAdopted a r \<and> a \<in> set items \<and> owned_adopted L iv a \<and>
          time_IsZero (om_deletionTimestamp (ad_meta a))) dels) \<or>
     (\<exists>st h1 es. h = h1 @ es \<and> taken_down L N iv h1 st \<and> ends_in st N es) \<or>
     (\<exists>h1 r. h = h1 @ [EvUpdateInventory (iv\<lparr>inv_meta := RemoveFinalizer L (inv_meta iv) inventoryFinalizer\<rparr>) r] \<and>
        taken_down L N iv h1 ConfigGone)"

definition reached ::
  "'n lib_scheme \<Rightarrow> string \<Rightarrow> rds_inventory \<Rightarrow> event list \<Rightarrow> stage \<Rightarrow> 'w inv_st \<Rightarrow> bool" where
  "reached L N iv h0 st t \<longleftrightarrow>
     (\<exists>h. history t = h0 @ h \<and> taken_down L N iv h st) \<and> iv_inventory t = iv"

definition ended :: "'n lib_scheme \<Rightarrow> string \<Rightarrow> rds_inventory \<Rightarrow> event list \<Rightarrow> 'w inv_st \<Rightarrow> bool" where
  "ended L N iv h0 t \<longleftrightarrow> (\<exists>h. history t = h0 @ h \<and> deletion_trace L N iv h)"

lemma reached_ends:
  assumes "reached L N iv h0 st s" "ends_in st N es" "history t = history s @ es"
  shows "ended L N iv h0 t"
proof -
  obtain h where "history s = h0 @ h" "taken_down L N iv h st" using assms(1) by (auto simp: reached_def)
  then have "history t = h0 @ (h @ es)" "deletion_trace L N iv (h @ es)"
    using assms(2,3) unfolding deletion_trace_def by (simp, blast)
  then show ?thesis unfolding ended_def by blast
qed

text \<open>The post-condition of a step of the take-down.\<close>

definition advances ::
  "'n lib_scheme \<Rightarrow> string \<Rightarrow> rds_inventory \<Rightarrow> event list \<Rightarrow> stage \<Rightarrow> flow \<Rightarrow> 'w inv_st \<Rightarrow> bool" where
  "advances L N iv h0 st f t \<longleftrightarrow>
     (f = Continue \<and> reached L N iv h0 st t) \<or> (f = Stop \<and> ended L N iv h0 t)"

lemma wp_delete_ack_secret:
  assumes s: "reached E N iv h0 Stopped s"
  shows "wp (delete_ack_secret E N) (advances E N iv h0 SecretGone) s"
proof -
  let ?k = "\<lparr>k_namespace = N, k_name = secretName\<rparr>"
  have gone: "reached E N iv h0 SecretGone (s\<lparr>world := w, history := history s @ [EvGetSecret ?k (Inl e)]\<rparr>)"
    if "IsNotFound e" for e w
    using s secret_gone [OF _ that] by (auto simp: reached_def)
  have ends: "ended E N iv h0 t" if "history t = history s @ es" "ends_in Stopped N es" for t :: "'a inv_st" and es
    using reached_ends [OF s] that by blast
  show ?thesis
    unfolding delete_ack_secret_def Let_def
    by (auto simp: wp_simps advances_def gone inv_frames split: sum.split option.split prod.split
        intro!: ends) (auto simp: ends_in_def)
qed

lemma wp_delete_ack_configmap:
  assumes s: "reached E N iv h0 SecretGone s"
  shows "wp (delete_ack_configmap E N) (advances E N iv h0 ConfigGone) s"
proof -
  let ?k = "\<lparr>k_namespace = N, k_name = configmapName\<rparr>"
  have gone: "reached E N iv h0 ConfigGone (s\<lparr>world := w, history := history s @ [EvGetConfigMap ?k (Inl e)]\<rparr>)"
    if "IsNotFound e" for e w
    using s config_gone [OF _ that] by (auto simp: reached_def)
  have ends: "ended E N iv h0 t" if "history t = history s @ es" "ends_in SecretGone N es" for t :: "'a inv_st" and es
    using reached_ends [OF s] that by blast
  show ?thesis
    unfolding delete_ack_configmap_def Let_def
    by (auto simp: wp_simps advances_def gone inv_frames split: sum.split option.split prod.split
        intro!: ends) (auto simp: ends_in_def)
qed

lemma wp_uninstall_controller:
  assumes s: "reached E N iv h0 Unadopted s"
  shows "wp (uninstall_controller E N (Suc n)) (advances E N iv h0 Stopped) s"
proof -
  let ?k = "deployment_key N"
  let ?t = "\<lambda>r w. s\<lparr>world := w, history := history s @ [EvGetDeployment ?k r]\<rparr>"
  have found': "reached E N iv h0 (Found d) (?t (Inr d) w)" for d w
    using s found by (fastforce simp: reached_def)
  have stopped': "reached E N iv h0 Stopped (?t (Inr d) w)" if "scaled_down d" for d w
    using found' [of d w] stopped [OF _ that] by (auto simp: reached_def)
  have scaled': "reached E N iv h0 Stopped t"
    if "\<not> scaled_down d" "iv_inventory t = iv" "history t = history s @
      [EvGetDeployment ?k (Inr d), EvUpdateDeployment (d\<lparr>dep_replicas := Some 0\<rparr>) (Inr d1)]"
    for d d1 and t :: "'a inv_st"
  proof -
    obtain h where h: "history s @ [EvGetDeployment ?k (Inr d)] = h0 @ h" "taken_down E N iv h (Found d)"
      using found' [of d undefined] by (auto simp: reached_def)
    then have "history t = h0 @ (h @ [EvUpdateDeployment (d\<lparr>dep_replicas := Some 0\<rparr>) (Inr d1)])"
      using that(3) by (metis append.assoc append_Cons append_Nil)
    with scaled [OF h(2) that(1)] that(2) show ?thesis unfolding reached_def by blast
  qed
  have test: "(case dep_replicas d of None \<Rightarrow> True | Some i \<Rightarrow> 0 <s i) = (\<not> scaled_down d)" for d :: deployment
    by (simp add: scaled_down_def split: option.split)
  have iv: "iv_inventory s = iv" using s by (simp add: reached_def)
  have ends: "ended E N iv h0 t" if "history t = history s @ [EvGetDeployment ?k (Inl e)]" for t :: "'a inv_st" and e
    using reached_ends [OF s _ that] by (simp add: ends_in_def)
  have ends2: "ended E N iv h0 t"
    if "history t = history s @ [EvGetDeployment ?k (Inr d), EvUpdateDeployment (d\<lparr>dep_replicas := Some 0\<rparr>) (Inl e)]"
    for t :: "'a inv_st" and d e
    using reached_ends [OF found' [of d undefined], of "[EvUpdateDeployment (d\<lparr>dep_replicas := Some 0\<rparr>) (Inl e)]" t] that
    by (auto simp: ends_in_def)
  show ?thesis
    unfolding uninstall_controller_def stopRDSController_def scale_deployment_def wp_bind
      wp_get_deployment_once Let_def
    by (rule wp_api_any)
      (auto simp: wp_simps advances_def inv_frames test iv stopped'
        split: sum.split option.split prod.split intro: ends ends2 intro!: scaled')
qed

text \<open>The deletion loop, with what it has done to the adopted resources seen so far.\<close>

definition deleting_adopted ::
  "'n lib_scheme \<Rightarrow> rds_inventory \<Rightarrow> event list \<Rightarrow> adopted_resource list \<Rightarrow> adopted_resource list \<Rightarrow>
   'w inv_st \<Rightarrow> bool" where
  "deleting_adopted L iv h items us t \<longleftrightarrow>
     iv_inventory t = iv \<and> iv_deleting t = list_ex (owned_adopted L iv) us \<and>
     (list_ex (owned_adopted L iv) us \<or> history t = h) \<and>
     logged (\<lambda>e. \<exists>a r. e = EvDeleteAdopted a r \<and> a \<in> set items \<and> owned_adopted L iv a \<and>
        time_IsZero (om_deletionTimestamp (ad_meta a))) h t"

lemma wp_delete_adopted:
  assumes s: "deleting_adopted E iv h items us s" and a: "a \<in> set items"
  shows "wp (delete_adopted E iv a) (\<lambda>f t.
      (f = Continue \<and> deleting_adopted E iv h items (us @ [a]) t) \<or>
      (f = Stop \<and> owned_adopted E iv a \<and>
       logged (\<lambda>e. \<exists>a r. e = EvDeleteAdopted a r \<and> a \<in> set items \<and> owned_adopted E iv a \<and>
        time_IsZero (om_deletionTimestamp (ad_meta a))) h t)) s"
proof -
  obtain l where l: "history s = h @ l" "list_all (\<lambda>e. \<exists>a r. e = EvDeleteAdopted a r \<and> a \<in> set items \<and>
      owned_adopted E iv a \<and> time_IsZero (om_deletionTimestamp (ad_meta a))) l"
    using s by (auto simp: deleting_adopted_def)
  show ?thesis
    using s a l unfolding delete_adopted_def
    by (auto simp: wp_simps deleting_adopted_def inv_frames split: option.split prod.split)
qed

lemma wp_delete_adopted_resources:
  assumes "iv_inventory s = iv"
  shows "wp (delete_adopted_resources E) (advances E N iv (history s) Unadopted) s"
  unfolding delete_adopted_resources_def wp_bind wp_get Let_def assms
proof (rule wp_api_any)
  fix r w
  let ?ns = "om_namespace (inv_meta iv)"
  let ?s = "s\<lparr>world := w, history := history s @ [EvListAdopted ?ns r]\<rparr>"
  show "wp (case r of
        Inl e \<Rightarrow> inv_backend e ''Failed to delete AdoptedResource''
      | Inr items \<Rightarrow> State_Monad.update (\<lambda>s. s\<lparr>iv_deleting := False\<rparr>) \<bind> (\<lambda>_.
          andThen (for_each (delete_adopted E iv) items) (State_Monad.get \<bind> (\<lambda>t.
            if iv_deleting t then stop_with inv_returnUpdating else State_Monad.return Continue))))
      (advances E N iv (history s) Unadopted) ?s"
  proof (cases r)
    case (Inl e)
    then show ?thesis
      by (auto simp: wp_simps advances_def ended_def deletion_trace_def inv_frames)
  next
    case (Inr items)
    let ?P = "\<lambda>e. \<exists>a r. e = EvDeleteAdopted a r \<and> a \<in> set items \<and> owned_adopted E iv a \<and>
        time_IsZero (om_deletionTimestamp (ad_meta a))"
    have some: "ended E N iv (history s) t"
      if "logged ?P (history ?s) t" "list_ex (owned_adopted E iv) items" for t :: "'a inv_st"
      using that unfolding ended_def deletion_trace_def Inr by fastforce
    have none: "reached E N iv (history s) Unadopted t"
      if "history t = history ?s" "iv_inventory t = iv" "\<not> list_ex (owned_adopted E iv) items" for t :: "'a inv_st"
      using that unfolding reached_def Inr by (auto intro: taken_down.listed simp: list_all_iff list_ex_iff)
    have loop: "wp (for_each (delete_adopted E iv) items)
        (\<lambda>f t. (f = Continue \<and> deleting_adopted E iv (history ?s) items items t) \<or>
               (f = Stop \<and> list_ex (owned_adopted E iv) items \<and> logged ?P (history ?s) t))
        (?s\<lparr>iv_deleting := False\<rparr>)"
    proof (rule wp_for_each [where I = "deleting_adopted E iv (history ?s) items"])
      show "deleting_adopted E iv (history ?s) items [] (?s\<lparr>iv_deleting := False\<rparr>)"
        using assms by (simp add: deleting_adopted_def)
    next
      fix us a vs and t :: "'a inv_st"
      assume "items = us @ a # vs" and t: "deleting_adopted E iv (history ?s) items us t"
      then show "wp (delete_adopted E iv a) (\<lambda>f t. if f = Continue
            then deleting_adopted E iv (history ?s) items (us @ [a]) t
            else (f = Continue \<and> deleting_adopted E iv (history ?s) items items t) \<or>
                 (f = Stop \<and> list_ex (owned_adopted E iv) items \<and> logged ?P (history ?s) t)) t"
        by (intro wp_mono [OF wp_delete_adopted [OF t]]) auto
    qed simp
    have after: "wp (State_Monad.get \<bind> (\<lambda>t. if iv_deleting t then stop_with inv_returnUpdating
        else State_Monad.return Continue)) (advances E N iv (history s) Unadopted) t"
      if d: "deleting_adopted E iv (history ?s) items items t" for t :: "'a inv_st"
    proof (cases "list_ex (owned_adopted E iv) items")
      case True
      then have "ended E N iv (history s) (inv_returnUpdating t)"
        by (intro some) (use d in \<open>simp_all add: deleting_adopted_def inv_frames\<close>)
      then show ?thesis using True d by (simp add: wp_simps deleting_adopted_def advances_def)
    next
      case False
      with d have "reached E N iv (history s) Unadopted t"
        by (intro none) (simp_all add: deleting_adopted_def)
      then show ?thesis using False d by (simp add: wp_simps deleting_adopted_def advances_def)
    qed
    have "wp (andThen (for_each (delete_adopted E iv) items) (State_Monad.get \<bind> (\<lambda>t.
        if iv_deleting t then stop_with inv_returnUpdating else State_Monad.return Continue)))
        (advances E N iv (history s) Unadopted) (?s\<lparr>iv_deleting := False\<rparr>)"
      unfolding wp_andThen by (rule wp_mono [OF loop]) (auto intro: after some simp: advances_def)
    then show ?thesis by (simp only: Inr sum.case wp_bind wp_update)
  qed
qed

text \<open>The whole check on an inventory that is being deleted and carries the finalizer.\<close>

lemma wp_advance:
  assumes "wp m (advances L N iv h0 st) s"
    and "\<And>t. reached L N iv h0 st t \<Longrightarrow> wp k (\<lambda>f t. f = Stop \<and> ended L N iv h0 t) t"
  shows "wp (andThen m k) (\<lambda>f t. f = Stop \<and> ended L N iv h0 t) s"
  unfolding wp_andThen
  by (rule wp_mono [OF assms(1)]) (auto simp: advances_def intro: assms(2))

lemma wp_inv_removeFinalizer:
  assumes "reached E N iv h0 ConfigGone s"
  shows "wp (inv_removeFinalizer E) (\<lambda>f t. f = Stop \<and> ended E N iv h0 t) s"
proof -
  obtain h where h: "history s = h0 @ h" "taken_down E N iv h ConfigGone" "iv_inventory s = iv"
    using assms by (auto simp: reached_def)
  then have "ended E N iv h0 t"
    if "history t = history s @ [EvUpdateInventory (iv\<lparr>inv_meta := RemoveFinalizer E (inv_meta iv) inventoryFinalizer\<rparr>) r]"
    for t :: "'a inv_st" and r
    using that unfolding ended_def deletion_trace_def by auto
  then show ?thesis
    using h by (auto simp: inv_removeFinalizer_def wp_simps inv_frames split: sum.split prod.split)
qed

lemma wp_inv_deletion:
  assumes "\<not> inv_live (iv_inventory s)" "inv_guarded E (iv_inventory s)"
  shows "wp (inv_checkFinalizer E N (Suc n))
    (\<lambda>f t. f = Stop \<and> ended E N (iv_inventory s) (history s) t) s"
proof -
  let ?iv = "iv_inventory s" and ?h = "history s"
  have "wp (andThen (delete_adopted_resources E) (andThen (uninstall_controller E N (Suc n))
      (andThen (delete_ack_secret E N) (andThen (delete_ack_configmap E N) (inv_removeFinalizer E)))))
      (\<lambda>f t. f = Stop \<and> ended E N ?iv ?h t) s"
    by (intro wp_advance [OF wp_delete_adopted_resources [OF refl]] wp_advance [OF wp_uninstall_controller]
        wp_advance [OF wp_delete_ack_secret] wp_advance [OF wp_delete_ack_configmap] wp_inv_removeFinalizer)
  then show ?thesis using assms by (simp add: inv_checkFinalizer_def wp_bind wp_get Let_def)
qed

end
