(* ===== verification/InstanceSpecFacts.thy ===== *)
theory InstanceSpecFacts
  imports InstanceSpec
begin

text \<open>
  What \<open>setDBInstanceSpec\<close> and \<open>setCredentials\<close> compute: the parameters are accepted exactly when
  they meet a declarative condition, the specification is then a fixed function of them, and
  the only objects the credentials code touches are the credential secret it may read, create
  with a strong password, or complete with one.
\<close>

section \<open>Parameters\<close>

definition valid_params :: "smap \<Rightarrow> bool" where
  "valid_params p \<longleftrightarrow>
     p engine_key \<noteq> None \<and> p dbInstanceIdentifier_key \<noteq> None \<and> p dbInstanceClass_key \<noteq> None \<and>
     (case p allocatedStorage_key of None \<Rightarrow> False | Some v \<Rightarrow> ParseInt v \<noteq> None) \<and>
     (case p iops_key of None \<Rightarrow> True | Some v \<Rightarrow> ParseInt v \<noteq> None) \<and>
     (case p maxAllocatedStorage_key of None \<Rightarrow> True | Some v \<Rightarrow> ParseInt v \<noteq> None) \<and>
     (case p publiclyAccessible_key of None \<Rightarrow> True | Some v \<Rightarrow> ParseBool v \<noteq> None)"

text \<open>A parameter that is set replaces the field, one that is not leaves it.\<close>

definition or_keep :: "'a option \<Rightarrow> 'a option \<Rightarrow> 'a option" where
  "or_keep new old = (case new of None \<Rightarrow> old | Some v \<Rightarrow> Some v)"

lemma or_keep_simps [simp]: "or_keep None old = old" "or_keep (Some v) old = Some v"
  by (simp_all add: or_keep_def)

definition keep_list :: "'a list option \<Rightarrow> 'a list \<Rightarrow> 'a list" where
  "keep_list new old = (case new of None \<Rightarrow> old | Some v \<Rightarrow> v)"

definition apply_params :: "smap \<Rightarrow> db_instance_spec \<Rightarrow> db_instance_spec" where
  "apply_params p sp = sp\<lparr>
     sp_engine := or_keep (p engine_key) (sp_engine sp),
     sp_engineVersion := or_keep (p engineVersion_key) (sp_engineVersion sp),
     sp_dbInstanceIdentifier := or_keep (p dbInstanceIdentifier_key) (sp_dbInstanceIdentifier sp),
     sp_dbInstanceClass := or_keep (p dbInstanceClass_key) (sp_dbInstanceClass sp),
     sp_storageType := or_keep (p storageType_key) (sp_storageType sp),
     sp_allocatedStorage := or_keep (Option.bind (p allocatedStorage_key) ParseInt) (sp_allocatedStorage sp),
     sp_iops := or_keep (Option.bind (p iops_key) ParseInt) (sp_iops sp),
     sp_maxAllocatedStorage := or_keep (Option.bind (p maxAllocatedStorage_key) ParseInt) (sp_maxAllocatedStorage sp),
     sp_dbSubnetGroupName := or_keep (p dbSubnetGroupName_key) (sp_dbSubnetGroupName sp),
     sp_publiclyAccessible := or_keep (Option.bind (p publiclyAccessible_key) ParseBool) (sp_publiclyAccessible sp),
     sp_vpcSecurityGroupIDs :=
       keep_list (map_option security_groups (p vpcSecurityGroupIDs_key)) (sp_vpcSecurityGroupIDs sp),
     sp_licenseModel := or_keep (p licenseModel_key) (sp_licenseModel sp)\<rparr>"

lemmas step_defs = required_string_def optional_string_def required_int_def optional_int_def
  optional_bool_def

lemma run_steps_Cons_Inr:
  "run_steps (f # fs) p sp = Inr sp' \<longleftrightarrow> (\<exists>sp1. f p sp = Inr sp1 \<and> run_steps fs p sp1 = Inr sp')"
  by (simp split: sum.splits)

text \<open>Each block succeeds under its own condition, and sets its own field.\<close>

lemma step_iff:
  "required_string engine_key (\<lambda>v sp. sp\<lparr>sp_engine := Some v\<rparr>) p sp = Inr sp' \<longleftrightarrow>
     p engine_key \<noteq> None \<and> sp' = sp\<lparr>sp_engine := or_keep (p engine_key) (sp_engine sp)\<rparr>"
  "optional_string engineVersion_key (\<lambda>v sp. sp\<lparr>sp_engineVersion := Some v\<rparr>) p sp = Inr sp' \<longleftrightarrow>
     True \<and> sp' = sp\<lparr>sp_engineVersion := or_keep (p engineVersion_key) (sp_engineVersion sp)\<rparr>"
  "required_string dbInstanceIdentifier_key (\<lambda>v sp. sp\<lparr>sp_dbInstanceIdentifier := Some v\<rparr>) p sp = Inr sp' \<longleftrightarrow>
     p dbInstanceIdentifier_key \<noteq> None \<and> sp' = sp\<lparr>sp_dbInstanceIdentifier := or_keep (p dbInstanceIdentifier_key) (sp_dbInstanceIdentifier sp)\<rparr>"
  "required_string dbInstanceClass_key (\<lambda>v sp. sp\<lparr>sp_dbInstanceClass := Some v\<rparr>) p sp = Inr sp' \<longleftrightarrow>
     p dbInstanceClass_key \<noteq> None \<and> sp' = sp\<lparr>sp_dbInstanceClass := or_keep (p dbInstanceClass_key) (sp_dbInstanceClass sp)\<rparr>"
  "optional_string storageType_key (\<lambda>v sp. sp\<lparr>sp_storageType := Some v\<rparr>) p sp = Inr sp' \<longleftrightarrow>
     True \<and> sp' = sp\<lparr>sp_storageType := or_keep (p storageType_key) (sp_storageType sp)\<rparr>"
  "required_int allocatedStorage_key (\<lambda>v sp. sp\<lparr>sp_allocatedStorage := Some v\<rparr>) p sp = Inr sp' \<longleftrightarrow>
     (case p allocatedStorage_key of None \<Rightarrow> False | Some v \<Rightarrow> ParseInt v \<noteq> None) \<and> sp' = sp\<lparr>sp_allocatedStorage := or_keep (Option.bind (p allocatedStorage_key) ParseInt) (sp_allocatedStorage sp)\<rparr>"
  "optional_int iops_key (\<lambda>v sp. sp\<lparr>sp_iops := Some v\<rparr>) p sp = Inr sp' \<longleftrightarrow>
     (case p iops_key of None \<Rightarrow> True | Some v \<Rightarrow> ParseInt v \<noteq> None) \<and> sp' = sp\<lparr>sp_iops := or_keep (Option.bind (p iops_key) ParseInt) (sp_iops sp)\<rparr>"
  "optional_int maxAllocatedStorage_key (\<lambda>v sp. sp\<lparr>sp_maxAllocatedStorage := Some v\<rparr>) p sp = Inr sp' \<longleftrightarrow>
     (case p maxAllocatedStorage_key of None \<Rightarrow> True | Some v \<Rightarrow> ParseInt v \<noteq> None) \<and> sp' = sp\<lparr>sp_maxAllocatedStorage := or_keep (Option.bind (p maxAllocatedStorage_key) ParseInt) (sp_maxAllocatedStorage sp)\<rparr>"
  "optional_string dbSubnetGroupName_key (\<lambda>v sp. sp\<lparr>sp_dbSubnetGroupName := Some v\<rparr>) p sp = Inr sp' \<longleftrightarrow>
     True \<and> sp' = sp\<lparr>sp_dbSubnetGroupName := or_keep (p dbSubnetGroupName_key) (sp_dbSubnetGroupName sp)\<rparr>"
  "optional_bool publiclyAccessible_key (\<lambda>v sp. sp\<lparr>sp_publiclyAccessible := Some v\<rparr>) p sp = Inr sp' \<longleftrightarrow>
     (case p publiclyAccessible_key of None \<Rightarrow> True | Some v \<Rightarrow> ParseBool v \<noteq> None) \<and> sp' = sp\<lparr>sp_publiclyAccessible := or_keep (Option.bind (p publiclyAccessible_key) ParseBool) (sp_publiclyAccessible sp)\<rparr>"
  "optional_string licenseModel_key (\<lambda>v sp. sp\<lparr>sp_licenseModel := Some v\<rparr>) p sp = Inr sp' \<longleftrightarrow>
     True \<and> sp' = sp\<lparr>sp_licenseModel := or_keep (p licenseModel_key) (sp_licenseModel sp)\<rparr>"
  "optional_string vpcSecurityGroupIDs_key (\<lambda>v sp. sp\<lparr>sp_vpcSecurityGroupIDs := security_groups v\<rparr>) p sp =
       Inr sp' \<longleftrightarrow>
     sp' = sp\<lparr>sp_vpcSecurityGroupIDs :=
       keep_list (map_option security_groups (p vpcSecurityGroupIDs_key)) (sp_vpcSecurityGroupIDs sp)\<rparr>"
  by (auto simp: step_defs or_keep_def keep_list_def split: option.splits)

lemma run_param_steps:
  "run_steps param_steps p sp = Inr sp' \<longleftrightarrow> valid_params p \<and> sp' = apply_params p sp"
  unfolding param_steps_def run_steps_Cons_Inr step_iff valid_params_def apply_params_def
  by (simp del: not_None_eq cong: conj_cong) metis

text \<open>
  The error of each block, \<open>None\<close> where the block cannot fail on these parameters; the error
  of \<open>setDBInstanceSpec\<close> is the first of them.
\<close>

definition check_present :: "string \<Rightarrow> smap \<Rightarrow> error option" where
  "check_present k p = (if p k = None then Some (requiredParameterError k) else None)"

definition check_parse :: "(string \<Rightarrow> 'a option) \<Rightarrow> string \<Rightarrow> smap \<Rightarrow> error option" where
  "check_parse parse k p =
     (case p k of None \<Rightarrow> None
      | Some v \<Rightarrow> if parse v = None then Some (invalidParameterError k) else None)"

definition param_checks :: "smap \<Rightarrow> error option list" where
  "param_checks p =
     [check_present engine_key p, None, check_present dbInstanceIdentifier_key p,
      check_present dbInstanceClass_key p, None,
      (if p allocatedStorage_key = None then check_present allocatedStorage_key p
       else check_parse ParseInt allocatedStorage_key p),
      check_parse ParseInt iops_key p, check_parse ParseInt maxAllocatedStorage_key p, None,
      check_parse ParseBool publiclyAccessible_key p, None, None]"

fun first_error :: "error option list \<Rightarrow> error option" where
  "first_error [] = None"
| "first_error (None # cs) = first_error cs"
| "first_error (Some e # cs) = Some e"

lemma run_steps_first_error:
  assumes "list_all2 (\<lambda>f c. \<forall>sp. case c of Some e \<Rightarrow> f p sp = Inl e | None \<Rightarrow> \<exists>sp'. f p sp = Inr sp') fs cs"
  shows "run_steps fs p sp = Inl e \<longleftrightarrow> first_error cs = Some e"
  using assms
proof (induction fs cs arbitrary: sp rule: list_all2_induct)
  case (Cons f fs c cs)
  show ?case
  proof (cases c)
    case None
    then obtain sp' where "f p sp = Inr sp'" using Cons.hyps by fastforce
    with None Cons.IH show ?thesis by simp
  next
    case (Some e')
    with Cons.hyps have "f p sp = Inl e'" by simp
    with Some show ?thesis by simp
  qed
qed simp

definition checks_step :: "smap \<Rightarrow> spec_step \<Rightarrow> error option \<Rightarrow> bool" where
  "checks_step p f c \<longleftrightarrow>
     (\<forall>sp. case c of Some e \<Rightarrow> f p sp = Inl e | None \<Rightarrow> \<exists>sp'. f p sp = Inr sp')"

lemma checks_step_shapes:
  "checks_step p (required_string k u1) (check_present k p)"
  "checks_step p (optional_string k u1) None"
  "checks_step p (required_int k u2)
     (if p k = None then check_present k p else check_parse ParseInt k p)"
  "checks_step p (optional_int k u2) (check_parse ParseInt k p)"
  "checks_step p (optional_bool k u3) (check_parse ParseBool k p)"
  by (auto simp: checks_step_def step_defs check_present_def check_parse_def split: option.splits)

lemma run_param_steps_error:
  "run_steps param_steps p sp = Inl e \<longleftrightarrow> first_error (param_checks p) = Some e"
proof (rule run_steps_first_error)
  have "list_all2 (checks_step p) param_steps (param_checks p)"
    unfolding param_steps_def param_checks_def
    by (intro list.rel_intros checks_step_shapes)
  then show "list_all2 (\<lambda>f c. \<forall>sp. case c of Some e \<Rightarrow> f p sp = Inl e | None \<Rightarrow> \<exists>sp'. f p sp = Inr sp')
      param_steps (param_checks p)"
    by (simp add: checks_step_def [abs_def])
qed

section \<open>Credentials\<close>

lemma does_generatePassword:
  "does P (generatePassword E) (\<lambda>r. case r of None \<Rightarrow> True | Some pw \<Rightarrow> strong_password pw)"
  unfolding does_def by (auto intro: wp_mono [OF wp_generatePassword] extends_world)

lemma does_password_bind [does_intros]:
  assumes "does P (f None) R" and "\<And>pw. strong_password pw \<Longrightarrow> does P (f (Some pw)) R"
  shows "does P (generatePassword E \<bind> f) R"
  by (rule does_bind [OF does_generatePassword]) (use assms in \<open>auto split: option.splits\<close>)

text \<open>
  The calls the credentials code makes for one instance: it reads the secret \<open>k\<close>, creates it
  with a strong password and the operator's labels, or updates a secret that had no password,
  keeping its other entries.
\<close>

definition credential_call :: "'n lib_scheme \<Rightarrow> key \<Rightarrow> kobject option \<Rightarrow> string \<Rightarrow> event \<Rightarrow> bool" where
  "credential_call L k owner kind e =
     (case e of
        EvGetSecret k' _ \<Rightarrow> k' = k
      | EvCreateSecret sec _ \<Rightarrow>
          (\<exists>pw. strong_password pw \<and> sec_data sec = Some [''password'' \<mapsto> pw]) \<and>
          (case owner of
             None \<Rightarrow> object_key (sec_meta sec) = k \<and> om_labels (sec_meta sec) = createSecretLabels L owner kind
           | Some ow \<Rightarrow> SetControllerReference L ow
               (empty_meta\<lparr>om_name := k_name k, om_namespace := k_namespace k,
                  om_labels := createSecretLabels L owner kind\<rparr>) = Inr (sec_meta sec))
      | EvUpdateSecret sec _ \<Rightarrow>
          (\<exists>m pw. m ''password'' = None \<and> strong_password pw \<and> sec_data sec = Some (m(''password'' \<mapsto> pw)))
      | _ \<Rightarrow> False)"

text \<open>Every secret the code hands on has a password; a call result comes from the server.\<close>

lemma does_create_credentials:
  "does (credential_call E \<lparr>k_namespace = ns, k_name = nm\<rparr> owner kind)
     (create_credentials E nm ns owner kind) (\<lambda>_. True)"
  unfolding create_credentials_def
  by (intro does_intros)
    (auto simp: credential_call_def object_key_def empty_meta_def split: option.splits sum.splits)

lemma does_ensure_password:
  "does (credential_call E k owner kind) (ensure_password E sec) (\<lambda>_. True)"
  unfolding ensure_password_def
  by (intro does_intros) (auto simp: credential_call_def)

text \<open>The specification \<open>setCredentials\<close> leaves: the user is kept or chosen by engine.\<close>

definition with_credentials :: "string \<Rightarrow> db_instance \<Rightarrow> db_instance \<Rightarrow> bool" where
  "with_credentials ns db db' \<longleftrightarrow>
     (\<exists>u. db' = db\<lparr>db_spec := (db_spec db)\<lparr>
        sp_masterUsername := Some u,
        sp_masterUserPassword := Some \<lparr>skr_name = credentials_name (om_name (db_meta db)),
          skr_namespace = ns, skr_key = ''password''\<rparr>\<rparr>\<rparr> \<and>
      (case sp_masterUsername (db_spec db) of
         Some old \<Rightarrow> u = old
       | None \<Rightarrow> (\<exists>eng. sp_engine (db_spec db) = Some eng \<and> u = generateUsername eng)))"

text \<open>The last part of \<open>setCredentials\<close>: no call, only the two fields.\<close>

lemma does_set_user:
  "does P (case (sp_masterUsername sp, sp_engine sp) of
       (Some _, _) \<Rightarrow> State_Monad.return (Ret (sec, db\<lparr>db_spec := sp\<lparr>sp_masterUserPassword := Some ref\<rparr>\<rparr>))
     | (None, None) \<Rightarrow> State_Monad.return Panics
     | (None, Some eng) \<Rightarrow> State_Monad.return (Ret (sec,
         db\<lparr>db_spec := sp\<lparr>sp_masterUsername := Some (generateUsername eng), sp_masterUserPassword := Some ref\<rparr>\<rparr>)))
     (\<lambda>r. case r of
        Ret (_, db') \<Rightarrow> (\<exists>u. db' = db\<lparr>db_spec := sp\<lparr>sp_masterUsername := Some u, sp_masterUserPassword := Some ref\<rparr>\<rparr> \<and>
          (case sp_masterUsername sp of Some old \<Rightarrow> u = old
           | None \<Rightarrow> (\<exists>eng. sp_engine sp = Some eng \<and> u = generateUsername eng)))
      | _ \<Rightarrow> True)"
  by (cases "sp_masterUsername sp"; cases "sp_engine sp"; cases sp) (auto intro!: does_return)

lemma does_setCredentials:
  "does (credential_call E \<lparr>k_namespace = ns, k_name = credentials_name (om_name (db_meta db))\<rparr> owner kind)
     (setCredentials E db ns owner kind)
     (\<lambda>r. case r of Ret (_, db') \<Rightarrow> with_credentials ns db db' | _ \<Rightarrow> True)"
  (is "does ?P _ ?R")
proof -
  let ?nm = "credentials_name (om_name (db_meta db))"
  have step: "does ?P (case r of Inr sec \<Rightarrow> State_Monad.return (Ret sec)
      | Inl e \<Rightarrow> if IsNotFound e then create_credentials E ?nm ns owner kind else State_Monad.return (Err e))
      (\<lambda>_. True)" for r :: "error + secret"
    by (cases r) (auto intro: does_return does_create_credentials)
  show ?thesis
    unfolding setCredentials_def Let_def
    apply (rule does_api_bind, simp add: credential_call_def)
    apply (rule does_bind [OF step])
    apply (rule does_case_outcome)
      apply (rule does_bind [OF does_ensure_password])
      apply (rule does_case_outcome)
        apply (rule does_weaken [OF does_set_user])
        apply (simp add: with_credentials_def split: outcome.splits prod.splits)
       apply (auto intro: does_return)
    done
qed

section \<open>The specification\<close>

text \<open>
  The DB instance \<open>db'\<close> that \<open>setDBInstanceSpec\<close> makes of \<open>db\<close> for the RDSInstance \<open>ri\<close>: the
  parameters applied, the credentials referenced, the database named after the engine, the
  availability zone taken from the cloud region, and nothing else changed.
\<close>

definition desired_db :: "rds_instance \<Rightarrow> db_instance \<Rightarrow> db_instance \<Rightarrow> bool" where
  "desired_db ri db db' \<longleftrightarrow>
     valid_params (ri_otherInstanceParams ri) \<and>
     (\<exists>u eng. ri_otherInstanceParams ri engine_key = Some eng \<and>
        u = (case sp_masterUsername (db_spec db) of Some old \<Rightarrow> old | None \<Rightarrow> generateUsername eng) \<and>
        db' = db\<lparr>db_spec := (apply_params (ri_otherInstanceParams ri) (db_spec db))\<lparr>
          sp_masterUsername := Some u,
          sp_masterUserPassword := Some \<lparr>skr_name = credentials_name (om_name (db_meta db)),
            skr_namespace = om_namespace (ri_meta ri), skr_key = ''password''\<rparr>,
          sp_dbName := generateDBName eng,
          sp_availabilityZone := Some (ri_cloudRegion ri)\<rparr>\<rparr>)"

definition spec_error :: "rds_instance \<Rightarrow> error \<Rightarrow> bool" where
  "spec_error ri e \<longleftrightarrow>
     first_error (param_checks (ri_otherInstanceParams ri)) = Some e \<or>
     valid_params (ri_otherInstanceParams ri) \<and>
       e = PlainError ''failed to set credentials for DB instance''"

abbreviation spec_call :: "('w, 'n) env_scheme \<Rightarrow> string \<Rightarrow> rds_instance \<Rightarrow> event \<Rightarrow> bool" where
  "spec_call E nm ri \<equiv> credential_call E
     \<lparr>k_namespace = om_namespace (ri_meta ri), k_name = credentials_name nm\<rparr>
     (Some (OwnerInstance ri)) (ri_kind ri)"

lemma desired_db_intro:
  assumes "valid_params (ri_otherInstanceParams ri)"
    and "with_credentials (om_namespace (ri_meta ri))
           (db\<lparr>db_spec := apply_params (ri_otherInstanceParams ri) (db_spec db)\<rparr>) db1"
    and "sp_engine (db_spec db1) = Some eng"
  shows "desired_db ri db (db1\<lparr>db_spec := (db_spec db1)\<lparr>sp_dbName := generateDBName eng,
           sp_availabilityZone := Some (ri_cloudRegion ri)\<rparr>\<rparr>)"
proof -
  let ?p = "ri_otherInstanceParams ri"
  obtain e0 where e: "?p engine_key = Some e0" using assms(1) by (auto simp: valid_params_def)
  have u: "sp_masterUsername (apply_params ?p (db_spec db)) = sp_masterUsername (db_spec db)"
    and g: "sp_engine (apply_params ?p (db_spec db)) = Some e0"
    using e by (simp_all add: apply_params_def)
  then show ?thesis
    using assms e unfolding with_credentials_def desired_db_def
    by (auto split: option.splits)
qed

lemma does_setDBInstanceSpec:
  "does (spec_call E (om_name (db_meta db)) ri) (setDBInstanceSpec E db ri)
     (\<lambda>r. case r of Ret db' \<Rightarrow> desired_db ri db db' | Err e \<Rightarrow> spec_error ri e | Panics \<Rightarrow> True)"
proof (cases "run_steps param_steps (ri_otherInstanceParams ri) (db_spec db)")
  case (Inl e)
  then show ?thesis
    unfolding setDBInstanceSpec_def Inl sum.case
    by (intro does_return) (use Inl in \<open>simp add: spec_error_def run_param_steps_error\<close>)
next
  case (Inr sp)
  then have v: "valid_params (ri_otherInstanceParams ri)"
    and sp: "sp = apply_params (ri_otherInstanceParams ri) (db_spec db)"
    by (simp_all add: run_param_steps)
  have same: "db_meta (db\<lparr>db_spec := sp\<rparr>) = db_meta db" by simp
  have "does (spec_call E (om_name (db_meta db)) ri)
      (setCredentials E (db\<lparr>db_spec := sp\<rparr>) (om_namespace (ri_meta ri)) (Some (OwnerInstance ri)) (ri_kind ri))
      (\<lambda>r. case r of Ret (_, db') \<Rightarrow> with_credentials (om_namespace (ri_meta ri)) (db\<lparr>db_spec := sp\<rparr>) db' | _ \<Rightarrow> True)"
    using does_setCredentials [where db = "db\<lparr>db_spec := sp\<rparr>"] unfolding same .
  then show ?thesis
    unfolding setDBInstanceSpec_def Inr sum.case
    by (rule does_bind)
      (use v sp in \<open>auto intro!: does_return simp: spec_error_def desired_db_intro
         split: outcome.splits option.splits prod.splits\<close>)
qed

end
