(* ===== verification/CallLog.thy ===== *)
theory CallLog
  imports KubeClient
begin

text \<open>
  A Hoare logic for the reconcilers: \<open>runs P I m R\<close> says that \<open>m\<close>, started in a state that
  satisfies \<open>I\<close>, ends with \<open>R\<close>, and that \<open>P h e\<close> holds of every call \<open>e\<close> it makes, \<open>h\<close> being
  the calls made before. Its rules follow the structure of the program, so that a step of a
  controller is proved by \<open>intro\<close> and the obligations at its calls and exits.
\<close>

section \<open>Histories in which every call is justified by the ones before it\<close>

inductive grows :: "('e list \<Rightarrow> 'e \<Rightarrow> bool) \<Rightarrow> 'e list \<Rightarrow> 'e list \<Rightarrow> bool" for P h where
  grows_refl: "grows P h h"
| grows_call: "grows P h h' \<Longrightarrow> P h' e \<Longrightarrow> grows P h (h' @ [e])"

lemma grows_one: "P h e \<Longrightarrow> grows P h (h @ [e])"
  by (rule grows_call [OF grows_refl])

lemma grows_trans: "grows P h h1 \<Longrightarrow> grows P h1 h2 \<Longrightarrow> grows P h h2"
  by (rotate_tac, induction rule: grows.induct) (auto intro: grows.intros)

lemma grows_prefix: "grows P h h' \<Longrightarrow> \<exists>l. h' = h @ l"
  by (induction rule: grows.induct) auto

text \<open>Every call made since \<open>h\<close> was justified when it was made.\<close>

lemma grows_justified:
  assumes "grows P h h'" and "h' = h @ l1 @ e # l2"
  shows "P (h @ l1) e"
  using assms
proof (induction arbitrary: l2 rule: grows.induct)
  case grows_refl
  then show ?case by simp
next
  case (grows_call h' e')
  show ?case
  proof (cases l2 rule: rev_cases)
    case Nil
    then show ?thesis using grows_call by simp
  next
    case (snoc l2' x)
    then have "h' = h @ l1 @ e # l2'" using grows_call.prems by simp
    then show ?thesis by (rule grows_call.IH)
  qed
qed

lemma grows_in:
  assumes "grows P h h'" "e \<in> set h'" "e \<notin> set h"
  shows "\<exists>l1 l2. h' = h @ l1 @ e # l2 \<and> P (h @ l1) e"
proof -
  obtain l where l: "h' = h @ l" using grows_prefix [OF assms(1)] by blast
  with assms obtain l1 l2 where "l = l1 @ e # l2" by (auto dest: split_list)
  with l assms(1) show ?thesis by (blast intro: grows_justified)
qed

lemma grows_mono:
  assumes "grows P h h'" and "\<And>l e. P (h @ l) e \<Longrightarrow> Q (h @ l) e"
  shows "grows Q h h'"
  using assms(1)
proof (induction rule: grows.induct)
  case (grows_call h' e)
  obtain l where "h' = h @ l" using grows_prefix [OF grows_call.hyps(1)] by blast
  then have "Q h' e" using grows_call.hyps(2) assms(2) by blast
  with grows_call.IH show ?case by (rule grows.grows_call)
qed (rule grows_refl)

section \<open>Triples\<close>

named_theorems runs_intros \<open>rules that follow the structure of a step of a controller\<close>

text \<open>An assertion that calls leave true: it may remember the calls already made.\<close>

definition stable :: "(('w, 'e, 'm) gst_scheme \<Rightarrow> bool) \<Rightarrow> bool" where
  "stable I \<longleftrightarrow> (\<forall>s w h. I s \<longrightarrow> I (s\<lparr>world := w, history := history s @ h\<rparr>))"

definition runs ::
  "('e list \<Rightarrow> 'e \<Rightarrow> bool) \<Rightarrow> (('w, 'e, 'm) gst_scheme \<Rightarrow> bool) \<Rightarrow> (('w, 'e, 'm) gst_scheme, 'a) state \<Rightarrow>
   ('a \<Rightarrow> ('w, 'e, 'm) gst_scheme \<Rightarrow> bool) \<Rightarrow> bool" where
  "runs P I m R \<longleftrightarrow> (\<forall>s. I s \<longrightarrow> wp m (\<lambda>a t. R a t \<and> grows P (history s) (history t)) s)"

lemma runsD: "runs P I m R \<Longrightarrow> I s \<Longrightarrow> wp m (\<lambda>a t. R a t \<and> grows P (history s) (history t)) s"
  by (simp add: runs_def)

lemma runs_pre: "runs P I m R \<Longrightarrow> (\<And>s. J s \<Longrightarrow> I s) \<Longrightarrow> runs P J m R"
  by (simp add: runs_def)

lemma runs_post: "runs P I m R \<Longrightarrow> (\<And>a s. R a s \<Longrightarrow> R' a s) \<Longrightarrow> runs P I m R'"
  unfolding runs_def by (blast intro: wp_mono)

lemma runs_conj: "runs P I m R \<Longrightarrow> runs P' I m R' \<Longrightarrow> runs P I m (\<lambda>a s. R a s \<and> R' a s)"
  unfolding runs_def by (simp add: wp_def split: prod.splits)

text \<open>The state a step starts in, as a name for what its assertions say of it.\<close>

lemma runs_from: "(\<And>s0. I s0 \<Longrightarrow> runs P (\<lambda>s. s = s0) m R) \<Longrightarrow> runs P I m R"
  by (simp add: runs_def)

lemma runs_return [runs_intros]: "(\<And>s. I s \<Longrightarrow> R a s) \<Longrightarrow> runs P I (State_Monad.return a) R"
  by (simp add: runs_def wp_simps grows_refl)

lemma runs_stop_with [runs_intros]:
  "(\<And>s. I s \<Longrightarrow> R Stop (f s)) \<Longrightarrow> (\<And>s. history (f s) = history s) \<Longrightarrow> runs P I (stop_with f) R"
  by (simp add: runs_def wp_simps grows_refl)

lemma runs_bind:
  assumes m: "runs P I m J" and k: "\<And>a. runs P (J a) (k a) R"
  shows "runs P I (m \<bind> k) R"
  unfolding runs_def wp_bind
proof (intro allI impI)
  fix s assume "I s"
  from runsD [OF m this]
  show "wp m (\<lambda>a. wp (k a) (\<lambda>a t. R a t \<and> grows P (history s) (history t))) s"
  proof (rule wp_mono)
    fix a t assume t: "J a t \<and> grows P (history s) (history t)"
    then have "wp (k a) (\<lambda>a u. R a u \<and> grows P (history t) (history u)) t" using k by (simp add: runs_def)
    then show "wp (k a) (\<lambda>a u. R a u \<and> grows P (history s) (history u)) t"
      by (rule wp_mono) (use t grows_trans in blast)
  qed
qed

text \<open>Reading the state: what is read is all that is known of it, or only that it is as before.\<close>

lemma runs_get: "(\<And>s0. I s0 \<Longrightarrow> runs P (\<lambda>s. s = s0) (k s0) R) \<Longrightarrow> runs P I (State_Monad.get \<bind> k) R"
  by (simp add: runs_def wp_simps)

lemma runs_get_inv [runs_intros]:
  "(\<And>s0. I s0 \<Longrightarrow> runs P I (k s0) R) \<Longrightarrow> runs P I (State_Monad.get \<bind> k) R"
  by (simp add: runs_def wp_simps)

lemma runs_update_to:
  assumes "\<And>s. history (u s) = history s" "\<And>s. I s \<Longrightarrow> J (u s)" "runs P J (k ()) R"
  shows "runs P I (State_Monad.update u \<bind> k) R"
  unfolding runs_def wp_bind wp_update
proof (intro allI impI)
  fix s assume "I s"
  from runsD [OF assms(3) assms(2) [OF this]]
  show "wp (k ()) (\<lambda>a t. R a t \<and> grows P (history s) (history t)) (u s)" by (simp add: assms(1))
qed

lemma runs_return_bind [runs_intros]: "runs P I (k a) R \<Longrightarrow> runs P I (State_Monad.return a \<bind> k) R"
  by (simp add: runs_def wp_simps)

lemma runs_api_bind:
  assumes "stable I" and "\<And>s r. I s \<Longrightarrow> P (history s) (ev r)"
    and "\<And>r. runs P (\<lambda>s. I s \<and> ev r \<in> set (history s)) (k r) R"
  shows "runs P I (api_call f ev \<bind> k) R"
  unfolding runs_def wp_bind
proof (intro allI impI)
  fix s assume s: "I s"
  show "wp (api_call f ev) (\<lambda>a. wp (k a) (\<lambda>a t. R a t \<and> grows P (history s) (history t))) s"
  proof (rule wp_api_any)
    fix r w
    let ?t = "s\<lparr>world := w, history := history s @ [ev r]\<rparr>"
    have "I ?t \<and> ev r \<in> set (history ?t)" using assms(1) s unfolding stable_def by simp
    from runsD [OF assms(3) this]
    have "wp (k r) (\<lambda>a u. R a u \<and> grows P (history ?t) (history u)) ?t" .
    then show "wp (k r) (\<lambda>a t. R a t \<and> grows P (history s) (history t)) ?t"
      by (rule wp_mono) (use grows_trans [OF grows_one [of P, OF assms(2) [OF s]]] in auto)
  qed
qed

text \<open>A program that only calls, whatever its calls are justified by.\<close>

lemma runs_does:
  assumes "does P0 m A" and "stable I" and "\<And>s e. I s \<Longrightarrow> P0 e \<Longrightarrow> P (history s) e"
  shows "runs P I m (\<lambda>a s. I s \<and> A a)"
  unfolding runs_def
proof (intro allI impI, rule does_wp [OF assms(1)])
  fix s a t assume s: "I s" and "extends P0 s t" and a: "A a"
  then obtain w h where t: "t = s\<lparr>world := w, history := history s @ h\<rparr>" "list_all P0 h"
    by (auto simp: extends_def)
  have "grows P (history s) (history s @ h)"
    using t(2)
  proof (induction h rule: rev_induct)
    case (snoc e h)
    have "I (s\<lparr>world := w, history := history s @ h\<rparr>)" using assms(2) s by (simp add: stable_def)
    from assms(3) [OF this, of e] snoc have "P (history s @ h) e" by simp
    with snoc show ?case using grows_call [of P "history s" "history s @ h" e] by simp
  qed (simp add: grows_refl)
  then show "(I t \<and> A a) \<and> grows P (history s) (history t)"
    using assms(2) s a t by (simp add: stable_def)
qed

section \<open>The structure of a step\<close>

lemma runs_if [runs_intros]:
  "(b \<Longrightarrow> runs P I m R) \<Longrightarrow> (\<not> b \<Longrightarrow> runs P I n R) \<Longrightarrow> runs P I (if b then m else n) R"
  by simp

lemma runs_case_option [runs_intros]:
  "(x = None \<Longrightarrow> runs P I m R) \<Longrightarrow> (\<And>a. x = Some a \<Longrightarrow> runs P I (f a) R) \<Longrightarrow>
   runs P I (case x of None \<Rightarrow> m | Some a \<Rightarrow> f a) R"
  by (cases x) simp_all

lemma runs_case_sum [runs_intros]:
  "(\<And>e. x = Inl e \<Longrightarrow> runs P I (f e) R) \<Longrightarrow> (\<And>a. x = Inr a \<Longrightarrow> runs P I (g a) R) \<Longrightarrow>
   runs P I (case x of Inl e \<Rightarrow> f e | Inr a \<Rightarrow> g a) R"
  by (cases x) simp_all

lemma runs_case_outcome [runs_intros]:
  "(\<And>a. x = Ret a \<Longrightarrow> runs P I (f a) R) \<Longrightarrow> (\<And>e. x = Err e \<Longrightarrow> runs P I (g e) R) \<Longrightarrow>
   (x = Panics \<Longrightarrow> runs P I p R) \<Longrightarrow> runs P I (case x of Ret a \<Rightarrow> f a | Err e \<Rightarrow> g e | Panics \<Rightarrow> p) R"
  by (cases x) simp_all

lemma runs_case_prod [runs_intros]:
  "(\<And>a b. x = (a, b) \<Longrightarrow> runs P I (f a b) R) \<Longrightarrow> runs P I (case x of (a, b) \<Rightarrow> f a b) R"
  by (cases x) simp

lemma runs_let [runs_intros]: "runs P I (f a) R \<Longrightarrow> runs P I (let x = a in f x) R"
  by simp

lemma runs_andThen:
  assumes "runs P I m (\<lambda>f t. if f = Continue then J t else R f t)" and "runs P J n R"
  shows "runs P I (andThen m n) R"
  unfolding andThen_def
proof (rule runs_bind [OF assms(1)])
  show "runs P (\<lambda>t. if f = Continue then J t else R f t) (if f = Continue then n else State_Monad.return f) R" for f
    using assms(2) by (auto intro: runs_return)
qed

lemma runs_on_ret:
  assumes "runs P I m (\<lambda>r t. case r of Ret a \<Rightarrow> K a t | Err e \<Rightarrow> H e t | Panics \<Rightarrow> R Panic t)"
    and "\<And>a. runs P (K a) (k a) R" and "\<And>e. runs P (H e) (h e) R"
  shows "runs P I (on_ret m h k) R"
  unfolding on_ret_def
proof (rule runs_bind [OF assms(1)])
  show "runs P (\<lambda>t. case r of Ret a \<Rightarrow> K a t | Err e \<Rightarrow> H e t | Panics \<Rightarrow> R Panic t)
      (case r of Ret a \<Rightarrow> k a | Err e \<Rightarrow> h e | Panics \<Rightarrow> State_Monad.return Panic) R" for r
    by (cases r) (simp_all add: assms(2,3) runs_return)
qed

text \<open>\<open>CreateOrUpdate\<close> with a mutate function that makes no calls.\<close>

lemma runs_CreateOrUpdate:
  assumes "stable I" and "\<And>s r. I s \<Longrightarrow> P (history s) (evf obj r)"
    and "\<And>s found new r. I s \<Longrightarrow> evf obj (Inr found) \<in> set (history s) \<Longrightarrow>
      g (case found of None \<Rightarrow> obj | Some old \<Rightarrow> old) = Ret new \<Longrightarrow> P (history s) (evs new r)"
    and "\<And>s found new res. I s \<Longrightarrow> evf obj (Inr found) \<in> set (history s) \<Longrightarrow>
      g (case found of None \<Rightarrow> obj | Some old \<Rightarrow> old) = Ret new \<Longrightarrow>
      evs new (Inr res) \<in> set (history s) \<Longrightarrow> R (Ret res) s"
    and "\<And>e s. I s \<Longrightarrow> R (Err e) s" and "\<And>s. I s \<Longrightarrow> R Panics s"
  shows "runs P I (CreateOrUpdate fetch evf store evs obj (\<lambda>old. State_Monad.return (g old))) R"
  unfolding CreateOrUpdate_def
proof (rule runs_api_bind [OF assms(1)])
  fix r
  let ?I = "\<lambda>found s. I s \<and> evf obj (Inr found) \<in> set (history s)"
  have st: "stable (?I found)" for found using assms(1) by (simp add: stable_def)
  have "runs P (?I found) (api_call (store found new) (evs new) \<bind> (\<lambda>r2.
          case r2 of Inl e \<Rightarrow> State_Monad.return (Err e) | Inr res \<Rightarrow> State_Monad.return (Ret res))) R"
    if "g (case found of None \<Rightarrow> obj | Some old \<Rightarrow> old) = Ret new" for found new
  proof (rule runs_api_bind [OF st])
    show "P (history s) (evs new r)" if "?I found s" for s r
      using that \<open>g _ = _\<close> assms(3) by blast
    show "runs P (\<lambda>s. ?I found s \<and> evs new r \<in> set (history s))
       (case r of Inl e \<Rightarrow> State_Monad.return (Err e) | Inr res \<Rightarrow> State_Monad.return (Ret res)) R" for r
      using \<open>g _ = _\<close> by (intro runs_case_sum runs_return) (use assms(4,5) in blast)+
  qed
  then show "runs P (\<lambda>s. I s \<and> evf obj r \<in> set (history s)) (case r of Inl e \<Rightarrow> State_Monad.return (Err e)
      | Inr found \<Rightarrow> State_Monad.return (g (case found of None \<Rightarrow> obj | Some old \<Rightarrow> old)) \<bind> (\<lambda>m.
      case m of Ret new \<Rightarrow> api_call (store found new) (evs new) \<bind> (\<lambda>r2.
          case r2 of Inl e \<Rightarrow> State_Monad.return (Err e) | Inr res \<Rightarrow> State_Monad.return (Ret res))
      | Err e \<Rightarrow> State_Monad.return (Err e) | Panics \<Rightarrow> State_Monad.return Panics)) R"
    by (auto intro!: runs_case_sum runs_return_bind runs_case_outcome runs_return assms(5,6))
qed (rule assms(2))

section \<open>Steps that promise something only when they let the reconciliation go on\<close>

definition on_continue :: "('s \<Rightarrow> bool) \<Rightarrow> flow \<Rightarrow> 's \<Rightarrow> bool" where
  "on_continue J f t \<longleftrightarrow> (f = Continue \<longrightarrow> J t)"

lemma on_continue_simps [simp]:
  "on_continue J Continue t = J t" "on_continue J Stop t" "on_continue J Panic t" "on_continue J Diverge t"
  by (simp_all add: on_continue_def)

lemma runs_then:
  assumes "runs P I m (on_continue J)" and "runs P J n (on_continue K)"
  shows "runs P I (andThen m n) (on_continue K)"
  by (rule runs_andThen [where J = J, OF runs_post [OF assms(1)] assms(2)])
    (simp add: on_continue_def)

lemma runs_on_ret_stops:
  assumes "runs P I m (\<lambda>r t. \<forall>a. r = Ret a \<longrightarrow> J a t)"
    and "\<And>a. runs P (J a) (k a) (on_continue K)" and "\<And>e. runs P (\<lambda>_. True) (h e) (on_continue K)"
  shows "runs P I (on_ret m h k) (on_continue K)"
  by (rule runs_on_ret [where K = J and H = "\<lambda>_ _. True", OF runs_post [OF assms(1)] assms(2,3)])
    (simp split: outcome.split)

text \<open>The loop, with an assertion that knows which elements are done.\<close>

lemma runs_for_each:
  assumes "\<And>us x vs. xs = us @ x # vs \<Longrightarrow> runs P (I (ys @ us)) (f x) (on_continue (I (ys @ us @ [x])))"
  shows "runs P (I ys) (for_each f xs) (on_continue (I (ys @ xs)))"
  using assms
proof (induction xs arbitrary: ys)
  case Nil
  then show ?case by (simp add: runs_return)
next
  case (Cons x xs)
  have "runs P (I ys) (f x) (on_continue (I (ys @ [x])))" using Cons.prems [of "[]" x xs] by simp
  moreover have "runs P (I (ys @ [x])) (for_each f xs) (on_continue (I ((ys @ [x]) @ xs)))"
  proof (rule Cons.IH)
    show "runs P (I ((ys @ [x]) @ us)) (f z) (on_continue (I ((ys @ [x]) @ us @ [z])))" if "xs = us @ z # vs" for us z vs
      using Cons.prems [of "x # us" z vs] that by simp
  qed
  ultimately show ?case unfolding for_each.simps using runs_then by fastforce
qed

lemmas runs_loop = runs_for_each [where ys = "[]", unfolded append_Nil]

end
