(* ===== verification/PureUpdate.thy ===== *)
theory PureUpdate
  imports KubeClient
begin

text \<open>
  \<open>CreateOrUpdate\<close> with a mutate function that makes no calls itself, as the connection and the
  inventory use it for secrets and config maps: its calls, and how the caller goes on.
\<close>

text \<open>The object \<open>CreateOrUpdate\<close> found, or else the one it was given.\<close>

definition or_fresh :: "'o option \<Rightarrow> 'o \<Rightarrow> 'o" where
  "or_fresh found obj = (case found of None \<Rightarrow> obj | Some old \<Rightarrow> old)"

text \<open>
  \<open>cou_calls evf evs obj g f l res\<close>: the calls \<open>l\<close>, written with the events \<open>evf\<close> and \<open>evs\<close>, look
  \<open>obj\<close> up and write what \<open>g\<close> makes of it; \<open>f\<close> says whether an error or a panic ended them, and
  \<open>res\<close> is the object as the server returned it.
\<close>

definition cou_calls ::
  "('o \<Rightarrow> error + 'o option \<Rightarrow> 'e) \<Rightarrow> ('o \<Rightarrow> error + op_result \<times> 'o \<Rightarrow> 'e) \<Rightarrow> 'o \<Rightarrow> ('o \<Rightarrow> 'o outcome) \<Rightarrow>
   flow \<Rightarrow> 'e list \<Rightarrow> 'o \<Rightarrow> bool" where
  "cou_calls evf evs obj g f l res \<longleftrightarrow>
     (\<exists>e. f = Stop \<and> l = [evf obj (Inl e)]) \<or>
     (\<exists>found e. g (or_fresh found obj) = Err e \<and> f = Stop \<and> l = [evf obj (Inr found)]) \<or>
     (\<exists>found. g (or_fresh found obj) = Panics \<and> f = Panic \<and> l = [evf obj (Inr found)]) \<or>
     (\<exists>found new e. g (or_fresh found obj) = Ret new \<and> f = Stop \<and>
        l = [evf obj (Inr found), evs new (Inl e)]) \<or>
     (\<exists>found new op. g (or_fresh found obj) = Ret new \<and> f = Continue \<and>
        l = [evf obj (Inr found), evs new (Inr (op, res))])"

lemma cou_calls_Continue:
  "cou_calls evf evs obj g Continue l res \<longleftrightarrow>
   (\<exists>found new op. g (or_fresh found obj) = Ret new \<and> l = [evf obj (Inr found), evs new (Inr (op, res))])"
  by (simp add: cou_calls_def)

text \<open>Everything among the calls is the lookup or a write of what \<open>g\<close> made.\<close>

lemma cou_calls_set:
  "cou_calls evf evs obj g f l res \<Longrightarrow> e \<in> set l \<Longrightarrow>
   (\<exists>r. e = evf obj r) \<or> (\<exists>found new r. e = evs new r \<and> g (or_fresh found obj) = Ret new \<and> evf obj (Inr found) \<in> set l)"
  unfolding cou_calls_def by fastforce

definition goes_on :: "(op_result \<times> 'o) outcome \<Rightarrow> flow \<Rightarrow> 'o \<Rightarrow> bool" where
  "goes_on r f obj \<longleftrightarrow>
     (case r of Ret (_, o') \<Rightarrow> f = Continue \<and> obj = o' | Err _ \<Rightarrow> f = Stop | Panics \<Rightarrow> f = Panic)"

lemma goes_on_simps [simp]:
  "goes_on (Ret (op, o')) f obj \<longleftrightarrow> f = Continue \<and> obj = o'" "goes_on (Err e) f obj \<longleftrightarrow> f = Stop"
  "goes_on Panics f obj \<longleftrightarrow> f = Panic"
  by (simp_all add: goes_on_def)

lemma wp_CreateOrUpdate_pure:
  assumes "\<And>r f l res w. cou_calls evf evs obj g f l res \<Longrightarrow> goes_on r f res \<Longrightarrow>
     Q r (s\<lparr>world := w, history := history s @ l\<rparr>)"
  shows "wp (CreateOrUpdate fetch evf store evs obj (\<lambda>old. State_Monad.return (g old))) Q s"
proof (rule wp_CreateOrUpdate)
  show "Q (Err e) (s\<lparr>world := w, history := history s @ [evf obj (Inl e)]\<rparr>)" for e w
    by (rule assms [of Stop]) (auto simp: cou_calls_def)
next
  fix found w
  let ?t = "s\<lparr>world := w, history := history s @ [evf obj (Inr found)]\<rparr>"
  have found: "(case found of None \<Rightarrow> obj | Some old \<Rightarrow> old) = or_fresh found obj"
    by (simp add: or_fresh_def)
  show "wp (State_Monad.return (g (case found of None \<Rightarrow> obj | Some old \<Rightarrow> old)))
     (\<lambda>m t. case m of
        Ret new \<Rightarrow> \<forall>r w. Q (case r of Inl e \<Rightarrow> Err e | Inr res \<Rightarrow> Ret res)
                       (t\<lparr>world := w, history := history t @ [evs new r]\<rparr>)
      | Err e \<Rightarrow> Q (Err e) t | Panics \<Rightarrow> Q Panics t) ?t"
  proof (cases "g (or_fresh found obj)")
    case (Ret new)
    have "Q (Err e) (s\<lparr>world := w', history := history s @ [evf obj (Inr found), evs new (Inl e)]\<rparr>)" for e w'
      by (rule assms [of Stop]) (use Ret in \<open>auto simp: cou_calls_def\<close>)
    moreover have "Q (Ret (op, res)) (s\<lparr>world := w', history := history s @ [evf obj (Inr found), evs new (Inr (op, res))]\<rparr>)"
      for op res w'
      by (rule assms [of Continue]) (use Ret in \<open>auto simp: cou_calls_def\<close>)
    ultimately show ?thesis by (auto simp: found wp_return Ret split: sum.split)
  next
    case (Err e)
    have "Q (Err e) ?t" by (rule assms [of Stop]) (use Err in \<open>auto simp: cou_calls_def\<close>)
    then show ?thesis by (simp add: found wp_return Err)
  next
    case Panics
    have "Q Panics ?t" by (rule assms [of Panic]) (use Panics in \<open>auto simp: cou_calls_def\<close>)
    then show ?thesis by (simp add: found wp_return Panics)
  qed
qed

end
