(* ===== verification/InventoryFacts.thy ===== *)
theory InventoryFacts
  imports InventoryDeletion InstanceSpecFacts CallLog PureUpdate
begin

text \<open>
  The reconciliation of a live RDSInventory: every exit reports consistently, and the calls it
  makes, whatever the outside answers, are the ones its purpose needs: the ACK controller is
  configured with the validated credentials, DB instances are adopted only when the cluster does
  not know them, a password is recorded only after AWS has taken it, and nothing is deleted.
\<close>

section \<open>Consistent reports\<close>

lemmas inv_unready = inv_rep.unready_outs

lemma always_update_adopted:
  assumes "\<And>db1. always unready_stop (k db1)"
  shows "always unready_stop (update_adopted E db k)"
  unfolding update_adopted_def
  by (intro always_intros assms) (simp_all add: inv_unready)

lemma always_reset_password: "always unready_stop (reset_password E creds iv db)"
  unfolding reset_password_def
  by (intro always_intros always_update_adopted) (simp_all add: inv_unready)

lemma always_inv_steps_unready:
  "always unready_stop (inv_checkFinalizer E N n)" "always unready_stop (validateAWSParameter E)"
  "always unready_stop (installRDSController E N)" "always unready_stop (adoptDBInstances E n)"
  "always unready_stop (syncDBInstancesStatus E)"
proof -
  show "always unready_stop (inv_checkFinalizer E N n)"
    unfolding inv_checkFinalizer_def inv_addFinalizer_def inv_removeFinalizer_def
      delete_adopted_resources_def delete_adopted_def uninstall_controller_def
      delete_ack_secret_def delete_ack_configmap_def
    by (intro always_intros) (simp_all add: inv_unready)
  show "always unready_stop (validateAWSParameter E)"
    unfolding validateAWSParameter_def require_credentials_def require_credential_def credentials_unread_def
    by (intro always_intros) (simp_all add: inv_unready)
  show "always unready_stop (installRDSController E N)"
    unfolding installRDSController_def
    by (intro always_intros) (simp_all add: inv_unready)
  show "always unready_stop (adoptDBInstances E n)"
    unfolding adoptDBInstances_def adopt_missing_def adopt_one_def complete_all_def complete_adopted_def
    by (intro always_intros always_update_adopted always_reset_password) (simp_all add: inv_unready)
  show "always unready_stop (syncDBInstancesStatus E)"
    unfolding syncDBInstancesStatus_def
    by (intro always_intros) (simp_all add: inv_unready)
qed

text \<open>No step but the last one claims readiness, not even when it panics.\<close>

lemma does_get_deployment: "does (\<lambda>_. True) (get_deployment E k wait n) (\<lambda>_. True)"
  by (induction n) (auto intro!: does_intros)

lemma does_start_wait:
  "does (\<lambda>_. True) (stopRDSController E N wait n) (\<lambda>_. True)"
  "does (\<lambda>_. True) (startRDSController E N) (\<lambda>_. True)"
  "does (\<lambda>_. True) (waitForRDSController E N) (\<lambda>_. True)"
  unfolding stopRDSController_def startRDSController_def waitForRDSController_def scale_deployment_def Let_def
  by (auto intro!: does_intros does_bind [OF does_get_deployment])

lemma keeps_unread: "keeps (credentials_unread e)"
  by (simp add: keeps_def credentials_unread_def wp_simps)

lemma keeps_reset_password: "keeps (reset_password E creds iv db)"
  unfolding reset_password_def update_adopted_def
  by (intro keeps_intros keeps_on_ret [OF does_setCredentials]) simp_all

lemma keeps_update_adopted: "(\<And>db1. keeps (k db1)) \<Longrightarrow> keeps (update_adopted E db k)"
  unfolding update_adopted_def by (intro keeps_intros) simp_all

lemma keeps_inv_steps:
  "keeps (inv_checkFinalizer E N n)" "keeps (validateAWSParameter E)" "keeps (installRDSController E N)"
  "keeps (syncDBInstancesStatus E)"
proof -
  show "keeps (inv_checkFinalizer E N n)"
    unfolding inv_checkFinalizer_def inv_addFinalizer_def inv_removeFinalizer_def
      delete_adopted_resources_def delete_adopted_def uninstall_controller_def
      delete_ack_secret_def delete_ack_configmap_def
    by (intro keeps_intros keeps_does [OF does_start_wait(1)]) (auto intro!: keeps_intros)
  show "keeps (validateAWSParameter E)"
    unfolding validateAWSParameter_def require_credentials_def require_credential_def
    by (intro keeps_intros keeps_unread) simp_all
  show "keeps (installRDSController E N)"
    unfolding installRDSController_def inv_createOrUpdateSecret_def inv_createOrUpdateConfigMap_def
    by (intro keeps_intros keeps_on_ret [OF does_CreateOrUpdate_pure] keeps_does [OF does_start_wait(2)]
        keeps_does [OF does_start_wait(3)])
  show "keeps (syncDBInstancesStatus E)"
    unfolding syncDBInstancesStatus_def by (intro keeps_intros) simp_all
qed

text \<open>The controller's last word is consistent, and only the last step says ready.\<close>

lemma wp_inv_body_consistent:
  "wp (inv_body E N n) (\<lambda>f t. f = Stop \<longrightarrow> consistent t) s"
proof -
  have weaken: "always (\<lambda>f t. f = Stop \<longrightarrow> consistent t) m" if "always unready_stop m" for m :: "('a inv_st, flow) state"
    unfolding always_def by (auto intro!: wp_mono [OF alwaysD [OF that]] simp: unready_stop_def)
  have "always (\<lambda>f t. f = Stop \<longrightarrow> consistent t) (inv_body E N n)"
    unfolding inv_body_def
    by (intro always_intros weaken always_inv_steps_unready) (simp add: inv_rep.consistent_ready)
  then show ?thesis by (rule alwaysD)
qed

section \<open>What justifies a call\<close>

text \<open>
  Each predicate says of the history \<open>h\<close> of calls made before that it holds what a call needs.
  First the credentials: the secret the inventory names was read, and its three fields are set.
\<close>

definition validated_by :: "rds_inventory \<Rightarrow> event list \<Rightarrow> secret \<Rightarrow> bool" where
  "validated_by iv h cred \<longleftrightarrow>
     (\<exists>k. inv_credentialsRef iv = Some k \<and> EvGetSecret k (Inr cred) \<in> set h) \<and>
     (\<forall>f \<in> {awsAccessKeyID, awsSecretAccessKey, awsRegion}. data_get (sec_data cred) f \<notin> {None, Some []})"

definition creds_of :: "secret \<Rightarrow> aws_creds" where
  "creds_of cred = (data_or_empty (sec_data cred) awsAccessKeyID,
     data_or_empty (sec_data cred) awsSecretAccessKey, data_or_empty (sec_data cred) awsRegion)"

definition valid_creds :: "rds_inventory \<Rightarrow> event list \<Rightarrow> aws_creds \<Rightarrow> bool" where
  "valid_creds iv h c \<longleftrightarrow> (\<exists>cred. validated_by iv h cred \<and> c = creds_of cred)"

definition fresh_ack_secret :: "string \<Rightarrow> secret" where
  "fresh_ack_secret N = empty_secret\<lparr>sec_meta := empty_meta\<lparr>om_name := secretName, om_namespace := N\<rparr>\<rparr>"

definition fresh_ack_configmap :: "string \<Rightarrow> configmap" where
  "fresh_ack_configmap N = empty_configmap\<lparr>cm_meta := empty_meta\<lparr>om_name := configmapName, om_namespace := N\<rparr>\<rparr>"

text \<open>What is written for the ACK controller: the keys of the validated secret, and the rest of it.\<close>

definition configures_secret :: "'n lib_scheme \<Rightarrow> string \<Rightarrow> rds_inventory \<Rightarrow> event list \<Rightarrow> secret \<Rightarrow> bool" where
  "configures_secret L N iv h new \<longleftrightarrow>
     (\<exists>cred found. validated_by iv h cred \<and> EvFetchSecret (fresh_ack_secret N) (Inr found) \<in> set h \<and>
        SetOwnerAnnotations L (OwnerInventory iv)
          ((sec_meta (or_fresh found (fresh_ack_secret N)))\<lparr>om_labels := buildInventoryLabels L iv\<rparr>) = Inr (sec_meta new) \<and>
        sec_data new = Some [awsAccessKeyID \<mapsto> fst (creds_of cred), awsSecretAccessKey \<mapsto> fst (snd (creds_of cred))])"

definition configures_configmap :: "'n lib_scheme \<Rightarrow> string \<Rightarrow> rds_inventory \<Rightarrow> event list \<Rightarrow> configmap \<Rightarrow> bool" where
  "configures_configmap L N iv h new \<longleftrightarrow>
     (\<exists>cred found. validated_by iv h cred \<and> EvFetchConfigMap (fresh_ack_configmap N) (Inr found) \<in> set h \<and>
        SetOwnerAnnotations L (OwnerInventory iv)
          ((cm_meta (or_fresh found (fresh_ack_configmap N)))\<lparr>om_labels := buildInventoryLabels L iv\<rparr>) = Inr (cm_meta new) \<and>
        cm_data new = Some (ack_config cred))"

text \<open>
  What AWS lists: all the pages of a paginator made with these credentials, from its creation to
  the answer that there are no more.
\<close>

fun page_of :: "event \<Rightarrow> aws_db_instance list option" where
  "page_of (EvNextPage c (Inr output)) = output"
| "page_of e = None"

definition pages_of :: "event list \<Rightarrow> aws_db_instance list" where
  "pages_of es = concat (List.map_filter page_of es)"

definition page_call :: "aws_creds \<Rightarrow> event \<Rightarrow> bool" where
  "page_call c e \<longleftrightarrow> e = EvMorePages c True \<or> (\<exists>output. e = EvNextPage c (Inr output))"

definition listed_by_aws :: "aws_creds \<Rightarrow> event list \<Rightarrow> aws_db_instance list \<Rightarrow> bool" where
  "listed_by_aws c h aws \<longleftrightarrow>
     (\<exists>h1 l h2. h = h1 @ EvNewPaginator c () # l @ EvMorePages c False # h2 \<and> list_all (page_call c) l \<and>
        aws = pages_of l)"

text \<open>What may be adopted: an instance AWS reports, not being deleted, that the cluster does not know.\<close>

definition adoptable ::
  "db_instance list \<Rightarrow> adopted_resource list \<Rightarrow> aws_db_instance \<Rightarrow> string \<Rightarrow> bool" where
  "adoptable dbs ads a i \<longleftrightarrow>
     aws_dbInstanceIdentifier a = Some i \<and> aws_dbInstanceStatus a \<noteq> Some ''deleting'' \<and>
     Some i \<notin> set (map (\<lambda>d. sp_dbInstanceIdentifier (db_spec d)) dbs) \<and>
     Some i \<notin> set (map ad_nameOrID ads)"

definition adopts :: "'n lib_scheme \<Rightarrow> rds_inventory \<Rightarrow> event list \<Rightarrow> adopted_resource \<Rightarrow> bool" where
  "adopts L iv h ad \<longleftrightarrow>
     (\<exists>c aws a i dbs ads m.
        valid_creds iv h c \<and> listed_by_aws c h aws \<and> a \<in> set aws \<and>
        EvListDBInstances (om_namespace (inv_meta iv)) None (Inr dbs) \<in> set h \<and>
        EvListAdopted (om_namespace (inv_meta iv)) (Inr ads) \<in> set h \<and> adoptable dbs ads a i \<and>
        SetOwnerAnnotations L (OwnerInventory iv) (ad_meta (createAdoptedResource L i iv)) = Inr m \<and>
        ad = (createAdoptedResource L i iv)\<lparr>ad_meta := m\<rparr>)"

text \<open>An adopted DB instance: listed by its label; then what AWS knows of its user and database.\<close>

definition adopted_db :: "rds_inventory \<Rightarrow> event list \<Rightarrow> db_instance \<Rightarrow> bool" where
  "adopted_db iv h db \<longleftrightarrow>
     (\<exists>dbs. EvListDBInstances (om_namespace (inv_meta iv))
         (Some (adpotedDBInstanceLabelKey, adpotedDBInstanceLabelValue)) (Inr dbs) \<in> set h \<and> db \<in> set dbs)"

definition fills :: "rds_inventory \<Rightarrow> event list \<Rightarrow> db_instance \<Rightarrow> bool" where
  "fills iv h db1 \<longleftrightarrow>
     (\<exists>c aws a db. valid_creds iv h c \<and> listed_by_aws c h aws \<and> a \<in> set aws \<and>
        adopted_db iv h db \<and> aws_dbInstanceIdentifier a = sp_dbInstanceIdentifier (db_spec db) \<and>
        needs_fill db a \<and> db1 = fill_connection_info db a)"

definition adopted_now :: "rds_inventory \<Rightarrow> event list \<Rightarrow> db_instance \<Rightarrow> bool" where
  "adopted_now iv h db \<longleftrightarrow>
     adopted_db iv h db \<or> (\<exists>db1. fills iv h db1 \<and> EvUpdateDBInstance db1 (Inr db) \<in> set h)"

text \<open>
  The password of an adopted DB instance: the one in the secret that was read, created or
  updated for it. It is sent to AWS, and recorded only once AWS has answered without an error.
\<close>

definition db_credential_key :: "rds_inventory \<Rightarrow> db_instance \<Rightarrow> key" where
  "db_credential_key iv db =
     \<lparr>k_namespace = om_namespace (inv_meta iv), k_name = credentials_name (om_name (db_meta db))\<rparr>"

text \<open>
  The secret of a key: read under this key, or as the server returned the one created for the key
  and its owner; or such a secret, found without a password, as the server returned it from the
  update with a new one.
\<close>

definition found_secret :: "'n lib_scheme \<Rightarrow> key \<Rightarrow> kobject option \<Rightarrow> string \<Rightarrow> event list \<Rightarrow> secret \<Rightarrow> bool" where
  "found_secret L k ow kind h sec \<longleftrightarrow>
     EvGetSecret k (Inr sec) \<in> set h \<or>
     (\<exists>x. credential_call L k ow kind (EvCreateSecret x (Inr sec)) \<and> EvCreateSecret x (Inr sec) \<in> set h)"

definition has_secret :: "'n lib_scheme \<Rightarrow> key \<Rightarrow> kobject option \<Rightarrow> string \<Rightarrow> event list \<Rightarrow> secret \<Rightarrow> bool" where
  "has_secret L k ow kind h sec \<longleftrightarrow>
     found_secret L k ow kind h sec \<or>
     (\<exists>old pw. found_secret L k ow kind h old \<and> data_get (sec_data old) ''password'' = None \<and>
        EvUpdateSecret (old\<lparr>sec_data := Some ((case sec_data old of None \<Rightarrow> Map.empty | Some m \<Rightarrow> m)(''password'' \<mapsto> pw))\<rparr>)
          (Inr sec) \<in> set h)"

abbreviation db_secret :: "'n lib_scheme \<Rightarrow> rds_inventory \<Rightarrow> db_instance \<Rightarrow> event list \<Rightarrow> secret \<Rightarrow> bool" where
  "db_secret L iv db \<equiv> has_secret L (db_credential_key iv db) (Some (OwnerDBInstance db)) (db_kind db)"

definition password_for :: "'n lib_scheme \<Rightarrow> rds_inventory \<Rightarrow> event list \<Rightarrow> db_instance \<Rightarrow> string \<Rightarrow> bool" where
  "password_for L iv h db pw \<longleftrightarrow>
     adopted_now iv h db \<and> sp_masterUserPassword (db_spec db) = None \<and>
     st_dbInstanceStatus (db_status db) \<in> {None, Some ''available''} \<and>
     (\<exists>sec. db_secret L iv db h sec \<and> pw = data_or_empty (sec_data sec) ''password'')"

definition password_input :: "db_instance \<Rightarrow> string \<Rightarrow> modify_input" where
  "password_input db pw =
     \<lparr>mi_dbInstanceIdentifier = sp_dbInstanceIdentifier (db_spec db), mi_masterUserPassword = Some pw\<rparr>"

definition sends_password :: "'n lib_scheme \<Rightarrow> rds_inventory \<Rightarrow> event list \<Rightarrow> aws_creds \<Rightarrow> modify_input \<Rightarrow> bool" where
  "sends_password L iv h c input \<longleftrightarrow>
     valid_creds iv h c \<and> (\<exists>db pw. password_for L iv h db pw \<and> input = password_input db pw)"

definition records_password :: "'n lib_scheme \<Rightarrow> rds_inventory \<Rightarrow> event list \<Rightarrow> db_instance \<Rightarrow> bool" where
  "records_password L iv h db1 \<longleftrightarrow>
     (\<exists>c db pw. valid_creds iv h c \<and> password_for L iv h db pw \<and>
        EvModifyDBInstance c (password_input db pw) None \<in> set h \<and>
        with_credentials (om_namespace (inv_meta iv)) db db1)"

abbreviation db_credential_call :: "'n lib_scheme \<Rightarrow> rds_inventory \<Rightarrow> db_instance \<Rightarrow> event \<Rightarrow> bool" where
  "db_credential_call L iv db \<equiv>
     credential_call L (db_credential_key iv db) (Some (OwnerDBInstance db)) (db_kind db)"

text \<open>The status the inventory gets: one entry for each DB instance listed.\<close>

definition lists_instances :: "'n lib_scheme \<Rightarrow> rds_inventory \<Rightarrow> event list \<Rightarrow> rds_inventory \<Rightarrow> bool" where
  "lists_instances L iv h iv1 \<longleftrightarrow>
     (\<exists>dbs instances. EvListDBInstances (om_namespace (inv_meta iv)) None (Inr dbs) \<in> set h \<and>
        listed_instances L dbs = Some instances \<and> iv1 = iv\<lparr>inv_instances := instances\<rparr>)"

section \<open>The calls of one reconciliation\<close>

fun inv_call :: "'n lib_scheme \<Rightarrow> string \<Rightarrow> rds_inventory \<Rightarrow> event list \<Rightarrow> event \<Rightarrow> bool" where
  "inv_call L N iv h (EvGetSecret k _) =
     (inv_credentialsRef iv = Some k \<or> (\<exists>db. adopted_now iv h db \<and> k = db_credential_key iv db))"
| "inv_call L N iv h (EvFetchSecret obj _) = (obj = fresh_ack_secret N)"
| "inv_call L N iv h (EvApplySecret new _) = configures_secret L N iv h new"
| "inv_call L N iv h (EvFetchConfigMap obj _) = (obj = fresh_ack_configmap N)"
| "inv_call L N iv h (EvApplyConfigMap new _) = configures_configmap L N iv h new"
| "inv_call L N iv h (EvGetDeployment k _) = (k = deployment_key N)"
| "inv_call L N iv h (EvUpdateDeployment d _) =
     (\<exists>d0. EvGetDeployment (deployment_key N) (Inr d0) \<in> set h \<and> dep_replicas d0 = Some 0 \<and>
           d = d0\<lparr>dep_replicas := Some 1\<rparr>)"
| "inv_call L N iv h (EvNewPaginator c _) = valid_creds iv h c"
| "inv_call L N iv h (EvMorePages c _) = valid_creds iv h c"
| "inv_call L N iv h (EvNextPage c _) = valid_creds iv h c"
| "inv_call L N iv h (EvListDBInstances ns _ _) = (ns = om_namespace (inv_meta iv))"
| "inv_call L N iv h (EvListAdopted ns _) = (ns = om_namespace (inv_meta iv))"
| "inv_call L N iv h (EvCreateAdopted ad _) = adopts L iv h ad"
| "inv_call L N iv h (EvUpdateDBInstance db1 _) = (records_password L iv h db1 \<or> fills iv h db1)"
| "inv_call L N iv h (EvModifyDBInstance c input _) = sends_password L iv h c input"
| "inv_call L N iv h (EvCreateSecret sec r) =
     (\<exists>db. adopted_now iv h db \<and> db_credential_call L iv db (EvCreateSecret sec r))"
| "inv_call L N iv h (EvUpdateSecret sec r) =
     (\<exists>db. adopted_now iv h db \<and> db_credential_call L iv db (EvUpdateSecret sec r))"
| "inv_call L N iv h (EvStatusInventory iv1 _) = lists_instances L iv h iv1"
| "inv_call L N iv h _ = False"

text \<open>What a history justifies, a longer one does.\<close>

named_theorems growing \<open>predicates of histories that more calls leave true\<close>

lemma validated_by_grows [growing]: "validated_by iv h cred \<Longrightarrow> validated_by iv (h @ l) cred"
  by (auto simp: validated_by_def)

lemma valid_creds_grows [growing]: "valid_creds iv h c \<Longrightarrow> valid_creds iv (h @ l) c"
  by (auto simp: valid_creds_def intro: validated_by_grows)

lemma listed_by_aws_grows [growing]: "listed_by_aws c h aws \<Longrightarrow> listed_by_aws c (h @ l) aws"
  unfolding listed_by_aws_def by (metis append.assoc append_Cons)

lemma adopted_db_grows [growing]: "adopted_db iv h db \<Longrightarrow> adopted_db iv (h @ l) db"
  by (auto simp: adopted_db_def)

lemma fills_grows [growing]: "fills iv h db \<Longrightarrow> fills iv (h @ l) db"
  unfolding fills_def by (blast intro: growing)

lemma adopted_now_grows [growing]: "adopted_now iv h db \<Longrightarrow> adopted_now iv (h @ l) db"
  unfolding adopted_now_def by (auto intro: growing)

lemma found_secret_grows [growing]: "found_secret L k ow kind h sec \<Longrightarrow> found_secret L k ow kind (h @ l) sec"
  by (auto simp: found_secret_def)

lemma has_secret_grows [growing]: "has_secret L k ow kind h sec \<Longrightarrow> has_secret L k ow kind (h @ l) sec"
  unfolding has_secret_def by (auto intro: growing)

lemma password_for_grows [growing]: "password_for L iv h db pw \<Longrightarrow> password_for L iv (h @ l) db pw"
  unfolding password_for_def by (blast intro: growing)

section \<open>Credentials\<close>

definition at_inventory :: "rds_inventory \<Rightarrow> 'w inv_st \<Rightarrow> bool" where
  "at_inventory iv s \<longleftrightarrow> iv_inventory s = iv"

definition validated :: "rds_inventory \<Rightarrow> 'w inv_st \<Rightarrow> bool" where
  "validated iv s \<longleftrightarrow> iv_inventory s = iv \<and> validated_by iv (history s) (iv_credentialsRef s) \<and>
     creds_of (iv_credentialsRef s) = (iv_accessKey s, iv_secretKey s, iv_region s)"

lemma stable_invariants [simp]: "stable (at_inventory iv)" "stable (validated iv)"
  by (simp_all add: stable_def at_inventory_def validated_def validated_by_grows)

lemma validated_creds: "validated iv s \<Longrightarrow> valid_creds iv (history s) (iv_accessKey s, iv_secretKey s, iv_region s)"
  by (auto simp: validated_def valid_creds_def intro!: exI [of _ "iv_credentialsRef s"])

text \<open>The three checks, one after the other.\<close>

lemma runs_require_credential:
  assumes "\<And>s. I s \<Longrightarrow> iv_credentialsRef s = cred"
    and "\<And>s v. I s \<Longrightarrow> data_get (sec_data cred) k = Some v \<Longrightarrow> v \<noteq> [] \<Longrightarrow> J (upd v s)"
    and "\<And>v s. history (upd v s) = history s"
  shows "runs P I (require_credential k upd) (on_continue J)"
  unfolding runs_def require_credential_def
  using assms by (auto simp: wp_simps grows_refl inv_frames split: option.split)

text \<open>Errors end a step, and nothing is promised then.\<close>

lemma runs_inv_exits [runs_intros]:
  "runs P I (inv_backend e m) (on_continue J)"
  "runs P I (stop_with inv_returnUpdating) (on_continue J)"
  "runs P I (stop_with (inv_returnRequeue rs m)) (on_continue J)"
  "runs P I (State_Monad.return Panic) (on_continue J)"
  "runs P I (State_Monad.return Diverge) (on_continue J)"
  by (auto intro!: runs_stop_with runs_return simp: inv_frames)

lemma runs_require_credentials:
  assumes cred: "inv_credentialsRef iv = Some k"
  shows "runs P (\<lambda>t. iv_inventory t = iv \<and> iv_credentialsRef t = cred \<and> EvGetSecret k (Inr cred) \<in> set (history t))
     require_credentials (on_continue (validated iv))"
proof -
  let ?I = "\<lambda>t. iv_inventory t = iv \<and> iv_credentialsRef t = cred \<and> EvGetSecret k (Inr cred) \<in> set (history t)"
  let ?A = "\<lambda>t. ?I t \<and> data_get (sec_data cred) awsAccessKeyID = Some (iv_accessKey t) \<and> iv_accessKey t \<noteq> []"
  let ?B = "\<lambda>t. ?A t \<and> data_get (sec_data cred) awsSecretAccessKey = Some (iv_secretKey t) \<and> iv_secretKey t \<noteq> []"
  have 1: "runs P ?I (require_credential awsAccessKeyID (\<lambda>v s. s\<lparr>iv_accessKey := v\<rparr>)) (on_continue ?A)"
    by (rule runs_require_credential [where cred = cred]) auto
  have 2: "runs P ?A (require_credential awsSecretAccessKey (\<lambda>v s. s\<lparr>iv_secretKey := v\<rparr>)) (on_continue ?B)"
    by (rule runs_require_credential [where cred = cred]) auto
  have 3: "runs P ?B (require_credential awsRegion (\<lambda>v s. s\<lparr>iv_region := v\<rparr>)) (on_continue (validated iv))"
    by (rule runs_require_credential [where cred = cred])
      (use cred in \<open>auto simp: validated_def validated_by_def creds_of_def data_or_empty_def\<close>)
  show ?thesis
    unfolding require_credentials_def by (rule runs_then [OF 1 runs_then [OF 2 3]])
qed

lemma runs_validateAWSParameter:
  "runs (inv_call L N iv) (at_inventory iv) (validateAWSParameter E) (on_continue (validated iv))"
  unfolding validateAWSParameter_def
proof (intro runs_get_inv runs_case_option runs_inv_exits)
  fix s :: "'a inv_st" and k
  assume k: "inv_credentialsRef (iv_inventory s) = Some k" and s: "at_inventory iv s"
  have iv: "inv_credentialsRef iv = Some k" using k s by (simp add: at_inventory_def)
  show "runs (inv_call L N iv) (at_inventory iv) (api_call (api_getSecret E k) (EvGetSecret k) \<bind> (\<lambda>r.
      case r of Inl e \<Rightarrow> credentials_unread e
      | Inr sec \<Rightarrow> State_Monad.update (\<lambda>s. s\<lparr>iv_credentialsRef := sec\<rparr>) \<bind> (\<lambda>_. require_credentials)))
    (on_continue (validated iv))"
  proof (rule runs_api_bind)
    fix r
    show "runs (inv_call L N iv) (\<lambda>s. at_inventory iv s \<and> EvGetSecret k r \<in> set (history s)) (case r of
        Inl e \<Rightarrow> credentials_unread e
      | Inr sec \<Rightarrow> State_Monad.update (\<lambda>s. s\<lparr>iv_credentialsRef := sec\<rparr>) \<bind> (\<lambda>_. require_credentials))
      (on_continue (validated iv))"
    proof (cases r)
      case (Inl e)
      then show ?thesis by (auto simp: credentials_unread_def runs_def wp_simps inv_frames grows_refl)
    next
      case (Inr cred)
      show ?thesis unfolding Inr sum.case
        by (rule runs_update_to [OF _ _ runs_require_credentials [OF iv, of _ cred]])
          (simp_all add: at_inventory_def)
    qed
  qed (use iv in simp_all)
qed

section \<open>The ACK controller\<close>

lemma ack_secret_configures:
  assumes "ack_secret L iv cred (or_fresh found (fresh_ack_secret N)) = Ret new" "validated_by iv h cred"
    "EvFetchSecret (fresh_ack_secret N) (Inr found) \<in> set h"
  shows "configures_secret L N iv h new"
  using assms unfolding configures_secret_def
  by (auto simp: ack_secret_def creds_of_def split: sum.splits intro!: exI [of _ cred] exI [of _ found])

lemma ack_configmap_configures:
  assumes "ack_configmap L iv cred (or_fresh found (fresh_ack_configmap N)) = Ret new" "validated_by iv h cred"
    "EvFetchConfigMap (fresh_ack_configmap N) (Inr found) \<in> set h"
  shows "configures_configmap L N iv h new"
  using assms unfolding configures_configmap_def
  by (auto simp: ack_configmap_def split: sum.splits intro!: exI [of _ cred] exI [of _ found])

text \<open>The secret and the config map were written, and the deployment was seen with a ready replica.\<close>

definition ack_installed :: "string \<Rightarrow> event list \<Rightarrow> bool" where
  "ack_installed N h \<longleftrightarrow>
     (\<exists>new res. EvApplySecret new (Inr res) \<in> set h) \<and>
     (\<exists>new res. EvApplyConfigMap new (Inr res) \<in> set h) \<and>
     (\<exists>d. EvGetDeployment (deployment_key N) (Inr d) \<in> set h \<and> 0 <s dep_readyReplicas d)"

lemma ack_installed_grows [growing]: "ack_installed N h \<Longrightarrow> ack_installed N (h @ l)"
  unfolding ack_installed_def by auto

definition installed :: "string \<Rightarrow> rds_inventory \<Rightarrow> 'w inv_st \<Rightarrow> bool" where
  "installed N iv s \<longleftrightarrow> validated iv s \<and> ack_installed N (history s)"

lemma stable_installed [simp]: "stable (installed N iv)"
  using stable_invariants(2) [of iv] by (auto simp: stable_def installed_def intro: growing)

lemma runs_ack_secret:
  "runs (inv_call E N iv) (validated iv) (do {
       s \<leftarrow> State_Monad.get;
       on_ret (inv_createOrUpdateSecret E N (iv_inventory s) (iv_credentialsRef s))
         (\<lambda>e. inv_backend e ''Failed to create or update Secret'')
         (\<lambda>_. State_Monad.return Continue) })
     (on_continue (\<lambda>t. validated iv t \<and> (\<exists>new res. EvApplySecret new (Inr res) \<in> set (history t))))"
proof (rule runs_get)
  fix s :: "'a inv_st"
  assume s: "validated iv s"
  let ?I = "\<lambda>t. validated iv t \<and> iv_credentialsRef t = iv_credentialsRef s"
  let ?J = "\<lambda>t. validated iv t \<and> (\<exists>new res. EvApplySecret new (Inr res) \<in> set (history t))"
  have iv: "iv_inventory s = iv" using s by (simp add: validated_def)
  have "runs (inv_call E N iv) ?I (inv_createOrUpdateSecret E N iv (iv_credentialsRef s)) (\<lambda>r t. \<forall>a. r = Ret a \<longrightarrow> ?J t)"
    unfolding inv_createOrUpdateSecret_def fresh_ack_secret_def [symmetric]
    by (rule runs_CreateOrUpdate [where I = ?I])
      (auto simp: stable_def validated_def or_fresh_def [symmetric] intro: growing ack_secret_configures)
  then show "runs (inv_call E N iv) (\<lambda>t. t = s) (on_ret (inv_createOrUpdateSecret E N (iv_inventory s) (iv_credentialsRef s))
      (\<lambda>e. inv_backend e ''Failed to create or update Secret'') (\<lambda>_. State_Monad.return Continue)) (on_continue ?J)"
    unfolding iv by (rule runs_on_ret_stops [OF runs_pre runs_return runs_inv_exits(1)]) (use s in simp_all)
qed

lemma runs_ack_configmap:
  "runs (inv_call E N iv) (\<lambda>t. validated iv t \<and> (\<exists>new res. EvApplySecret new (Inr res) \<in> set (history t))) (do {
       s \<leftarrow> State_Monad.get;
       on_ret (inv_createOrUpdateConfigMap E N (iv_inventory s) (iv_credentialsRef s))
         (\<lambda>e. inv_backend e ''Failed to create or update ConfigMap'')
         (\<lambda>_. State_Monad.return Continue) })
     (on_continue (\<lambda>t. validated iv t \<and> (\<exists>new res. EvApplySecret new (Inr res) \<in> set (history t)) \<and>
        (\<exists>new res. EvApplyConfigMap new (Inr res) \<in> set (history t))))"
proof (rule runs_get)
  fix s :: "'a inv_st"
  let ?A = "\<lambda>t. validated iv t \<and> (\<exists>new res. EvApplySecret new (Inr res) \<in> set (history t))"
  let ?I = "\<lambda>t. ?A t \<and> iv_credentialsRef t = iv_credentialsRef s"
  let ?J = "\<lambda>t. validated iv t \<and> (\<exists>new res. EvApplySecret new (Inr res) \<in> set (history t)) \<and>
    (\<exists>new res. EvApplyConfigMap new (Inr res) \<in> set (history t))"
  assume s: "?A s"
  have iv: "iv_inventory s = iv" using s by (simp add: validated_def)
  have "runs (inv_call E N iv) ?I (inv_createOrUpdateConfigMap E N iv (iv_credentialsRef s)) (\<lambda>r t. \<forall>a. r = Ret a \<longrightarrow> ?J t)"
    unfolding inv_createOrUpdateConfigMap_def fresh_ack_configmap_def [symmetric]
    by (rule runs_CreateOrUpdate [where I = ?I])
      (auto simp: stable_def validated_def or_fresh_def [symmetric] intro: growing ack_configmap_configures)
  then show "runs (inv_call E N iv) (\<lambda>t. t = s) (on_ret (inv_createOrUpdateConfigMap E N (iv_inventory s) (iv_credentialsRef s))
      (\<lambda>e. inv_backend e ''Failed to create or update ConfigMap'') (\<lambda>_. State_Monad.return Continue)) (on_continue ?J)"
    unfolding iv by (rule runs_on_ret_stops [OF runs_pre runs_return runs_inv_exits(1)]) (use s in simp_all)
qed

lemma runs_startRDSController:
  assumes "stable I"
  shows "runs (inv_call E N iv) I (do {
       r \<leftarrow> startRDSController E N;
       (case r of
          Some e \<Rightarrow> inv_backend e m
        | None \<Rightarrow> State_Monad.return Continue) }) (on_continue I)"
proof (rule runs_bind)
  let ?k = "deployment_key N"
  show "runs (inv_call E N iv) I (startRDSController E N) (\<lambda>_. I)"
    unfolding startRDSController_def scale_deployment_def
    by (intro runs_api_bind runs_case_sum runs_if runs_let runs_return assms)
      (use assms in \<open>auto simp: stable_def\<close>)
qed (auto intro!: runs_case_option runs_inv_exits runs_return)

lemma runs_installRDSController:
  "runs (inv_call E N iv) (validated iv) (installRDSController E N) (on_continue (installed N iv))"
proof -
  let ?J = "\<lambda>t. validated iv t \<and> (\<exists>new res. EvApplySecret new (Inr res) \<in> set (history t)) \<and>
    (\<exists>new res. EvApplyConfigMap new (Inr res) \<in> set (history t))"
  have J: "stable ?J" using stable_invariants(2) [of iv] by (auto simp: stable_def)
  have wait: "runs (inv_call E N iv) ?J (do {
       r \<leftarrow> waitForRDSController E N;
       (case r of
          Inl e \<Rightarrow> inv_backend e ''Failed to verify Operator Deployment ready for RDS controller''
        | Inr ready \<Rightarrow>
            if \<not> ready then stop_with (inv_returnRequeue inventoryStatusReasonUpdating inventoryStatusMessageInstalling)
            else State_Monad.return Continue) }) (on_continue (installed N iv))"
  proof (rule runs_bind)
    show "runs (inv_call E N iv) ?J (waitForRDSController E N)
      (\<lambda>r t. ?J t \<and> (r = Inr True \<longrightarrow> (\<exists>d. EvGetDeployment (deployment_key N) (Inr d) \<in> set (history t) \<and> 0 <s dep_readyReplicas d)))"
      unfolding waitForRDSController_def
      by (intro runs_api_bind runs_return J) (auto split: sum.splits)
  qed (auto intro!: runs_case_sum runs_if runs_inv_exits runs_return simp: installed_def ack_installed_def)
  show ?thesis
    unfolding installRDSController_def
    by (rule runs_then [OF runs_ack_secret runs_then [OF runs_ack_configmap runs_then [OF runs_startRDSController [OF J] wait]]])
qed

end
