(* ===== verification/InventoryAdoption.thy ===== *)
theory InventoryAdoption
  imports InventoryFacts
begin

text \<open>
  The adoption of DB instances by the RDSInventory reconciler, the status it then writes, and the
  whole reconciliation of a live inventory: the calls are justified by the ones before them, and
  the inventory is reported ready only when nothing is left to do.
\<close>

section \<open>Reading the pages\<close>

lemma pages_of_Nil [simp]: "pages_of [] = []"
  by (simp add: pages_of_def)

lemma pages_of_Cons [simp]:
  "pages_of (e # es) = (case page_of e of None \<Rightarrow> [] | Some xs \<Rightarrow> xs) @ pages_of es"
  by (cases "page_of e") (simp_all add: pages_of_def)

definition paging :: "aws_creds \<Rightarrow> event \<Rightarrow> bool" where
  "paging c e \<longleftrightarrow> (\<exists>b. e = EvMorePages c b) \<or> (\<exists>x. e = EvNextPage c x)"

lemma paging_cases: "paging c e \<Longrightarrow> (\<And>b. e = EvMorePages c b \<Longrightarrow> Q) \<Longrightarrow> (\<And>x. e = EvNextPage c x \<Longrightarrow> Q) \<Longrightarrow> Q"
  by (auto simp: paging_def)

text \<open>The loop returns the concatenation of the pages, and stops when there are no more.\<close>

definition pages_read :: "aws_creds \<Rightarrow> aws_db_instance list \<Rightarrow> event list \<Rightarrow> (error + aws_db_instance list) option \<Rightarrow> bool" where
  "pages_read c acc l r \<longleftrightarrow> list_all (paging c) l \<and>
     (\<forall>xs. r = Some (Inr xs) \<longrightarrow>
        (\<exists>l'. l = l' @ [EvMorePages c False] \<and> list_all (page_call c) l' \<and> xs = acc @ pages_of l'))"

lemma pages_read_step:
  assumes "pages_read c (acc @ (case out of None \<Rightarrow> [] | Some xs \<Rightarrow> xs)) l r"
  shows "pages_read c acc (EvMorePages c True # EvNextPage c (Inr out) # l) r"
proof -
  have "\<exists>l'. EvMorePages c True # EvNextPage c (Inr out) # l = l' @ [EvMorePages c False] \<and>
      list_all (page_call c) l' \<and> xs = acc @ pages_of l'" if r: "r = Some (Inr xs)" for xs
  proof -
    obtain l' where "l = l' @ [EvMorePages c False]" "list_all (page_call c) l'"
      "xs = (acc @ (case out of None \<Rightarrow> [] | Some xs \<Rightarrow> xs)) @ pages_of l'"
      using assms r unfolding pages_read_def by blast
    then show ?thesis
      by (intro exI [of _ "EvMorePages c True # EvNextPage c (Inr out) # l'"]) (simp add: page_call_def)
  qed
  with assms show ?thesis by (auto simp: pages_read_def paging_def)
qed

lemma wp_read_pages:
  "wp (read_pages E c n acc)
     (\<lambda>r t. \<exists>l w. t = s\<lparr>world := w, history := history s @ l\<rparr> \<and> pages_read c acc l r) s"
proof (induction n arbitrary: acc s)
  case 0
  show ?case by (auto simp: wp_simps pages_read_def intro!: exI [of _ "[]"] exI [of _ "world s"])
next
  case (Suc n)
  let ?Q = "\<lambda>acc s r t. \<exists>l w. t = s\<lparr>world := w, history := history s @ l\<rparr> \<and> pages_read c acc l r"
  show ?case
  proof (cases "aws_HasMorePages E c (world s)")
    case False
    then show ?thesis
      by (simp add: wp_simps)
        (rule exI [of _ "[EvMorePages c False]"], auto simp: pages_read_def paging_def intro!: exI [of _ "world s"])
  next
    case True
    let ?h = "\<lambda>r. history s @ [EvMorePages c True, EvNextPage c r]"
    have "wp (case r of
           Inl e \<Rightarrow> State_Monad.return (Some (Inl e))
         | Inr output \<Rightarrow> read_pages E c n (case output of None \<Rightarrow> acc | Some xs \<Rightarrow> acc @ xs)) (?Q acc s)
        (s\<lparr>world := w, history := ?h r\<rparr>)" (is "wp _ _ ?s") for r w
    proof (cases r)
      case (Inl e)
      then show ?thesis
        by (auto simp: wp_simps pages_read_def paging_def
            intro!: exI [of _ "[EvMorePages c True, EvNextPage c r]"] exI [of _ w])
    next
      case (Inr page)
      let ?acc = "acc @ (case page of None \<Rightarrow> [] | Some xs \<Rightarrow> xs)"
      have acc: "(case page of None \<Rightarrow> acc | Some xs \<Rightarrow> acc @ xs) = ?acc" by (simp split: option.split)
      have more: "?Q acc s r' t" if q: "?Q ?acc ?s r' t" for r' t
      proof -
        from q obtain l w' where "t = ?s\<lparr>world := w', history := history ?s @ l\<rparr>" "pages_read c ?acc l r'"
          by blast
        then show ?thesis
          by (intro exI [of _ "EvMorePages c True # EvNextPage c r # l"] exI [of _ w'])
            (simp add: Inr pages_read_step)
      qed
      show ?thesis unfolding Inr sum.case acc by (rule wp_mono [OF Suc.IH]) (use more Inr in simp)
    qed
    then have "wp (api_call (aws_NextPage E c) (EvNextPage c) \<bind> (\<lambda>r. case r of
           Inl e \<Rightarrow> State_Monad.return (Some (Inl e))
         | Inr output \<Rightarrow> read_pages E c n (case output of None \<Rightarrow> acc | Some xs \<Rightarrow> acc @ xs)))
       (?Q acc s) (s\<lparr>history := history s @ [EvMorePages c True]\<rparr>)"
      unfolding wp_bind by (intro wp_api_any) simp
    then show ?thesis using True by (simp add: wp_bind wp_api_call)
  qed
qed

lemma runs_read_pages:
  assumes "stable I" and "\<And>s e. I s \<Longrightarrow> paging c e \<Longrightarrow> P (history s) e"
  shows "runs P (\<lambda>s. I s \<and> (\<exists>h. history s = h @ [EvNewPaginator c ()])) (read_pages E c n [])
    (\<lambda>r t. I t \<and> (\<forall>xs. r = Some (Inr xs) \<longrightarrow> listed_by_aws c (history t) xs))"
  unfolding runs_def
proof (intro allI impI, rule wp_mono [OF wp_read_pages])
  fix s r t
  assume s: "I s \<and> (\<exists>h. history s = h @ [EvNewPaginator c ()])"
    and "\<exists>l w. t = s\<lparr>world := w, history := history s @ l\<rparr> \<and> pages_read c [] l r"
  then obtain l w h where t: "t = s\<lparr>world := w, history := history s @ l\<rparr>" and l: "pages_read c [] l r"
    and h: "history s = h @ [EvNewPaginator c ()]"
    by auto
  have "list_all (paging c) l" using l by (simp add: pages_read_def)
  then have "grows P (history s) (history s @ l)"
  proof (induction l rule: rev_induct)
    case (snoc e l)
    have "I (s\<lparr>world := w, history := history s @ l\<rparr>)" using assms(1) s by (simp add: stable_def)
    from assms(2) [OF this] snoc have "P (history s @ l) e" by auto
    with snoc show ?case using grows_call [of P "history s" "history s @ l" e] by simp
  qed (simp add: grows_refl)
  moreover have "I t" using assms(1) s by (simp add: t stable_def)
  moreover have "listed_by_aws c (history t) xs" if "r = Some (Inr xs)" for xs
  proof -
    from l that obtain l' where "l = l' @ [EvMorePages c False]" "list_all (page_call c) l'" "xs = pages_of l'"
      by (auto simp: pages_read_def)
    then show ?thesis
      unfolding listed_by_aws_def
      by (intro exI [of _ h] exI [of _ l'] exI [of _ "[]"]) (simp add: t h)
  qed
  ultimately show "(I t \<and> (\<forall>xs. r = Some (Inr xs) \<longrightarrow> listed_by_aws c (history t) xs)) \<and> grows P (history s) (history t)"
    by (simp add: t)
qed

section \<open>The password's secret\<close>

text \<open>The secret \<open>setCredentials\<close> returns carries the password the server holds.\<close>

definition secret_from :: "'n lib_scheme \<Rightarrow> key \<Rightarrow> kobject option \<Rightarrow> string \<Rightarrow> event list \<Rightarrow> secret \<Rightarrow> bool" where
  "secret_from L k ow kind h sec \<longleftrightarrow> (\<exists>raw. has_secret L k ow kind h raw \<and>
     data_or_empty (sec_data sec) ''password'' = data_or_empty (sec_data raw) ''password'')"

lemma runs_ensure_password:
  "runs (\<lambda>_ _. True) (\<lambda>t. found_secret L k ow kind (history t) sec) (ensure_password E sec)
     (\<lambda>r t. \<forall>sec'. r = Ret sec' \<longrightarrow> secret_from L k ow kind (history t) sec')"
proof -
  have st: "stable (\<lambda>t. found_secret L k ow kind (history t) sec)" by (auto simp: stable_def intro: growing)
  show ?thesis
    unfolding ensure_password_def Let_def
  proof (intro runs_case_option, goal_cases)
    case none: 1
    show ?case
    proof (rule runs_bind [OF runs_does [OF does_generatePassword st]], simp, intro runs_case_option, goal_cases)
      case (2 p pw)
      have "data_get (sec_data sec) ''password'' = None" using none by (simp add: data_get_def split: option.splits)
      then show ?case
        by (intro runs_pre [OF runs_api_bind [OF st]] runs_return)
          (auto simp: secret_from_def has_secret_def split: sum.splits)
    qed (auto intro: runs_return)
  next
    case (2 a)
    then show ?case
      by (intro runs_return)
        (auto simp: secret_from_def has_secret_def data_or_empty_def data_get_def split: option.splits intro!: exI [of _ sec])
  qed
qed

lemma runs_create_credentials:
  "runs (\<lambda>_ _. True) (\<lambda>_. True) (create_credentials E (k_name k) (k_namespace k) owner kind)
     (\<lambda>r t. \<forall>sec. r = Ret sec \<longrightarrow> found_secret E k owner kind (history t) sec)"
proof -
  have made: "runs (\<lambda>_ _. True) (\<lambda>_. True)
      (api_call (api_createSecret E x) (EvCreateSecret x) \<bind> (\<lambda>r. State_Monad.return (case r of Inl e \<Rightarrow> Err e | Inr sec \<Rightarrow> Ret sec)))
      (\<lambda>r t. \<forall>sec. r = Ret sec \<longrightarrow> found_secret E k owner kind (history t) sec)"
    if "\<And>r. credential_call E k owner kind (EvCreateSecret x r)" for x
    by (rule runs_api_bind) (use that in \<open>auto simp: stable_def found_secret_def intro!: runs_return split: sum.splits\<close>)
  show ?thesis
    unfolding create_credentials_def Let_def
  proof (intro runs_case_sum runs_return, simp)
    fix m
    assume m: "(case owner of None \<Rightarrow> Inr (empty_meta\<lparr>om_name := k_name k, om_namespace := k_namespace k,
          om_labels := createSecretLabels E owner kind\<rparr>)
        | Some ow \<Rightarrow> SetControllerReference E ow (empty_meta\<lparr>om_name := k_name k, om_namespace := k_namespace k,
          om_labels := createSecretLabels E owner kind\<rparr>)) = Inr m"
    have call: "credential_call E k owner kind (EvCreateSecret \<lparr>sec_meta = m, sec_data = Some [''password'' \<mapsto> pw]\<rparr> r)"
      if "strong_password pw" for pw r
      using m that by (auto simp: credential_call_def object_key_def empty_meta_def split: option.splits)
    show "runs (\<lambda>_ _. True) (\<lambda>_. True) (generatePassword E \<bind> (\<lambda>p. case p of None \<Rightarrow> State_Monad.return Panics
        | Some pw \<Rightarrow> api_call (api_createSecret E \<lparr>sec_meta = m, sec_data = Some [''password'' \<mapsto> pw]\<rparr>)
              (EvCreateSecret \<lparr>sec_meta = m, sec_data = Some [''password'' \<mapsto> pw]\<rparr>) \<bind>
            (\<lambda>r. State_Monad.return (case r of Inl e \<Rightarrow> Err e | Inr sec \<Rightarrow> Ret sec))))
      (\<lambda>r t. \<forall>sec. r = Ret sec \<longrightarrow> found_secret E k owner kind (history t) sec)"
    proof (rule runs_bind [OF runs_does [OF does_generatePassword]], simp add: stable_def, simp, intro runs_case_option, goal_cases)
      case (2 p pw)
      then show ?case
        by (cases "strong_password pw") (auto intro: runs_pre [OF made] call simp: runs_def [where I = "\<lambda>_. False"])
    qed (auto intro: runs_return)
  qed
qed

lemma runs_setCredentials:
  assumes "stable I" and "\<And>s e. I s \<Longrightarrow> credential_call E k owner kind e \<Longrightarrow> P (history s) e"
    and k: "k = \<lparr>k_namespace = ns, k_name = credentials_name (om_name (db_meta db))\<rparr>"
  shows "runs P I (setCredentials E db ns owner kind) (\<lambda>r t. I t \<and>
     (\<forall>sec db'. r = Ret (sec, db') \<longrightarrow> with_credentials ns db db' \<and> secret_from E k owner kind (history t) sec))"
proof -
  have calls: "runs P I (setCredentials E db ns owner kind)
     (\<lambda>r t. I t \<and> (case r of Ret (_, db') \<Rightarrow> with_credentials ns db db' | _ \<Rightarrow> True))"
    by (rule runs_does [OF does_setCredentials assms(1)]) (use assms(2) k in blast)
  have name: "credentials_name (om_name (db_meta db)) = k_name k" "ns = k_namespace k" by (simp_all add: k)
  let ?got = "\<lambda>r t. \<forall>sec. r = Ret sec \<longrightarrow> found_secret E k owner kind (history t) sec"
  have got: "runs (\<lambda>_ _. True) (\<lambda>t. EvGetSecret k r \<in> set (history t)) (case r of
        Inr sec \<Rightarrow> State_Monad.return (Ret sec)
      | Inl e \<Rightarrow> if IsNotFound e then create_credentials E (k_name k) (k_namespace k) owner kind
                 else State_Monad.return (Err e)) ?got" for r
    by (intro runs_case_sum runs_if runs_pre [OF runs_create_credentials] runs_return)
      (auto simp: found_secret_def)
  have ensured: "runs (\<lambda>_ _. True) (?got (Ret sec)) (ensure_password E sec)
     (\<lambda>r t. \<forall>sec'. r = Ret sec' \<longrightarrow> secret_from E k owner kind (history t) sec')" for sec
    by (rule runs_pre [OF runs_ensure_password]) simp
  have user: "runs (\<lambda>_ _. True) (\<lambda>t. secret_from E k owner kind (history t) sec) (case (sp_masterUsername sp, sp_engine sp) of
       (Some _, _) \<Rightarrow> State_Monad.return (Ret (sec, db\<lparr>db_spec := sp\<lparr>sp_masterUserPassword := Some ref\<rparr>\<rparr>))
     | (None, None) \<Rightarrow> State_Monad.return Panics
     | (None, Some eng) \<Rightarrow> State_Monad.return (Ret (sec,
         db\<lparr>db_spec := sp\<lparr>sp_masterUsername := Some (generateUsername eng), sp_masterUserPassword := Some ref\<rparr>\<rparr>)))
     (\<lambda>r t. \<forall>sec db'. r = Ret (sec, db') \<longrightarrow> secret_from E k owner kind (history t) sec)" for sec sp ref
    by (cases "sp_masterUsername sp"; cases "sp_engine sp") (auto intro: runs_return)
  have secret: "runs (\<lambda>_ _. True) (\<lambda>_. True) (setCredentials E db ns owner kind)
     (\<lambda>r t. \<forall>sec db'. r = Ret (sec, db') \<longrightarrow> secret_from E k owner kind (history t) sec)"
    unfolding setCredentials_def Let_def k [symmetric] unfolding name
    apply (rule runs_api_bind [where I = "\<lambda>_. True"], simp add: stable_def, simp)
    apply (rule runs_bind [OF runs_pre [OF got]], simp)
    apply (rule runs_case_outcome)
      apply hypsubst
      apply (rule runs_bind [OF ensured])
      apply (rule runs_case_outcome)
        apply hypsubst
        apply (rule runs_pre [OF user], simp)
       apply (auto intro: runs_return)
    done
  have weak: "runs (\<lambda>_ _. True) I (setCredentials E db ns owner kind)
     (\<lambda>r t. \<forall>sec db'. r = Ret (sec, db') \<longrightarrow> secret_from E k owner kind (history t) sec)"
    by (rule runs_pre [OF secret]) simp
  show ?thesis
    by (rule runs_post [OF runs_conj [OF calls weak]]) auto
qed

section \<open>Completing the adopted DB instances\<close>

text \<open>A DB instance that has its password, or that was updated with one.\<close>

definition has_password :: "rds_inventory \<Rightarrow> event list \<Rightarrow> db_instance \<Rightarrow> bool" where
  "has_password iv h db \<longleftrightarrow> sp_masterUserPassword (db_spec db) \<noteq> None \<or>
     (\<exists>db1 r. with_credentials (om_namespace (inv_meta iv)) db db1 \<and> EvUpdateDBInstance db1 (Inr r) \<in> set h)"

text \<open>The same after AWS's user and database were filled in, if they were.\<close>

definition completed :: "rds_inventory \<Rightarrow> event list \<Rightarrow> db_instance \<Rightarrow> bool" where
  "completed iv h db \<longleftrightarrow> has_password iv h db \<or>
     (\<exists>a db'. needs_fill db a \<and> EvUpdateDBInstance (fill_connection_info db a) (Inr db') \<in> set h \<and> has_password iv h db')"

lemma has_password_grows [growing]: "has_password iv h db \<Longrightarrow> has_password iv (h @ l) db"
  by (auto simp: has_password_def)

lemma completed_grows [growing]: "completed iv h db \<Longrightarrow> completed iv (h @ l) db"
  unfolding completed_def by (auto intro: growing)

lemma runs_update_adopted:
  assumes "stable I" and "\<And>s r. I s \<Longrightarrow> P (history s) (EvUpdateDBInstance db r)"
    and "\<And>db1. runs P (\<lambda>s. I s \<and> EvUpdateDBInstance db (Inr db1) \<in> set (history s)) (k db1) (on_continue J)"
  shows "runs P I (update_adopted E db k) (on_continue J)"
  unfolding update_adopted_def
  by (rule runs_api_bind [OF assms(1)]) (auto intro!: runs_case_sum runs_if runs_inv_exits assms(2,3))

text \<open>
  The loop over the adopted DB instances keeps an assertion that does not mind waiting; each turn
  leaves its DB instance complete or the reconciliation waiting.
\<close>

definition awaits :: "('w inv_st \<Rightarrow> bool) \<Rightarrow> bool" where
  "awaits I \<longleftrightarrow> stable I \<and> (\<forall>s. I s \<longrightarrow> I (s\<lparr>iv_waiting := True\<rparr>))"

lemma runs_reset_password:
  assumes I: "awaits I"
    and pre: "\<And>s. I s \<Longrightarrow> valid_creds iv (history s) c \<and> adopted_now iv (history s) db"
  shows "runs (inv_call E N iv) I (reset_password E c iv db)
    (on_continue (\<lambda>t. I t \<and> (iv_waiting t \<or> has_password iv (history t) db)))" (is "runs ?P I _ (on_continue ?J)")
  unfolding reset_password_def
proof (intro runs_if)
  assume none: "\<not> sp_masterUserPassword (db_spec db) \<noteq> None"
    and ready: "\<not> st_dbInstanceStatus (db_status db) \<notin> {None, Some ''available''}"
  let ?k = "db_credential_key iv db" and ?ns = "om_namespace (inv_meta iv)"
  let ?G = "\<lambda>sec db1 t. with_credentials ?ns db db1 \<and> secret_from E ?k (Some (OwnerDBInstance db)) (db_kind db) (history t) sec"
  have st: "stable I" using I by (simp add: awaits_def)
  have set_creds: "runs ?P I (setCredentials E db ?ns (Some (OwnerDBInstance db)) (db_kind db))
      (\<lambda>r t. \<forall>a. r = Ret a \<longrightarrow> I t \<and> ?G (fst a) (snd a) t)"
  proof (rule runs_post [OF runs_setCredentials [where k = ?k, OF st]])
    show "?P (history s) e" if "I s" "db_credential_call E iv db e" for s e
      using pre [OF that(1)] that(2) by (cases e) (auto simp: credential_call_def)
  qed (auto simp: db_credential_key_def)
  have rest: "runs ?P (\<lambda>t. I t \<and> ?G sec db1 t) (do {
             let input = \<lparr>mi_dbInstanceIdentifier = sp_dbInstanceIdentifier (db_spec db1),
                          mi_masterUserPassword = Some (data_or_empty (sec_data sec) ''password'')\<rparr>;
             m \<leftarrow> api_call (aws_ModifyDBInstance E c input) (EvModifyDBInstance c input);
             (case m of
                Some e \<Rightarrow> inv_backend e inventoryStatusMessageUpdateInstanceError
              | None \<Rightarrow> update_adopted E db1 (\<lambda>_. State_Monad.return Continue)) }) (on_continue ?J)" for sec db1
  proof (cases "with_credentials ?ns db db1")
    case False
    then show ?thesis by (simp add: runs_def)
  next
    case True
    let ?input = "\<lparr>mi_dbInstanceIdentifier = sp_dbInstanceIdentifier (db_spec db1),
                   mi_masterUserPassword = Some (data_or_empty (sec_data sec) ''password'')\<rparr>"
    have input: "?input = password_input db (data_or_empty (sec_data sec) ''password'')"
      using True by (auto simp: password_input_def with_credentials_def)
    have pw: "password_for E iv (history s) db (data_or_empty (sec_data sec) ''password'')" if "I s \<and> ?G sec db1 s" for s
      using pre [of s] that none ready by (auto simp: password_for_def secret_from_def)
    have G: "stable (\<lambda>t. I t \<and> ?G sec db1 t)"
      using st by (auto simp: stable_def secret_from_def intro: growing)
    show ?thesis unfolding Let_def input
    proof (rule runs_api_bind [OF G])
      show "?P (history s) (EvModifyDBInstance c (password_input db (data_or_empty (sec_data sec) ''password'')) r)"
        if "I s \<and> ?G sec db1 s" for s r
        using pre [of s] pw [OF that] that by (auto simp: sends_password_def)
    next
      fix r
      let ?ev = "EvModifyDBInstance c (password_input db (data_or_empty (sec_data sec) ''password'')) r"
      have st': "stable (\<lambda>s. (I s \<and> ?G sec db1 s) \<and> ?ev \<in> set (history s))" using G by (auto simp: stable_def)
      have "?P (history s) (EvUpdateDBInstance db1 x)" if "(I s \<and> ?G sec db1 s) \<and> ?ev \<in> set (history s)" "r = None" for s x
        using pre [of s] pw [of s] that True unfolding inv_call.simps records_password_def by blast
      then show "runs ?P (\<lambda>s. (I s \<and> ?G sec db1 s) \<and> ?ev \<in> set (history s)) (case r of
            Some e \<Rightarrow> inv_backend e inventoryStatusMessageUpdateInstanceError
          | None \<Rightarrow> update_adopted E db1 (\<lambda>_. State_Monad.return Continue)) (on_continue ?J)"
        using True
        by (intro runs_case_option runs_inv_exits runs_update_adopted [OF st'] runs_return)
          (auto simp: has_password_def)
    qed
  qed
  show "runs ?P I (on_ret (setCredentials E db ?ns (Some (OwnerDBInstance db)) (db_kind db))
      (\<lambda>e. inv_backend e inventoryStatusMessageUpdateInstanceError)
      (\<lambda>(sec, db1). do {
             let input = \<lparr>mi_dbInstanceIdentifier = sp_dbInstanceIdentifier (db_spec db1),
                          mi_masterUserPassword = Some (data_or_empty (sec_data sec) ''password'')\<rparr>;
             m \<leftarrow> api_call (aws_ModifyDBInstance E c input) (EvModifyDBInstance c input);
             (case m of
                Some e \<Rightarrow> inv_backend e inventoryStatusMessageUpdateInstanceError
              | None \<Rightarrow> update_adopted E db1 (\<lambda>_. State_Monad.return Continue)) })) (on_continue ?J)"
    by (rule runs_on_ret_stops [OF set_creds _ runs_inv_exits(1)]) (auto intro!: runs_case_prod runs_pre [OF rest])
next
  show "runs ?P I (State_Monad.update (\<lambda>s. s\<lparr>iv_waiting := True\<rparr>) \<bind> (\<lambda>_. State_Monad.return Continue)) (on_continue ?J)"
    by (rule runs_update_to [where J = ?J]) (use I in \<open>auto simp: awaits_def intro: runs_return\<close>)
qed (auto intro!: runs_return simp: has_password_def)

text \<open>What \<open>adoptDBInstances\<close> knows after reading the pages; its map holds what AWS reports.\<close>

definition from_aws :: "aws_db_instance list \<Rightarrow> (string \<Rightarrow> aws_db_instance option) \<Rightarrow> bool" where
  "from_aws aws m \<longleftrightarrow> (\<forall>i a. m i = Some a \<longrightarrow> a \<in> set aws \<and> aws_dbInstanceIdentifier a = Some i)"

definition aws_read :: "string \<Rightarrow> rds_inventory \<Rightarrow> aws_creds \<Rightarrow> aws_db_instance list \<Rightarrow> 'w inv_st \<Rightarrow> bool" where
  "aws_read N iv c aws t \<longleftrightarrow> installed N iv t \<and> (iv_accessKey t, iv_secretKey t, iv_region t) = c \<and>
     listed_by_aws c (history t) aws \<and> from_aws aws (iv_awsMap t)"

lemma aws_read_facts:
  assumes "aws_read N iv c aws t"
  shows "iv_inventory t = iv" "valid_creds iv (history t) c" "listed_by_aws c (history t) aws"
    "from_aws aws (iv_awsMap t)" "installed N iv t"
  using assms validated_creds [of iv t] by (auto simp: aws_read_def installed_def validated_def)

lemma installed_frame [simp]:
  "installed N iv (s\<lparr>iv_waiting := b\<rparr>) = installed N iv s" "installed N iv (s\<lparr>iv_adopting := b\<rparr>) = installed N iv s"
  "installed N iv (s\<lparr>iv_awsMap := m\<rparr>) = installed N iv s"
  by (simp_all add: installed_def validated_def)

lemma aws_read_frame [simp]:
  "aws_read N iv c aws (s\<lparr>iv_waiting := b\<rparr>) = aws_read N iv c aws s"
  "aws_read N iv c aws (s\<lparr>iv_adopting := b\<rparr>) = aws_read N iv c aws s"
  by (simp_all add: aws_read_def)

lemma stable_aws_read [simp]: "stable (aws_read N iv c aws)"
  using stable_installed [of N iv] by (auto simp: stable_def aws_read_def intro: growing)

lemma runs_complete_adopted:
  assumes I: "awaits I"
    and pre: "\<And>s. I s \<Longrightarrow> aws_read N iv c aws s \<and> adopted_db iv (history s) db"
  shows "runs (inv_call E N iv) I (complete_adopted E c iv db)
    (on_continue (\<lambda>t. I t \<and> (iv_waiting t \<or> completed iv (history t) db)))" (is "runs ?P I _ (on_continue ?J)")
proof -
  have now: "valid_creds iv (history s) c \<and> adopted_now iv (history s) db" if "I s" for s
    using pre [OF that] aws_read_facts(2) unfolding adopted_now_def by blast
  have reset: "runs ?P I (reset_password E c iv db) (on_continue ?J)"
    by (rule runs_post [OF runs_reset_password [OF I now]])
      (auto simp: on_continue_def completed_def)
  have st: "stable I" using I by (simp add: awaits_def)
  have fill: "runs ?P I (update_adopted E (fill_connection_info db a) (reset_password E c iv)) (on_continue ?J)"
    if a: "needs_fill db a" "a \<in> set aws" "aws_dbInstanceIdentifier a = sp_dbInstanceIdentifier (db_spec db)" for a
  proof (rule runs_update_adopted [OF st])
    have filled: "fills iv (history s) (fill_connection_info db a)" if "I s" for s
      using pre [OF that] a unfolding fills_def by (blast dest: aws_read_facts)
    then show "?P (history s) (EvUpdateDBInstance (fill_connection_info db a) r)" if "I s" for s r
      using that by simp
    fix db1
    let ?I = "\<lambda>s. I s \<and> EvUpdateDBInstance (fill_connection_info db a) (Inr db1) \<in> set (history s)"
    have "awaits ?I" using I by (auto simp: awaits_def stable_def)
    moreover have "valid_creds iv (history s) c \<and> adopted_now iv (history s) db1" if "?I s" for s
      using that pre [of s] filled [of s] aws_read_facts(2) unfolding adopted_now_def by blast
    ultimately show "runs ?P ?I (reset_password E c iv db1) (on_continue ?J)"
      by (rule runs_post [OF runs_reset_password]) (use a(1) in \<open>auto simp: on_continue_def completed_def\<close>)
  qed
  have known: "a \<in> set aws" "aws_dbInstanceIdentifier a = Some i" if "I s" "iv_awsMap s i = Some a" for s i a
    using pre [OF that(1)] that(2) aws_read_facts(4) unfolding from_aws_def by blast+
  show ?thesis
    unfolding complete_adopted_def
    by (intro runs_if runs_case_option runs_get_inv runs_inv_exits reset fill)
      (simp_all add: known)
qed

definition adopted_listed :: "rds_inventory \<Rightarrow> event list \<Rightarrow> db_instance list \<Rightarrow> bool" where
  "adopted_listed iv h dbs \<longleftrightarrow> EvListDBInstances (om_namespace (inv_meta iv))
     (Some (adpotedDBInstanceLabelKey, adpotedDBInstanceLabelValue)) (Inr dbs) \<in> set h"

definition all_completed :: "rds_inventory \<Rightarrow> event list \<Rightarrow> bool" where
  "all_completed iv h \<longleftrightarrow> (\<exists>dbs. adopted_listed iv h dbs \<and> (\<forall>db \<in> set dbs. completed iv h db))"

lemma all_completed_grows [growing]: "all_completed iv h \<Longrightarrow> all_completed iv (h @ l)"
  unfolding all_completed_def adopted_listed_def by (auto intro: growing)

lemma runs_complete_all:
  assumes st: "stable I" and up: "\<And>s b. I s \<Longrightarrow> I (s\<lparr>iv_waiting := b\<rparr>)" and I: "\<And>s. I s \<Longrightarrow> aws_read N iv c aws s"
  shows "runs (inv_call E N iv) I (complete_all E c) (on_continue (\<lambda>t. I t \<and> all_completed iv (history t)))"
    (is "runs ?P I _ (on_continue ?J)")
proof -
  let ?ns = "om_namespace (inv_meta iv)" and ?sel = "Some (adpotedDBInstanceLabelKey, adpotedDBInstanceLabelValue)"
  let ?L = "\<lambda>dbs us t. (I t \<and> adopted_listed iv (history t) dbs) \<and>
    (iv_waiting t \<or> (\<forall>db \<in> set us. completed iv (history t) db))"
  have turn: "runs ?P (?L dbs us) (complete_adopted E c iv db) (on_continue (?L dbs (us @ [db])))"
    if "db \<in> set dbs" for dbs us db
  proof -
    have "awaits (?L dbs us)" using st up by (auto simp: awaits_def stable_def adopted_listed_def intro: growing)
    then show ?thesis
      by (rule runs_post [OF runs_complete_adopted [where N = N and aws = aws]])
        (use that I in \<open>auto simp: on_continue_def adopted_db_def adopted_listed_def\<close>)
  qed
  have loop: "runs ?P (?L dbs []) (for_each (complete_adopted E c iv) dbs) (on_continue (?L dbs dbs))" for dbs
    by (rule runs_loop [where I = "?L dbs"], rule turn) simp
  have after: "runs ?P (?L dbs dbs) (do {
            t \<leftarrow> State_Monad.get;
            (if iv_waiting t then stop_with inv_returnUpdating else State_Monad.return Continue) }) (on_continue ?J)" for dbs
    by (rule runs_get) (auto intro!: runs_if runs_inv_exits runs_return simp: all_completed_def)
  have listed: "runs ?P (\<lambda>s. I s \<and> adopted_listed iv (history s) dbs) (do {
          State_Monad.update (\<lambda>s. s\<lparr>iv_waiting := False\<rparr>);
          andThen (for_each (complete_adopted E c iv) dbs) (do {
            t \<leftarrow> State_Monad.get;
            (if iv_waiting t then stop_with inv_returnUpdating else State_Monad.return Continue) }) }) (on_continue ?J)" for dbs
    by (rule runs_update_to [OF _ _ runs_then [OF loop after]]) (simp_all add: up)
  have iv: "iv_inventory s = iv" if "I s" for s using I [OF that] by (rule aws_read_facts)
  show ?thesis
    unfolding complete_all_def Let_def
    by (rule runs_get_inv, simp only: iv, rule runs_api_bind [OF st], simp)
      (auto intro!: runs_case_sum runs_inv_exits runs_pre [OF listed] simp: adopted_listed_def)
qed

section \<open>Adopting what the cluster does not know\<close>

lemma in_map_filter: "x \<in> set (List.map_filter f xs) \<longleftrightarrow> Some x \<in> set (map f xs)"
  by (induction xs) (auto simp del: set_map split: option.split)

definition ids_known :: "db_instance list \<Rightarrow> adopted_resource list \<Rightarrow> string set" where
  "ids_known dbs ads = set (List.map_filter (\<lambda>d. sp_dbInstanceIdentifier (db_spec d)) dbs) \<union>
     set (List.map_filter ad_nameOrID ads)"

lemma adoptable_iff:
  "adoptable dbs ads a i \<longleftrightarrow> aws_dbInstanceIdentifier a = Some i \<and> aws_dbInstanceStatus a \<noteq> Some ''deleting'' \<and>
     i \<notin> ids_known dbs ads"
  by (simp add: adoptable_def ids_known_def in_map_filter del: set_map)

text \<open>The two listings that say what the cluster knows.\<close>

definition cluster_listed :: "rds_inventory \<Rightarrow> event list \<Rightarrow> db_instance list \<Rightarrow> adopted_resource list \<Rightarrow> bool" where
  "cluster_listed iv h dbs ads \<longleftrightarrow> EvListDBInstances (om_namespace (inv_meta iv)) None (Inr dbs) \<in> set h \<and>
     EvListAdopted (om_namespace (inv_meta iv)) (Inr ads) \<in> set h"

definition all_adopted :: "rds_inventory \<Rightarrow> event list \<Rightarrow> aws_db_instance list \<Rightarrow> bool" where
  "all_adopted iv h aws \<longleftrightarrow> aws = [] \<or>
     (\<exists>dbs ads. cluster_listed iv h dbs ads \<and> (\<forall>a \<in> set aws. \<forall>i. \<not> adoptable dbs ads a i))"

lemma cluster_listed_grows [growing]: "cluster_listed iv h dbs ads \<Longrightarrow> cluster_listed iv (h @ l) dbs ads"
  by (simp add: cluster_listed_def)

lemma all_adopted_grows [growing]: "all_adopted iv h aws \<Longrightarrow> all_adopted iv (h @ l) aws"
  unfolding all_adopted_def by (blast intro: growing)

text \<open>
  One turn of the loop: an adoptable instance is adopted, which the flag records; every other
  one is left alone.
\<close>

lemma runs_adopt_one:
  assumes st: "stable I" and a: "a \<in> set aws"
    and pre: "\<And>s. I s \<Longrightarrow> aws_read N iv c aws s \<and> cluster_listed iv (history s) dbs ads"
    and put: "\<And>s i. I s \<Longrightarrow> aws_dbInstanceIdentifier a = Some i \<Longrightarrow> I (s\<lparr>iv_awsMap := (iv_awsMap s)(i \<mapsto> a)\<rparr>)"
    and flag: "\<And>s. I s \<Longrightarrow> I (s\<lparr>iv_adopting := True\<rparr>)"
  shows "runs (inv_call E N iv) I (adopt_one E iv (ids_known dbs ads) a)
    (on_continue (\<lambda>t. I t \<and> (iv_adopting t \<or> (\<forall>i. \<not> adoptable dbs ads a i))))" (is "runs ?P I _ (on_continue ?J)")
  unfolding adopt_one_def
proof (intro runs_case_option runs_inv_exits)
  fix i assume i: "aws_dbInstanceIdentifier a = Some i"
  let ?ad = "createAdoptedResource E i iv"
  have create: "runs ?P I (do {
        r \<leftarrow> api_call (api_createAdopted E (?ad\<lparr>ad_meta := m\<rparr>)) (EvCreateAdopted (?ad\<lparr>ad_meta := m\<rparr>));
        (case r of
           Inl e \<Rightarrow> inv_backend e inventoryStatusMessageAdoptInstanceError
         | Inr _ \<Rightarrow> do { State_Monad.update (\<lambda>s. s\<lparr>iv_adopting := True\<rparr>); State_Monad.return Continue }) })
      (on_continue ?J)"
    if m: "SetOwnerAnnotations E (OwnerInventory iv) (ad_meta ?ad) = Inr m" and new: "adoptable dbs ads a i" for m
  proof (rule runs_api_bind [OF st])
    show "?P (history s) (EvCreateAdopted (?ad\<lparr>ad_meta := m\<rparr>) r)" if "I s" for s r
      using pre [OF that] aws_read_facts(2,3) a m new unfolding inv_call.simps adopts_def cluster_listed_def by blast
  qed (auto intro!: runs_case_sum runs_inv_exits runs_update_to [where J = ?J] runs_return simp: flag)
  show "runs ?P I (do {
          State_Monad.update (\<lambda>s. s\<lparr>iv_awsMap := (iv_awsMap s)(i \<mapsto> a)\<rparr>);
          (if aws_dbInstanceStatus a = Some ''deleting'' \<or> i \<in> ids_known dbs ads then State_Monad.return Continue
           else
             let ad = createAdoptedResource E i iv
             in case SetOwnerAnnotations E (OwnerInventory iv) (ad_meta ad) of
                  Inl e \<Rightarrow> inv_backend e inventoryStatusMessageAdoptInstanceError
                | Inr m \<Rightarrow> do {
                    let ad1 = ad\<lparr>ad_meta := m\<rparr>;
                    r \<leftarrow> api_call (api_createAdopted E ad1) (EvCreateAdopted ad1);
                    (case r of
                       Inl e \<Rightarrow> inv_backend e inventoryStatusMessageAdoptInstanceError
                     | Inr _ \<Rightarrow> do {
                         State_Monad.update (\<lambda>s. s\<lparr>iv_adopting := True\<rparr>);
                         State_Monad.return Continue }) }) }) (on_continue ?J)"
    by (rule runs_update_to [where J = I], simp, erule put, rule i,
        intro runs_if runs_let runs_case_sum runs_inv_exits create runs_return) (auto simp: adoptable_iff i)
qed

lemma runs_adopt_missing:
  "runs (inv_call E N iv) (aws_read N iv c aws) (adopt_missing E aws)
    (on_continue (\<lambda>t. aws_read N iv c aws t \<and> all_adopted iv (history t) aws))"
    (is "runs ?P ?I _ (on_continue ?J)")
proof -
  let ?ns = "om_namespace (inv_meta iv)"
  let ?K = "\<lambda>dbs ads s. ?I s \<and> cluster_listed iv (history s) dbs ads"
  let ?L = "\<lambda>dbs ads us t. ?K dbs ads t \<and> (iv_adopting t \<or> (\<forall>a \<in> set us. \<forall>i. \<not> adoptable dbs ads a i))"
  have turn: "runs ?P (?L dbs ads us) (adopt_one E iv (ids_known dbs ads) a) (on_continue (?L dbs ads (us @ [a])))"
    if a: "a \<in> set aws" for dbs ads us a
  proof (rule runs_post [OF runs_adopt_one [where aws = aws and N = N and c = c, OF _ a]])
    show "stable (?L dbs ads us)"
      using stable_aws_read [of N iv c aws] by (auto simp: stable_def intro: growing)
    show "?L dbs ads us (s\<lparr>iv_awsMap := (iv_awsMap s)(i \<mapsto> a)\<rparr>)"
      if "?L dbs ads us s" "aws_dbInstanceIdentifier a = Some i" for s i
      using that a by (auto simp: aws_read_def from_aws_def)
  qed (auto simp: on_continue_def)
  have loop: "runs ?P (?L dbs ads []) (for_each (adopt_one E iv (ids_known dbs ads)) aws) (on_continue (?L dbs ads aws))"
    for dbs ads
    by (rule runs_loop [where I = "?L dbs ads"], rule turn) simp
  have after: "runs ?P (?L dbs ads aws) (do {
                     t \<leftarrow> State_Monad.get;
                     (if iv_adopting t then stop_with inv_returnUpdating
                      else State_Monad.return Continue) }) (on_continue ?J)" for dbs ads
    by (rule runs_get, intro runs_if runs_inv_exits runs_return) (simp add: all_adopted_def, blast)
  have listed: "runs ?P (?K dbs ads) (do {
                   let known = set (List.map_filter (\<lambda>d. sp_dbInstanceIdentifier (db_spec d)) dbs)
                               \<union> set (List.map_filter ad_nameOrID ads);
                   State_Monad.update (\<lambda>s. s\<lparr>iv_adopting := False\<rparr>);
                   andThen (for_each (adopt_one E iv known) aws) (do {
                     t \<leftarrow> State_Monad.get;
                     (if iv_adopting t then stop_with inv_returnUpdating
                      else State_Monad.return Continue) }) }) (on_continue ?J)" for dbs ads
    unfolding Let_def ids_known_def [symmetric]
    by (rule runs_update_to [OF _ _ runs_then [OF loop after]]) simp_all
  have iv: "iv_inventory s = iv" if "?I s" for s using that by (rule aws_read_facts)
  have second: "runs ?P (\<lambda>s. ?I s \<and> EvListDBInstances ?ns None (Inr dbs) \<in> set (history s)) (do {
            r2 \<leftarrow> api_call (api_listAdopted E ?ns) (EvListAdopted ?ns);
            (case r2 of
               Inl e \<Rightarrow> inv_backend e inventoryStatusMessageGetInstancesError
             | Inr ads \<Rightarrow>
                 if None \<in> set (map ad_nameOrID ads) then State_Monad.return Panic
                 else do {
                   let known = set (List.map_filter (\<lambda>d. sp_dbInstanceIdentifier (db_spec d)) dbs)
                               \<union> set (List.map_filter ad_nameOrID ads);
                   State_Monad.update (\<lambda>s. s\<lparr>iv_adopting := False\<rparr>);
                   andThen (for_each (adopt_one E iv known) aws) (do {
                     t \<leftarrow> State_Monad.get;
                     (if iv_adopting t then stop_with inv_returnUpdating
                      else State_Monad.return Continue) }) }) }) (on_continue ?J)" for dbs
  proof (rule runs_api_bind)
    show "stable (\<lambda>s. ?I s \<and> EvListDBInstances ?ns None (Inr dbs) \<in> set (history s))"
      using stable_aws_read [of N iv c aws] by (auto simp: stable_def)
  qed (auto intro!: runs_case_sum runs_if runs_inv_exits runs_pre [OF listed] simp: cluster_listed_def simp del: set_map)
  show ?thesis
    unfolding adopt_missing_def
    by (rule runs_get_inv, simp only: iv Let_def, rule runs_api_bind, simp_all only: stable_aws_read inv_call.simps)
      (auto intro!: runs_case_sum runs_if runs_inv_exits second [unfolded Let_def] simp del: set_map)
qed

text \<open>All of \<open>adoptDBInstances\<close>: it goes on only when nothing is left to adopt or to complete.\<close>

definition adoption_done :: "rds_inventory \<Rightarrow> event list \<Rightarrow> bool" where
  "adoption_done iv h \<longleftrightarrow>
     (\<exists>c aws. valid_creds iv h c \<and> listed_by_aws c h aws \<and> all_adopted iv h aws) \<and> all_completed iv h"

lemma adoption_done_grows [growing]: "adoption_done iv h \<Longrightarrow> adoption_done iv (h @ l)"
  unfolding adoption_done_def by (blast intro: growing)

lemma runs_adoptDBInstances:
  "runs (inv_call E N iv) (installed N iv) (adoptDBInstances E n)
    (on_continue (\<lambda>t. installed N iv t \<and> adoption_done iv (history t)))" (is "runs ?P _ _ (on_continue ?J)")
  unfolding adoptDBInstances_def Let_def
proof (rule runs_get)
  fix s :: "'a inv_st"
  assume s: "installed N iv s"
  let ?c = "(iv_accessKey s, iv_secretKey s, iv_region s)"
  let ?I = "\<lambda>t. installed N iv t \<and> (iv_accessKey t, iv_secretKey t, iv_region t) = ?c"
  let ?A = "\<lambda>aws t. aws_read N iv ?c aws t"
  let ?K = "\<lambda>aws t. ?A aws t \<and> all_adopted iv (history t) aws"
  have st: "stable ?I" using stable_installed [of N iv] by (auto simp: stable_def)
  have creds: "valid_creds iv (history t) ?c" if "?I t" for t
    using that validated_creds [of iv t] by (simp add: installed_def)
  have adopt: "runs ?P (?A aws) (if aws = [] then State_Monad.return Continue else adopt_missing E aws)
      (on_continue (?K aws))" for aws
    by (intro runs_if runs_adopt_missing runs_return) (simp add: all_adopted_def)
  have complete: "runs ?P (?K aws) (complete_all E ?c) (on_continue ?J)" for aws
  proof (rule runs_post [OF runs_complete_all [where I = "?K aws" and N = N and aws = aws]])
    show "stable (?K aws)" using stable_aws_read [of N iv ?c aws] by (auto simp: stable_def intro: growing)
    show "on_continue ?J f t" if "on_continue (\<lambda>t. ?K aws t \<and> all_completed iv (history t)) f t" for f t
      using that aws_read_facts [of N iv ?c aws t] unfolding on_continue_def adoption_done_def by blast
  qed simp_all
  have listed: "runs ?P (\<lambda>t. ?I t \<and> listed_by_aws ?c (history t) aws) (do {
         State_Monad.update (\<lambda>s. s\<lparr>iv_awsMap := Map.empty\<rparr>);
         andThen (if aws = [] then State_Monad.return Continue else adopt_missing E aws) (complete_all E ?c) })
      (on_continue ?J)" for aws
    by (rule runs_update_to [OF _ _ runs_then [OF adopt complete]]) (auto simp: aws_read_def from_aws_def)
  have pages: "runs ?P (\<lambda>s. ?I s \<and> (\<exists>h. history s = h @ [EvNewPaginator ?c ()])) (read_pages E ?c n [])
      (\<lambda>r t. ?I t \<and> (\<forall>xs. r = Some (Inr xs) \<longrightarrow> listed_by_aws ?c (history t) xs))"
    by (rule runs_read_pages [OF st]) (elim paging_cases, simp_all only: inv_call.simps creds)
  have new: "runs ?P ?I (api_call (aws_newPaginator E ?c) (EvNewPaginator ?c))
      (\<lambda>_ s. ?I s \<and> (\<exists>h. history s = h @ [EvNewPaginator ?c ()]))"
    using st unfolding runs_def
    by (intro allI impI wp_api_any) (auto simp: stable_def creds intro!: grows_one)
  show "runs ?P (\<lambda>t. t = s) (api_call (aws_newPaginator E ?c) (EvNewPaginator ?c) \<bind> (\<lambda>_. read_pages E ?c n [] \<bind> (\<lambda>pages.
      case pages of
        None \<Rightarrow> State_Monad.return Diverge
      | Some p \<Rightarrow>
          (case p of
             Inl e \<Rightarrow> inv_backend e inventoryStatusMessageGetInstancesError
           | Inr aws \<Rightarrow> do {
               State_Monad.update (\<lambda>s. s\<lparr>iv_awsMap := Map.empty\<rparr>);
               andThen (if aws = [] then State_Monad.return Continue else adopt_missing E aws)
                (complete_all E ?c) })))) (on_continue ?J)"
    by (rule runs_pre, rule runs_bind [OF new], rule runs_bind [OF pages])
      (use s in \<open>auto intro!: runs_case_option runs_case_sum runs_inv_exits runs_pre [OF listed]\<close>)
qed

section \<open>The status\<close>

definition synced :: "'n lib_scheme \<Rightarrow> string \<Rightarrow> rds_inventory \<Rightarrow> event list \<Rightarrow> bool" where
  "synced L N iv h \<longleftrightarrow> ack_installed N h \<and> adoption_done iv h \<and>
     (\<exists>iv1 iv2. lists_instances L iv h iv1 \<and> EvStatusInventory iv1 (Inr iv2) \<in> set h)"

lemma lists_instances_grows [growing]: "lists_instances L iv h iv1 \<Longrightarrow> lists_instances L iv (h @ l) iv1"
  by (auto simp: lists_instances_def)

lemma runs_syncDBInstancesStatus:
  "runs (inv_call E N iv) (\<lambda>t. installed N iv t \<and> adoption_done iv (history t)) (syncDBInstancesStatus E)
    (on_continue (\<lambda>t. synced E N iv (history t)))" (is "runs ?P ?I _ (on_continue ?J)")
  unfolding syncDBInstancesStatus_def Let_def
proof (rule runs_get)
  fix s :: "'a inv_st"
  assume s: "?I s"
  let ?ns = "om_namespace (inv_meta iv)"
  have iv: "iv_inventory s = iv" using s by (simp add: installed_def validated_def)
  have st: "stable ?I" using stable_installed [of N iv] by (auto simp: stable_def intro: growing)
  let ?M = "\<lambda>t. (ack_installed N (history t) \<and> adoption_done iv (history t))"
  have store: "runs ?P (\<lambda>t. ?I t \<and> EvListDBInstances ?ns None (Inr dbs) \<in> set (history t)) (do {
               State_Monad.update (\<lambda>s. s\<lparr>iv_inventory := iv\<lparr>inv_instances := instances\<rparr>\<rparr>);
               u \<leftarrow> api_call (api_statusUpdateInventory E (iv\<lparr>inv_instances := instances\<rparr>))
                      (EvStatusInventory (iv\<lparr>inv_instances := instances\<rparr>));
               (case u of
                  Inl e \<Rightarrow>
                    if IsConflict e then stop_with inv_returnUpdating
                    else inv_backend e inventoryStatusMessageUpdateError
                | Inr iv2 \<Rightarrow> do {
                    State_Monad.update (\<lambda>s. s\<lparr>iv_inventory := iv2\<rparr>);
                    State_Monad.return Continue }) }) (on_continue ?J)"
    if l: "listed_instances E dbs = Some instances" for dbs instances
  proof (rule runs_update_to [where J = "\<lambda>t. ?M t \<and> lists_instances E iv (history t) (iv\<lparr>inv_instances := instances\<rparr>)"],
      goal_cases)
    case (2 t)
    then show ?case using l by (auto simp: installed_def lists_instances_def)
  next
    case 3
    show ?case
    proof (rule runs_api_bind)
      show "stable (\<lambda>t. ?M t \<and> lists_instances E iv (history t) (iv\<lparr>inv_instances := instances\<rparr>))"
        by (auto simp: stable_def intro: growing)
    qed (auto intro!: runs_case_sum runs_if runs_inv_exits runs_update_to [where J = ?J] runs_return simp: synced_def, blast)
  qed simp
  show "runs ?P (\<lambda>t. t = s) (api_call (api_listDBInstances E (om_namespace (inv_meta (iv_inventory s))) None)
      (EvListDBInstances (om_namespace (inv_meta (iv_inventory s))) None) \<bind> (\<lambda>r.
     (case r of
        Inl e \<Rightarrow> inv_backend e inventoryStatusMessageGetInstancesError
      | Inr dbs \<Rightarrow>
          (case listed_instances E dbs of
             None \<Rightarrow> State_Monad.return Panic
           | Some instances \<Rightarrow> do {
               State_Monad.update (\<lambda>t. t\<lparr>iv_inventory := (iv_inventory s)\<lparr>inv_instances := instances\<rparr>\<rparr>);
               u \<leftarrow> api_call (api_statusUpdateInventory E ((iv_inventory s)\<lparr>inv_instances := instances\<rparr>))
                      (EvStatusInventory ((iv_inventory s)\<lparr>inv_instances := instances\<rparr>));
               (case u of
                  Inl e \<Rightarrow>
                    if IsConflict e then stop_with inv_returnUpdating
                    else inv_backend e inventoryStatusMessageUpdateError
                | Inr iv2 \<Rightarrow> do {
                    State_Monad.update (\<lambda>s. s\<lparr>iv_inventory := iv2\<rparr>);
                    State_Monad.return Continue }) })))) (on_continue ?J)"
    unfolding iv
    by (rule runs_pre, rule runs_api_bind [OF st])
      (use s in \<open>auto intro!: runs_case_sum runs_case_option runs_inv_exits runs_pre [OF store]\<close>)
qed

section \<open>Reconcile\<close>

text \<open>The calls of the body, by the state the inventory is in.\<close>

definition inv_body_trace ::
  "('w, 'n) env_scheme \<Rightarrow> string \<Rightarrow> rds_inventory \<Rightarrow> flow \<Rightarrow> event list \<Rightarrow> event list \<Rightarrow> bool" where
  "inv_body_trace E N iv f h0 h \<longleftrightarrow>
     (if inv_live iv then
        (if inv_guarded E iv then grows (inv_call E N iv) h0 h
         else f = Stop \<and> (\<exists>r. h = h0 @ [EvUpdateInventory
                (iv\<lparr>inv_meta := AddFinalizer E (inv_meta iv) inventoryFinalizer\<rparr>) r]))
      else if inv_guarded E iv then f = Stop \<and> (\<exists>l. h = h0 @ l \<and> deletion_trace E N iv l)
      else f = Stop \<and> h = h0)"

definition inv_body_reported ::
  "('w, 'n) env_scheme \<Rightarrow> string \<Rightarrow> rds_inventory \<Rightarrow> event list \<Rightarrow> flow \<Rightarrow> 'w inv_st \<Rightarrow> bool" where
  "inv_body_reported E N iv h0 f t \<longleftrightarrow> inv_body_trace E N iv f h0 (history t) \<and> (f = Stop \<longrightarrow> consistent t) \<and>
     (v_status t = ConditionTrue \<longrightarrow> inv_live iv \<and> inv_guarded E iv \<and> synced E N iv (history t))"

lemma keeps_adoptDBInstances: "keeps (adoptDBInstances E n)"
proof -
  have read: "does (\<lambda>_. True) (read_pages E c n []) (\<lambda>_. True)" for c
    unfolding does_def extends_def
    by (intro allI, rule wp_mono [OF wp_read_pages]) (elim exE conjE, intro conjI exI, assumption, auto simp: list_all_iff)
  show ?thesis
    unfolding adoptDBInstances_def adopt_missing_def adopt_one_def complete_all_def complete_adopted_def
    by (intro keeps_intros keeps_does [OF read] keeps_update_adopted keeps_reset_password) simp_all
qed

lemma andThen_assoc: "andThen (andThen a b) c = andThen a (andThen b c)"
proof -
  have "run_state (andThen (andThen a b) c) s = run_state (andThen a (andThen b c)) s" for s
    by (cases "run_state a s") (auto simp: andThen_def split: prod.split)
  then show ?thesis by (intro state.expand ext)
qed

text \<open>A live inventory with the finalizer.\<close>

definition inv_work :: "('w, 'n) env_scheme \<Rightarrow> string \<Rightarrow> nat \<Rightarrow> ('w inv_st, flow) state" where
  "inv_work E N n =
     andThen (validateAWSParameter E) (andThen (installRDSController E N)
       (andThen (adoptDBInstances E n) (syncDBInstancesStatus E)))"

lemma wp_inv_work:
  assumes iv: "iv_inventory s = iv" and un: "unclaimed s" and ok: "inv_live iv" "inv_guarded E iv"
  shows "wp (andThen (inv_work E N n) (stop_with inv_returnReady)) (inv_body_reported E N iv (history s)) s"
proof -
  have "runs (inv_call E N iv) (at_inventory iv) (inv_work E N n) (on_continue (\<lambda>t. synced E N iv (history t)))"
    unfolding inv_work_def
    by (rule runs_then [OF runs_validateAWSParameter runs_then [OF runs_installRDSController
          runs_then [OF runs_adoptDBInstances runs_syncDBInstancesStatus]]])
  from runsD [OF this, of s] have 1: "wp (inv_work E N n) (\<lambda>f t. on_continue (\<lambda>t. synced E N iv (history t)) f t \<and>
      grows (inv_call E N iv) (history s) (history t)) s" by (simp add: at_inventory_def iv)
  have 2: "wp (inv_work E N n) unready_stop s"
    unfolding inv_work_def by (rule alwaysD) (intro always_intros always_inv_steps_unready)
  have 3: "wp (inv_work E N n) (\<lambda>f t. f \<noteq> Stop \<longrightarrow> unclaimed t) s"
    unfolding inv_work_def by (rule keepsD [OF _ un]) (intro keeps_intros keeps_inv_steps keeps_adoptDBInstances)
  obtain f t where run: "run_state (inv_work E N n) s = (f, t)" by fastforce
  show ?thesis
    using wp_run [OF 1 run] wp_run [OF 2 run] wp_run [OF 3 run] ok
    by (auto simp: wp_andThen wp_stop_with wp_def run inv_body_reported_def inv_body_trace_def unready_stop_def
        inv_frames inv_rep.consistent_ready split: prod.splits)
qed

lemma wp_inv_addFinalizer:
  "wp (inv_addFinalizer E) (\<lambda>f t. f = Stop \<and> (\<exists>r. history t = history s @ [EvUpdateInventory
     ((iv_inventory s)\<lparr>inv_meta := AddFinalizer E (inv_meta (iv_inventory s)) inventoryFinalizer\<rparr>) r])) s"
  by (auto simp: inv_addFinalizer_def wp_simps inv_frames split: sum.split prod.split)

lemma wp_inv_body:
  assumes iv: "iv_inventory s = iv" and un: "unclaimed s"
  shows "wp (inv_body E N (Suc n)) (inv_body_reported E N iv (history s)) s"
proof (cases "inv_live iv \<and> inv_guarded E iv")
  case True
  have "inv_body E N (Suc n) = andThen (inv_checkFinalizer E N (Suc n))
      (andThen (inv_work E N (Suc n)) (stop_with inv_returnReady))"
    by (simp add: inv_body_def inv_work_def andThen_assoc)
  moreover have "wp (andThen (inv_work E N (Suc n)) (stop_with inv_returnReady)) (inv_body_reported E N iv (history s)) s"
    by (rule wp_inv_work [OF iv un]) (use True in simp_all)
  ultimately show ?thesis using True by (simp add: inv_guard.wp_guard iv)
next
  case False
  have "wp (inv_checkFinalizer E N (Suc n)) (\<lambda>f t. f = Stop \<and> inv_body_trace E N iv f (history s) (history t)) s"
  proof (cases "inv_live iv")
    case True
    with False iv show ?thesis
      using wp_inv_addFinalizer [of E s]
      by (simp add: inv_checkFinalizer_def wp_simps Let_def) (auto simp: inv_body_trace_def elim!: wp_mono)
  next
    case dead: False
    show ?thesis
    proof (cases "inv_guarded E iv")
      case True
      with dead show ?thesis
        using wp_inv_deletion [of s E N n] iv by (auto simp: inv_body_trace_def ended_def elim!: wp_mono)
    qed (use dead iv in \<open>simp add: inv_checkFinalizer_def wp_simps Let_def inv_body_trace_def\<close>)
  qed
  moreover have "wp (inv_checkFinalizer E N (Suc n)) unready_stop s" by (rule alwaysD [OF always_inv_steps_unready(1)])
  ultimately have "wp (inv_checkFinalizer E N (Suc n)) (\<lambda>f t. f \<noteq> Continue \<and> inv_body_reported E N iv (history s) f t) s"
    by (simp add: wp_def inv_body_reported_def unready_stop_def split: prod.splits)
  then show ?thesis
    unfolding inv_body_def wp_andThen [of "inv_checkFinalizer E N (Suc n)"] by (rule wp_mono) simp
qed

text \<open>
  The whole history: only \<open>Diverge\<close>, paging that has not ended within the fuel, leaves out the last
  status update.
\<close>

definition inv_trace :: "('w, 'n) env_scheme \<Rightarrow> string \<Rightarrow> key \<Rightarrow> flow \<Rightarrow> event list \<Rightarrow> bool" where
  "inv_trace E N req f h \<longleftrightarrow>
     (\<exists>e. h = [EvGetInventory req (Inl e)] \<and> f = Stop) \<or>
     (\<exists>iv. f = Diverge \<and> inv_body_trace E N iv f [EvGetInventory req (Inr iv)] h) \<or>
     (\<exists>iv body last r. h = body @ [EvStatusInventory last r] \<and>
        inv_body_trace E N iv f [EvGetInventory req (Inr iv)] body \<and>
        (conditions_ok E \<longrightarrow> condition_true E (inv_conditions last) inventoryConditionReady \<longrightarrow>
           inv_live iv \<and> inv_guarded E iv \<and> synced E N iv body))"

lemma wp_updateInventoryReadyCondition:
  "wp (updateInventoryReadyCondition E)
     (\<lambda>_ t. \<exists>r. history t = history s @ [EvStatusInventory ((iv_inventory s)\<lparr>inv_conditions :=
        SetStatusCondition E (inv_conditions (iv_inventory s)) (ready_condition inventoryConditionReady s)\<rparr>) r]) s"
  by (auto simp: updateInventoryReadyCondition_def wp_simps Let_def after_status_update_def
      split: sum.split prod.split)

lemma wp_Reconcile_inventory:
  "wp (Reconcile_inventory E N (Suc n) req) (\<lambda>f t. inv_trace E N req f (history t)) (init_inv w)"
proof -
  let ?Q = "\<lambda>f t. inv_trace E N req f (history t)"
  have deferred: "wp (updateInventoryReadyCondition E) (\<lambda>_. ?Q f) t"
    if "inv_body_reported E N iv [EvGetInventory req (Inr iv)] f t" for f iv and t :: "'a inv_st"
  proof (rule wp_mono [OF wp_updateInventoryReadyCondition], elim exE)
    fix u :: "'a inv_st" and r
    let ?last = "(iv_inventory t)\<lparr>inv_conditions := SetStatusCondition E (inv_conditions (iv_inventory t))
       (ready_condition inventoryConditionReady t)\<rparr>"
    assume u: "history u = history t @ [EvStatusInventory ?last r]"
    have "conditions_ok E \<longrightarrow> condition_true E (inv_conditions ?last) inventoryConditionReady \<longrightarrow>
       inv_live iv \<and> inv_guarded E iv \<and> synced E N iv (history t)"
      using that by (auto simp: inv_body_reported_def condition_true_ready)
    then show "?Q f u" using that u unfolding inv_trace_def inv_body_reported_def by blast
  qed
  have body: "wp (deferring (updateInventoryReadyCondition E) (inv_body E N (Suc n))) ?Q s"
    if "iv_inventory s = iv" "unclaimed s" "history s = [EvGetInventory req (Inr iv)]" for iv s
    unfolding wp_deferring
  proof (rule wp_mono [OF wp_inv_body [OF that(1,2)]])
    fix f and t :: "'a inv_st"
    assume "inv_body_reported E N iv (history s) f t"
    then show "if f = Diverge then ?Q f t else wp (updateInventoryReadyCondition E) (\<lambda>_. ?Q f) t"
      using deferred [of iv f t] that(3) by (auto simp: inv_trace_def inv_body_reported_def)
  qed
  have missed: "?Q Stop t" if "history t = [EvGetInventory req (Inl e)]" for e and t :: "'a inv_st"
    using that by (auto simp: inv_trace_def)
  show ?thesis
    unfolding Reconcile_inventory_def wp_bind wp_case_sum
    by (rule wp_api_any)
      (auto simp only: wp_if wp_return wp_stop_with wp_update split: sum.split if_splits
        intro!: body missed, simp_all add: init_inv_def)
qed

end
