(* ===== verification/SampleInventory.thy ===== *)
theory SampleInventory
  imports Sample InventoryAdoption
begin

text \<open>
  Runs of the inventory controller in the world of \<open>Sample\<close> and in three variants of it: a
  cluster that knows no DB instance yet, one with an adopted DB instance that has no password, and
  one whose inventory is being deleted.
\<close>

section \<open>Facts of the objects\<close>

lemma sample_inventory_live: "inv_live sample_inventory" "inv_guarded sample sample_inventory"
  by (simp_all add: sample_inventory_def sample_meta_def time_IsZero_def empty_meta_def inventoryFinalizer_def)

lemma sample_inventory_facts:
  "inv_credentialsRef sample_inventory = Some (sample_key ''aws'')"
  "om_namespace (inv_meta sample_inventory) = ''apps''"
  by (simp_all add: sample_inventory_def sample_meta_def)

lemma sample_secret_fields:
  "data_get (sec_data (sample_secret k)) awsAccessKeyID = Some ''AKIA''"
  "data_get (sec_data (sample_secret k)) awsSecretAccessKey = Some ''wJal''"
  "data_get (sec_data (sample_secret k)) awsRegion = Some ''us-east-1''"
  by (simp_all add: sample_secret_def data_get_def)

lemma sample_db_adopted:
  "sp_masterUsername (db_spec sample_db) = Some ''postgres''" "sp_dbName (db_spec sample_db) = Some ''postgres''"
  "sp_dbInstanceIdentifier (db_spec sample_db) = Some ''orders''"
  "sp_masterUserPassword (db_spec sample_db) = Some \<lparr>skr_name = ''db1-credentials'', skr_namespace = ''apps'', skr_key = ''password''\<rparr>"
  by (simp_all add: sample_db_def)

lemma sample_aws_facts:
  "aws_dbInstanceIdentifier sample_aws = Some ''orders''" "aws_dbInstanceStatus sample_aws = Some ''available''"
  by (simp_all add: sample_aws_def)

lemma sample_listed: "listed_instances sample [sample_db] = Some [listed_instance sample sample_db ''orders'']"
  by (simp add: sample_db_adopted)

text \<open>The variants; they share the helpers and most of the client.\<close>

definition bare_db :: db_instance where
  "bare_db = sample_db\<lparr>db_spec := (db_spec sample_db)\<lparr>sp_masterUserPassword := None\<rparr>\<rparr>"

definition leaving_inventory :: rds_inventory where
  "leaving_inventory = sample_inventory\<lparr>inv_meta := (inv_meta sample_inventory)\<lparr>om_deletionTimestamp := Some 1\<rparr>\<rparr>"

definition not_found_error :: error where
  "not_found_error = StatusError ReasonNotFound ''not found''"

definition closing :: "nat env" where
  "closing = sample\<lparr>api_getInventory := (\<lambda>k. Pair (Inr leaving_inventory)),
     api_getDeployment := (\<lambda>k. Pair (Inr \<lparr>dep_meta = empty_meta, dep_replicas = Some 0, dep_readyReplicas = 0\<rparr>)),
     api_getSecret := (\<lambda>k. Pair (Inl not_found_error)), api_getConfigMap := (\<lambda>k. Pair (Inl not_found_error))\<rparr>"

section \<open>An inventory that becomes ready\<close>

text \<open>What does not depend on the DB instances in the cluster.\<close>

abbreviation with_dbs :: "db_instance list \<Rightarrow> nat env" where
  "with_dbs dbs \<equiv> sample\<lparr>api_listDBInstances := (\<lambda>n sel. Pair (Inr dbs))\<rparr>"

lemma sample_with_dbs: "sample = with_dbs [sample_db]"
  by (simp add: sample_def idle_def)

lemma with_dbs_validate:
  "iv_inventory s = sample_inventory \<Longrightarrow>
   wp (validateAWSParameter (with_dbs dbs)) (\<lambda>f t. f = Continue \<and> iv_inventory t = sample_inventory) s"
  by (simp add: validateAWSParameter_def require_credentials_def require_credential_def wp_simps
      sample_inventory_facts sample_secret_fields)

lemma with_dbs_install:
  "iv_inventory s = sample_inventory \<Longrightarrow>
   wp (installRDSController (with_dbs dbs) N) (\<lambda>f t. f = Continue \<and> iv_inventory t = sample_inventory) s"
  by (simp add: installRDSController_def inv_createOrUpdateSecret_def inv_createOrUpdateConfigMap_def
      CreateOrUpdate_def startRDSController_def waitForRDSController_def scale_deployment_def wp_simps
      ack_secret_def ack_configmap_def set_owner_def stored_def Let_def word_sless_alt)

lemma wp_with_dbs_work:
  assumes "\<And>s. iv_inventory s = sample_inventory \<Longrightarrow>
     wp (andThen (adoptDBInstances (with_dbs dbs) n) (syncDBInstancesStatus (with_dbs dbs))) Q s"
    and "iv_inventory s = sample_inventory"
  shows "wp (inv_work (with_dbs dbs) N n) Q s"
  unfolding inv_work_def wp_andThen [of "validateAWSParameter (with_dbs dbs)"]
    wp_andThen [of "installRDSController (with_dbs dbs) N"]
  by (rule wp_mono [OF with_dbs_validate], rule assms(2), simp,
      rule wp_mono [OF with_dbs_install], simp, simp add: assms(1))

lemma inv_body_split:
  "inv_body E N n = andThen (inv_checkFinalizer E N n) (andThen (inv_work E N n) (stop_with inv_returnReady))"
  by (simp add: inv_body_def inv_work_def andThen_assoc)

lemma wp_with_dbs_body:
  assumes "\<And>s. iv_inventory s = sample_inventory \<Longrightarrow>
     wp (andThen (andThen (adoptDBInstances (with_dbs dbs) n) (syncDBInstancesStatus (with_dbs dbs)))
       (stop_with inv_returnReady)) Q s"
    and "iv_inventory s = sample_inventory"
  shows "wp (inv_body (with_dbs dbs) N n) Q s"
proof -
  have "wp (andThen (inv_work (with_dbs dbs) N n) (stop_with inv_returnReady)) Q s"
    unfolding wp_andThen [of "inv_work (with_dbs dbs) N n"]
    by (rule wp_with_dbs_work [OF _ assms(2)]) (use assms(1) in \<open>simp add: wp_andThen\<close>)
  then show ?thesis
    using sample_inventory_live assms(2) unfolding inv_body_split by (simp add: inv_guard.wp_guard del: sample_fields)
qed

lemma sample_inv_adopt:
  "iv_inventory s = sample_inventory \<Longrightarrow>
   wp (adoptDBInstances sample (Suc (Suc 0))) (\<lambda>f t. f = Continue \<and> iv_inventory t = sample_inventory) s"
  by (simp add: adoptDBInstances_def adopt_missing_def adopt_one_def complete_all_def complete_adopted_def
      reset_password_def wp_simps sample_aws_facts sample_db_adopted sample_inventory_facts Let_def)

lemma sample_inv_sync:
  "iv_inventory s = sample_inventory \<Longrightarrow>
   wp (syncDBInstancesStatus sample) (\<lambda>f t. f = Continue) s"
  by (simp add: syncDBInstancesStatus_def wp_simps sample_listed Let_def del: listed_instances.simps)

lemma sample_inv_body:
  assumes "iv_inventory s = sample_inventory"
  shows "wp (inv_body sample N (Suc (Suc 0))) (\<lambda>f t. f = Stop \<and> v_status t = ConditionTrue) s"
proof (rule wp_with_dbs_body [of "[sample_db]", folded sample_with_dbs, OF _ assms])
  fix s :: "nat inv_st"
  assume s: "iv_inventory s = sample_inventory"
  show "wp (andThen (andThen (adoptDBInstances sample (Suc (Suc 0))) (syncDBInstancesStatus sample))
       (stop_with inv_returnReady)) (\<lambda>f t. f = Stop \<and> v_status t = ConditionTrue) s"
    unfolding wp_andThen
    by (rule wp_mono [OF sample_inv_adopt [OF s]], simp, rule wp_mono [OF sample_inv_sync], simp,
        simp add: wp_stop_with inv_returnReady_def)
qed

text \<open>The last status update carries the condition the body left.\<close>

lemma wp_inv_reconcile:
  assumes "api_getInventory E req w = (Inr iv, w')"
    and "\<And>s. iv_inventory s = iv \<Longrightarrow> history s = [EvGetInventory req (Inr iv)] \<Longrightarrow> wp (inv_body E N n) (\<lambda>f t. f \<noteq> Diverge \<and> Q t) s"
  shows "wp (Reconcile_inventory E N n req) (\<lambda>f u. f \<noteq> Diverge \<and> (\<exists>t last r. Q t \<and> history u = history t @ [EvStatusInventory last r] \<and>
     inv_conditions last = SetStatusCondition E (inv_conditions (iv_inventory t)) (ready_condition inventoryConditionReady t)))
     (init_inv w)"
proof -
  define R where "R u \<longleftrightarrow> (\<exists>t last r. Q t \<and> history u = history t @ [EvStatusInventory last r] \<and>
     inv_conditions last = SetStatusCondition E (inv_conditions (iv_inventory t)) (ready_condition inventoryConditionReady t))"
    for u :: "'a inv_st"
  have upd: "wp (updateInventoryReadyCondition E) (\<lambda>_. R) t" if "Q t" for t
    by (rule wp_mono [OF wp_updateInventoryReadyCondition]) (use that in \<open>force simp: R_def\<close>)
  have "wp (deferring (updateInventoryReadyCondition E) (inv_body E N n)) (\<lambda>f u. f \<noteq> Diverge \<and> R u) s"
    if "iv_inventory s = iv" "history s = [EvGetInventory req (Inr iv)]" for s
    unfolding wp_deferring by (rule wp_mono [OF assms(2) [OF that]]) (simp add: upd)
  then show ?thesis
    unfolding Reconcile_inventory_def R_def [symmetric]
    by (simp add: wp_bind wp_api_call assms(1) init_inv_def wp_update)
qed

lemma sample_inv_run:
  "wp (Reconcile_inventory sample N (Suc (Suc 0)) (sample_key ''inventory''))
     (\<lambda>f u. f \<noteq> Diverge \<and> (\<exists>h last r. history u = h @ [EvStatusInventory last r] \<and>
        condition_true sample (inv_conditions last) inventoryConditionReady)) (init_inv 0)"
proof (rule wp_mono [OF wp_inv_reconcile [where w' = 0 and iv = sample_inventory and Q = "\<lambda>t. v_status t = ConditionTrue"]])
  show "api_getInventory sample (sample_key ''inventory'') 0 = (Inr sample_inventory, 0)" by simp
  show "wp (inv_body sample N (Suc (Suc 0))) (\<lambda>f t. f \<noteq> Diverge \<and> v_status t = ConditionTrue) s"
    if "iv_inventory s = sample_inventory" for s
    by (rule wp_mono [OF sample_inv_body [OF that]]) simp
next
  fix f and u :: "nat inv_st"
  assume "f \<noteq> Diverge \<and> (\<exists>(t :: nat inv_st) last r. v_status t = ConditionTrue \<and> history u = history t @ [EvStatusInventory last r] \<and>
     inv_conditions last = SetStatusCondition sample (inv_conditions (iv_inventory t)) (ready_condition inventoryConditionReady t))"
  then obtain t :: "nat inv_st" and last r where t: "f \<noteq> Diverge" "v_status t = ConditionTrue" "history u = history t @ [EvStatusInventory last r]"
    "inv_conditions last = SetStatusCondition sample (inv_conditions (iv_inventory t)) (ready_condition inventoryConditionReady t)"
    by blast
  then have "condition_true sample (inv_conditions last) inventoryConditionReady"
    by (simp add: condition_true_ready [OF sample_conditions_ok] del: sample_fields)
  with t show "f \<noteq> Diverge \<and> (\<exists>h last r. history u = h @ [EvStatusInventory last r] \<and>
        condition_true sample (inv_conditions last) inventoryConditionReady)" by blast
qed

section \<open>Adoption\<close>

lemma unknown_db_run:
  "wp (Reconcile_inventory (with_dbs []) N (Suc (Suc 0)) (sample_key ''inventory''))
     (\<lambda>_ u. \<exists>ad r. EvCreateAdopted ad r \<in> set (history u)) (init_inv 0)"
proof (rule wp_mono [OF wp_inv_reconcile [where w' = 0 and iv = sample_inventory and
      Q = "\<lambda>t. \<exists>ad r. EvCreateAdopted ad r \<in> set (history t)"]])
  show "wp (inv_body (with_dbs []) N (Suc (Suc 0)))
      (\<lambda>f t. f \<noteq> Diverge \<and> (\<exists>ad r. EvCreateAdopted ad r \<in> set (history t))) s"
    if "iv_inventory s = sample_inventory" for s :: "nat inv_st"
  proof (rule wp_with_dbs_body [OF _ that])
    fix s :: "nat inv_st"
    assume s: "iv_inventory s = sample_inventory"
    have "wp (adoptDBInstances (with_dbs []) (Suc (Suc 0))) (\<lambda>f t. f = Stop \<and> (\<exists>ad r. EvCreateAdopted ad r \<in> set (history t))) s"
      using s by (simp add: adoptDBInstances_def adopt_missing_def adopt_one_def
        wp_simps sample_aws_facts sample_inventory_facts set_owner_def Let_def inv_frames) blast
    then show "wp (andThen (andThen (adoptDBInstances (with_dbs []) (Suc (Suc 0))) (syncDBInstancesStatus (with_dbs [])))
       (stop_with inv_returnReady)) (\<lambda>f t. f \<noteq> Diverge \<and> (\<exists>ad r. EvCreateAdopted ad r \<in> set (history t))) s"
      unfolding wp_andThen by (rule wp_mono) simp
  qed
qed (simp, (elim exE conjE, simp, blast)?)

lemma bare_db_facts:
  "sp_masterUsername (db_spec bare_db) = Some ''postgres''" "sp_dbName (db_spec bare_db) = Some ''postgres''"
  "sp_dbInstanceIdentifier (db_spec bare_db) = Some ''orders''" "sp_masterUserPassword (db_spec bare_db) = None"
  "st_dbInstanceStatus (db_status bare_db) = Some ''available''"
  by (simp_all add: bare_db_def sample_db_def)

lemma sample_set_credentials:
  assumes "sp_masterUsername (db_spec db) = Some u"
  shows "wp (setCredentials (with_dbs dbs) db ns ow kind) Q s \<longleftrightarrow>
    (let k = \<lparr>k_namespace = ns, k_name = credentials_name (om_name (db_meta db))\<rparr>
     in Q (Ret (sample_secret k, db\<lparr>db_spec := (db_spec db)\<lparr>sp_masterUserPassword :=
          Some \<lparr>skr_name = credentials_name (om_name (db_meta db)), skr_namespace = ns, skr_key = ''password''\<rparr>\<rparr>\<rparr>))
       (s\<lparr>history := history s @ [EvGetSecret k (Inr (sample_secret k))]\<rparr>))"
  using assms by (simp add: setCredentials_def ensure_password_def wp_simps sample_secret_def Let_def)

lemma no_password_adopt:
  assumes s: "iv_inventory s = sample_inventory"
  shows "wp (adoptDBInstances (with_dbs [bare_db]) (Suc (Suc 0)))
     (\<lambda>f t. f = Continue \<and> (\<exists>db1 r. EvUpdateDBInstance db1 r \<in> set (history t))) s"
  using s by (simp add: adoptDBInstances_def adopt_missing_def adopt_one_def complete_all_def complete_adopted_def
      reset_password_def update_adopted_def wp_simps sample_aws_facts bare_db_facts sample_inventory_facts
      sample_set_credentials Let_def) blast

lemma no_password_sync:
  "wp (syncDBInstancesStatus (with_dbs [bare_db])) (\<lambda>f t. f = Continue \<and> set (history s) \<subseteq> set (history t)) s"
  by (auto simp: syncDBInstancesStatus_def wp_simps bare_db_facts Let_def)

lemma no_password_run:
  "wp (Reconcile_inventory (with_dbs [bare_db]) N (Suc (Suc 0)) (sample_key ''inventory''))
     (\<lambda>_ u. \<exists>db1 r. EvUpdateDBInstance db1 r \<in> set (history u)) (init_inv 0)"
proof (rule wp_mono [OF wp_inv_reconcile [where w' = 0 and iv = sample_inventory and
      Q = "\<lambda>t. \<exists>db1 r. EvUpdateDBInstance db1 r \<in> set (history t)"]])
  show "wp (inv_body (with_dbs [bare_db]) N (Suc (Suc 0)))
      (\<lambda>f t. f \<noteq> Diverge \<and> (\<exists>db1 r. EvUpdateDBInstance db1 r \<in> set (history t))) s"
    if "iv_inventory s = sample_inventory" for s :: "nat inv_st"
  proof (rule wp_with_dbs_body [OF _ that])
    fix s :: "nat inv_st"
    assume s: "iv_inventory s = sample_inventory"
    show "wp (andThen (andThen (adoptDBInstances (with_dbs [bare_db]) (Suc (Suc 0))) (syncDBInstancesStatus (with_dbs [bare_db])))
       (stop_with inv_returnReady)) (\<lambda>f t. f \<noteq> Diverge \<and> (\<exists>db1 r. EvUpdateDBInstance db1 r \<in> set (history t))) s"
      unfolding wp_andThen
    proof (rule wp_mono [OF no_password_adopt [OF s]], goal_cases)
      case (1 f t)
      then show ?case by (auto intro!: wp_mono [OF no_password_sync] simp: wp_stop_with inv_returnReady_def)
    qed
  qed
qed (simp, (elim exE conjE, simp, blast)?)

section \<open>Deletion\<close>

lemma closing_body:
  assumes "iv_inventory s = leaving_inventory"
  shows "wp (inv_body closing N (Suc n)) (\<lambda>f t. f \<noteq> Diverge \<and> (\<exists>iv' r. EvUpdateInventory iv' r \<in> set (history t)) \<and>
     (\<exists>l. history t = history s @ l)) s"
  using assms
  by (simp add: inv_body_def inv_checkFinalizer_def delete_adopted_resources_def uninstall_controller_def
      stopRDSController_def scale_deployment_def delete_ack_secret_def delete_ack_configmap_def inv_removeFinalizer_def
      wp_simps closing_def leaving_inventory_def sample_inventory_def sample_meta_def empty_meta_def time_IsZero_def
      inventoryFinalizer_def not_found_error_def inv_frames Let_def) blast

lemma closing_run:
  "wp (Reconcile_inventory closing N (Suc n) (sample_key ''inventory''))
     (\<lambda>_ u. (\<exists>iv' r. EvUpdateInventory iv' r \<in> set (history u)) \<and>
        EvGetInventory (sample_key ''inventory'') (Inr leaving_inventory) = hd (history u)) (init_inv 0)"
proof (rule wp_mono [OF wp_inv_reconcile [where w' = 0 and iv = leaving_inventory and
      Q = "\<lambda>t. (\<exists>iv' r. EvUpdateInventory iv' r \<in> set (history t)) \<and>
         (\<exists>l. history t = EvGetInventory (sample_key ''inventory'') (Inr leaving_inventory) # l)"]])
  show "api_getInventory closing (sample_key ''inventory'') 0 = (Inr leaving_inventory, 0)" by (simp add: closing_def)
  show "wp (inv_body closing N (Suc n)) (\<lambda>f t. f \<noteq> Diverge \<and> (\<exists>iv' r. EvUpdateInventory iv' r \<in> set (history t)) \<and>
         (\<exists>l. history t = EvGetInventory (sample_key ''inventory'') (Inr leaving_inventory) # l)) s"
    if "iv_inventory s = leaving_inventory" "history s = [EvGetInventory (sample_key ''inventory'') (Inr leaving_inventory)]"
    for s :: "nat inv_st"
    by (rule wp_mono [OF closing_body [OF that(1)]]) (use that(2) in auto)
qed (elim exE conjE, simp, blast)

end
