(* ===== verification/Paginator.thy ===== *)
theory Paginator
  imports SampleInventory "HOL-Library.Sublist"
begin

text \<open>
  The interface \<open>DescribeDBInstancesPaginatorAPI\<close> (\<open>controllers/rds/dbinstance.go\<close>): a paginator
  that comes closer to its end with every page lets the reconciler's loop end. The mock
  paginator of \<open>controllers/rds/test/dbinstance_mock.go\<close> is one; the AWS SDK's own paginator,
  which \<open>dbinstance.go\<close> wraps, is a parameter of the model.
\<close>

section \<open>The contract\<close>

locale paginator =
  fixes more :: "'p \<Rightarrow> bool"
    and next_page :: "'p \<Rightarrow> (error + aws_db_instance list option) \<times> 'p"
    and pages_left :: "'p \<Rightarrow> nat"
  assumes progress: "more p \<Longrightarrow> pages_left (snd (next_page p)) < pages_left p"
begin

text \<open>Fuel for one more turn than pages are left is enough.\<close>

lemma read_pages_ends:
  assumes "aws_HasMorePages E c = more" "aws_NextPage E c = next_page" "pages_left (world s) < n"
  shows "wp (read_pages E c n acc) (\<lambda>r _. r \<noteq> None) s"
  using assms(3)
proof (induction n arbitrary: acc s)
  case (Suc n)
  show ?case
  proof (cases "more (world s)")
    case False
    then show ?thesis by (simp add: wp_simps assms(1))
  next
    case True
    obtain r p where np: "next_page (world s) = (r, p)" by fastforce
    then have "pages_left p < n" using progress [OF True] Suc.prems by simp
    then have "wp (read_pages E c n acc') (\<lambda>r _. r \<noteq> None) (s\<lparr>world := p, history := h\<rparr>)" for acc' h
      by (intro Suc.IH) simp
    then show ?thesis using True np by (simp add: wp_simps assms(1,2) split: sum.split)
  qed
qed simp

end

section \<open>The AWS SDK\<close>

text \<open>
  \<open>dbinstance.go\<close> makes an SDK client from the user's keys and region and passes every call on to it.
  The SDK's constructors and methods are arguments; the keys come without a session token.
\<close>

record aws_options =
  ao_region :: string
  ao_accessKeyID :: string
  ao_secretAccessKey :: string
  ao_sessionToken :: string

definition aws_client :: "(aws_options \<Rightarrow> 'c) \<Rightarrow> string \<Rightarrow> string \<Rightarrow> string \<Rightarrow> 'c" where
  "aws_client rds_New accessKey secretKey region = rds_New
     \<lparr>ao_region = region, ao_accessKeyID = accessKey, ao_secretAccessKey = secretKey, ao_sessionToken = []\<rparr>"

definition NewDescribeDBInstancesPaginator ::
  "(aws_options \<Rightarrow> 'c) \<Rightarrow> ('c \<Rightarrow> 'p) \<Rightarrow> string \<Rightarrow> string \<Rightarrow> string \<Rightarrow> 'p" where
  "NewDescribeDBInstancesPaginator rds_New rds_NewPaginator accessKey secretKey region =
     rds_NewPaginator (aws_client rds_New accessKey secretKey region)"

definition sdk_HasMorePages :: "('p \<Rightarrow> bool) \<Rightarrow> 'p \<Rightarrow> bool" where
  "sdk_HasMorePages hasMorePages p = hasMorePages p"

definition sdk_NextPage :: "('p \<Rightarrow> 'r \<times> 'p) \<Rightarrow> 'p \<Rightarrow> 'r \<times> 'p" where
  "sdk_NextPage nextPage p = nextPage p"

definition NewModifyDBInstance :: "(aws_options \<Rightarrow> 'c) \<Rightarrow> string \<Rightarrow> string \<Rightarrow> string \<Rightarrow> 'c" where
  "NewModifyDBInstance rds_New accessKey secretKey region = aws_client rds_New accessKey secretKey region"

definition sdk_ModifyDBInstance :: "('c \<Rightarrow> modify_input \<Rightarrow> 'w \<Rightarrow> error option \<times> 'w) \<Rightarrow> 'c \<Rightarrow> modify_input \<Rightarrow> 'w \<Rightarrow> error option \<times> 'w" where
  "sdk_ModifyDBInstance modifyDBInstance client params = modifyDBInstance client params"

text \<open>The wrapper keeps the contract of the SDK's paginator, and both clients get the same options.\<close>

lemma sdk_paginator:
  "paginator hasMorePages nextPage left \<Longrightarrow> paginator (sdk_HasMorePages hasMorePages) (sdk_NextPage nextPage) left"
  by (simp add: paginator_def sdk_HasMorePages_def sdk_NextPage_def)

lemma same_client:
  "NewDescribeDBInstancesPaginator rds_New rds_NewPaginator a k r = rds_NewPaginator (NewModifyDBInstance rds_New a k r)"
  by (simp add: NewDescribeDBInstancesPaginator_def NewModifyDBInstance_def)

section \<open>The mock\<close>

text \<open>Two pages with five DB instances.\<close>

definition mock_instance :: "string \<Rightarrow> aws_db_instance" where
  "mock_instance i = \<lparr>aws_dbInstanceIdentifier = Some i, aws_dbInstanceStatus = Some ''available'',
     aws_masterUsername = None, aws_dbName = None\<rparr>"

definition mock_dbInstances :: "aws_db_instance list list" where
  "mock_dbInstances =
     [[mock_instance ''mock-db-instance-1'', mock_instance ''mock-db-instance-2'', mock_instance ''mock-db-instance-3''],
      [mock_instance ''mock-db-instance-4'', mock_instance ''mock-db-instance-5'']]"

record mock_paginator =
  mp_creds :: aws_creds
  mp_counter :: int

definition NewMockDescribeDBInstancesPaginator :: "aws_creds \<Rightarrow> mock_paginator" where
  "NewMockDescribeDBInstancesPaginator c =
     \<lparr>mp_creds = c, mp_counter = (if suffix ''INVENTORYCONTROLLER'' (fst c) then 2 else 0)\<rparr>"

definition mock_HasMorePages :: "mock_paginator \<Rightarrow> bool" where
  "mock_HasMorePages m \<longleftrightarrow> 0 < mp_counter m"

text \<open>The index is in range for the counters the constructor makes; Go panics outside it.\<close>

definition mock_NextPage :: "mock_paginator \<Rightarrow> aws_db_instance list option outcome \<times> mock_paginator" where
  "mock_NextPage m =
     (if 0 < mp_counter m then
        let m1 = m\<lparr>mp_counter := mp_counter m - 1\<rparr>; i = 1 - mp_counter m1
        in (if 0 \<le> i \<and> i < int (length mock_dbInstances) then Ret (Some (mock_dbInstances ! nat i)) else Panics, m1)
      else (Ret None, m))"

definition mock_next :: "mock_paginator \<Rightarrow> (error + aws_db_instance list option) \<times> mock_paginator" where
  "mock_next m = (case mock_NextPage m of
     (Ret page, m1) \<Rightarrow> (Inr page, m1)
   | (_, m1) \<Rightarrow> (Inl (PlainError ''index out of range''), m1))"

definition mock_ModifyDBInstance :: "modify_input \<Rightarrow> error option" where
  "mock_ModifyDBInstance input = None"

text \<open>The two pages, one after the other.\<close>

lemma mock_pages:
  "mock_next \<lparr>mp_creds = c, mp_counter = 2\<rparr> = (Inr (Some (mock_dbInstances ! 0)), \<lparr>mp_creds = c, mp_counter = 1\<rparr>)"
  "mock_next \<lparr>mp_creds = c, mp_counter = 1\<rparr> = (Inr (Some (mock_dbInstances ! 1)), \<lparr>mp_creds = c, mp_counter = 0\<rparr>)"
  "concat mock_dbInstances = mock_dbInstances ! 0 @ mock_dbInstances ! 1"
  by (simp_all add: mock_next_def mock_NextPage_def mock_dbInstances_def Let_def)

lemma mock_in_range:
  "mp_counter m \<le> 2 \<Longrightarrow> fst (mock_NextPage m) \<noteq> Panics \<and> mp_counter (snd (mock_NextPage m)) \<le> 2"
  by (simp add: mock_NextPage_def mock_dbInstances_def Let_def)

interpretation mock: paginator mock_HasMorePages mock_next "\<lambda>m. nat (mp_counter m)"
  by unfold_locales
    (auto simp: mock_HasMorePages_def mock_next_def mock_NextPage_def Let_def split: outcome.split)

section \<open>The reconciliation ends\<close>

text \<open>
  \<open>paged E left n\<close>: each page brings the paginators of \<open>E\<close> closer to their end, and a new one has
  fewer than \<open>n\<close> pages.
\<close>

definition paged :: "('w, 'm) env_scheme \<Rightarrow> (aws_creds \<Rightarrow> 'w \<Rightarrow> nat) \<Rightarrow> nat \<Rightarrow> bool" where
  "paged E left n \<longleftrightarrow>
     (\<forall>c w. aws_HasMorePages E c w \<longrightarrow> left c (snd (aws_NextPage E c w)) < left c w) \<and>
     (\<forall>c w. left c (snd (aws_newPaginator E c w)) < n)"

lemma paged_paginator:
  "paged E left n \<Longrightarrow> paginator (aws_HasMorePages E c) (aws_NextPage E c) (left c)"
  unfolding paged_def by unfold_locales blast

abbreviation ends :: "flow \<Rightarrow> 's \<Rightarrow> bool" where
  "ends f t \<equiv> f \<noteq> Diverge"

lemma always_ends_steps:
  "always ends (validateAWSParameter E)" "always ends (installRDSController E N)"
  "always ends (syncDBInstancesStatus E)" "always ends (stop_with g)"
proof -
  show "always ends (validateAWSParameter E)"
    unfolding validateAWSParameter_def require_credentials_def require_credential_def credentials_unread_def
    by (intro always_intros) simp_all
  show "always ends (installRDSController E N)"
    unfolding installRDSController_def by (intro always_intros) simp_all
  show "always ends (syncDBInstancesStatus E)"
    unfolding syncDBInstancesStatus_def by (intro always_intros) simp_all
  show "always ends (stop_with g)" by (intro always_intros) simp
qed

lemma always_ends_check: "always ends (inv_checkFinalizer E N (Suc n))"
proof -
  have stop: "wp (uninstall_controller E N (Suc n)) ends s" for s
    unfolding uninstall_controller_def stopRDSController_def wp_bind wp_get_deployment_once
    by (rule wp_api_any) (auto simp: wp_simps scale_deployment_def Let_def split: sum.split option.split prod.split)
  then have "always ends (uninstall_controller E N (Suc n))" by (simp add: always_def)
  then show ?thesis
    unfolding inv_checkFinalizer_def inv_addFinalizer_def inv_removeFinalizer_def delete_adopted_resources_def
      delete_adopted_def delete_ack_secret_def delete_ack_configmap_def
    by (intro always_intros) simp_all
qed

lemma always_ends_adopt:
  assumes "paged E left n"
  shows "always ends (adoptDBInstances E n)"
proof -
  have update: "always ends (update_adopted E db k)" if "\<And>db1. always ends (k db1)" for db k
    unfolding update_adopted_def by (intro always_intros that) simp_all
  have reset: "always ends (reset_password E c iv db)" for c iv db
    unfolding reset_password_def by (intro always_intros update) simp_all
  have adopt: "always ends (adopt_missing E aws)" for aws
    unfolding adopt_missing_def adopt_one_def by (intro always_intros) simp_all
  have complete: "always ends (complete_all E c)" for c
    unfolding complete_all_def complete_adopted_def by (intro always_intros update reset) simp_all
  have "wp (adoptDBInstances E n) ends s" for s :: "'a inv_st"
  proof -
    let ?c = "(iv_accessKey s, iv_secretKey s, iv_region s)"
    obtain w where w: "aws_newPaginator E ?c (world s) = ((), w)" by (cases "aws_newPaginator E ?c (world s)") auto
    then have "left ?c w < n" using assms by (metis paged_def snd_conv)
    then have read: "wp (read_pages E ?c n []) (\<lambda>r _. r \<noteq> None) (s\<lparr>world := w, history := h\<rparr>)" for h
      by (intro paginator.read_pages_ends [OF paged_paginator [OF assms]]) simp_all
    show ?thesis
      unfolding adoptDBInstances_def Let_def wp_bind wp_get wp_api_call w prod.case
      by (rule wp_mono [OF read])
        (auto simp: wp_simps(8,9) wp_case_option wp_case_sum wp_stop_with wp_bind wp_update
          intro!: alwaysD always_andThen always_return adopt complete split: option.split sum.split)
  qed
  then show ?thesis by (simp add: always_def)
qed

text \<open>
  C24: a reconciliation of an inventory ends. If each page brings the paginator closer to its end,
  and a new paginator has fewer pages than the fuel, the reconciliation never runs out of fuel:
  its only unbounded loops are the one over the pages and the wait for the deployment, which it
  does not use.
\<close>

theorem inventory_reconcile_ends:
  assumes "paged E left (Suc n)"
  shows "wp (Reconcile_inventory E N (Suc n) req) (\<lambda>f _. f \<noteq> Diverge) s"
proof -
  have "always ends (inv_body E N (Suc n))"
    unfolding inv_body_def
    by (intro always_andThen always_ends_check always_ends_steps always_ends_adopt [OF assms])
  then have body: "wp (inv_body E N (Suc n)) (\<lambda>f t. if f = Diverge then f \<noteq> Diverge
      else wp (updateInventoryReadyCondition E) (\<lambda>_ _. f \<noteq> Diverge) t) t" for t
    by (auto intro!: wp_mono [OF alwaysD])
  show ?thesis
    unfolding Reconcile_inventory_def wp_bind wp_case_sum
    by (rule wp_api_any) (auto simp: wp_if wp_return wp_stop_with wp_bind wp_update wp_deferring body split: sum.split)
qed

lemma inventory_reconcile_ends_example:
  "wp (Reconcile_inventory sample ''ack'' (Suc (Suc 0)) (sample_key ''inventory'')) (\<lambda>f _. f \<noteq> Diverge) (init_inv 0)"
  by (rule inventory_reconcile_ends [where left = "\<lambda>_ w. w"]) (simp add: paged_def)

text \<open>The reconciler's loop over the mock's pages gets exactly its five DB instances, in order.\<close>

lemma mock_is_read_completely:
  assumes "aws_HasMorePages E c = mock_HasMorePages" "aws_NextPage E c = mock_next"
    and "world s = NewMockDescribeDBInstancesPaginator c" "2 < n"
  shows "wp (read_pages E c n []) (\<lambda>r t. r = Some (Inr
    (if suffix ''INVENTORYCONTROLLER'' (fst c) then concat mock_dbInstances else []))) s"
proof -
  obtain k where n: "n = Suc (Suc (Suc k))" using less_imp_Suc_add [OF assms(4)] by auto
  show ?thesis
    using assms(1-3)
    by (simp add: n wp_bind wp_api_call wp_return mock_HasMorePages_def mock_pages NewMockDescribeDBInstancesPaginator_def)
qed

lemma mock_ends:
  assumes "aws_HasMorePages E c = mock_HasMorePages" "aws_NextPage E c = mock_next" "nat (mp_counter (world s)) < n"
  shows "wp (read_pages E c n acc) (\<lambda>r _. r \<noteq> None) s"
  by (rule mock.read_pages_ends [OF assms])

end
