(* ===== verification/InstanceController.thy ===== *)
theory InstanceController
  imports InstanceSpec InstanceStatus Reconcile
begin

text \<open>
  The RDSInstance reconciler (\<open>controllers/rdsinstance_controller.go\<close>, \<open>Reconcile\<close> and its
  closures): it keeps a DBInstance object in the inventory's namespace in step with the
  RDSInstance, reports its phase, and removes it before the RDSInstance goes away.
\<close>

definition instanceFinalizer :: string where
  "instanceFinalizer = ''rds.dbaas.redhat.com/instance''"

abbreviation instanceConditionReady :: string where "instanceConditionReady \<equiv> ''ProvisionReady''"

abbreviation instanceStatusReasonReady :: string where "instanceStatusReasonReady \<equiv> ''Ready''"
abbreviation instanceStatusReasonCreating :: string where "instanceStatusReasonCreating \<equiv> ''Creating''"
abbreviation instanceStatusReasonUpdating :: string where "instanceStatusReasonUpdating \<equiv> ''Updating''"
abbreviation instanceStatusReasonDeleting :: string where "instanceStatusReasonDeleting \<equiv> ''Deleting''"
abbreviation instanceStatusReasonTerminated :: string where "instanceStatusReasonTerminated \<equiv> ''Terminated''"
abbreviation instanceStatusReasonInputError :: string where "instanceStatusReasonInputError \<equiv> ''InputError''"
abbreviation instanceStatusReasonBackendError :: string where "instanceStatusReasonBackendError \<equiv> ''BackendError''"
abbreviation instanceStatusReasonNotFound :: string where "instanceStatusReasonNotFound \<equiv> ''NotFound''"
abbreviation instanceStatusReasonUnreachable :: string where "instanceStatusReasonUnreachable \<equiv> ''Unreachable''"
abbreviation instanceStatusReasonDBInstance :: string where "instanceStatusReasonDBInstance \<equiv> ''DBInstance''"

abbreviation instanceStatusMessageUpdateError :: string where
  "instanceStatusMessageUpdateError \<equiv> ''Failed to update Instance''"
abbreviation instanceStatusMessageCreating :: string where
  "instanceStatusMessageCreating \<equiv> ''Creating Instance''"
abbreviation instanceStatusMessageUpdating :: string where
  "instanceStatusMessageUpdating \<equiv> ''Updating Instance''"
abbreviation instanceStatusMessageDeleting :: string where
  "instanceStatusMessageDeleting \<equiv> ''Deleting Instance''"
abbreviation instanceStatusMessageError :: string where
  "instanceStatusMessageError \<equiv> ''Instance with error''"
abbreviation instanceStatusMessageCreateOrUpdateError :: string where
  "instanceStatusMessageCreateOrUpdateError \<equiv> ''Failed to create or update DB Instance''"
abbreviation instanceStatusMessageGetError :: string where
  "instanceStatusMessageGetError \<equiv> ''Failed to get DB Instance''"
abbreviation instanceStatusMessageDeleteError :: string where
  "instanceStatusMessageDeleteError \<equiv> ''Failed to delete DB Instance''"
abbreviation instanceStatusMessageInventoryNotFound :: string where
  "instanceStatusMessageInventoryNotFound \<equiv> ''Inventory not found''"
abbreviation instanceStatusMessageInventoryNotReady :: string where
  "instanceStatusMessageInventoryNotReady \<equiv> ''Inventory not ready''"
abbreviation instanceStatusMessageGetInventoryError :: string where
  "instanceStatusMessageGetInventoryError \<equiv> ''Failed to get Inventory''"

section \<open>State and closures\<close>

record 'w ins_st = "'w rst" +
  i_inventory :: rds_inventory
  i_instance :: rds_instance
  i_phase :: string

definition init_ins :: "'w \<Rightarrow> 'w ins_st" where
  "init_ins w = \<lparr>world = w, history = [], r_requeue = False, r_err = None, v_status = [],
     v_reason = [], v_message = [], i_inventory = empty_inventory, i_instance = empty_instance,
     i_phase = []\<rparr>"

definition ins_returnUpdating :: "('w, 'm) rst_scheme \<Rightarrow> ('w, 'm) rst_scheme" where
  "ins_returnUpdating =
     report True None ConditionUnknown instanceStatusReasonUpdating instanceStatusMessageUpdating"

definition ins_returnError :: "error \<Rightarrow> string \<Rightarrow> string \<Rightarrow> ('w, 'm) rst_scheme \<Rightarrow> ('w, 'm) rst_scheme" where
  "ins_returnError e reason message s =
     report False (Some e) ConditionFalse reason
       (if length (v_message s) > 0 then message @ '': '' @ v_message s else message) s"

definition ins_returnNotReady :: "string \<Rightarrow> string \<Rightarrow> ('w, 'm) rst_scheme \<Rightarrow> ('w, 'm) rst_scheme" where
  "ins_returnNotReady reason message = report False None ConditionFalse reason message"

definition ins_returnRequeue :: "string \<Rightarrow> string \<Rightarrow> ('w, 'm) rst_scheme \<Rightarrow> ('w, 'm) rst_scheme" where
  "ins_returnRequeue reason message = report True None ConditionFalse reason message"

definition ins_returnReady :: "('w, 'm) rst_scheme \<Rightarrow> ('w, 'm) rst_scheme" where
  "ins_returnReady s = report False None ConditionTrue instanceStatusReasonReady (v_message s) s"

definition updateInstanceReadyCondition :: "('w, 'n) env_scheme \<Rightarrow> ('w ins_st, unit) state" where
  "updateInstanceReadyCondition E = do {
     s \<leftarrow> State_Monad.get;
     let inst = i_instance s;
     let inst1 = inst\<lparr>ri_conditions := SetStatusCondition E (ri_conditions inst)
                                        (ready_condition instanceConditionReady s)\<rparr>;
     let inst2 = (if length (i_phase s) > 0 then inst1\<lparr>ri_phase := i_phase s\<rparr> else inst1);
     State_Monad.update (\<lambda>s. s\<lparr>i_instance := inst2\<rparr>);
     r \<leftarrow> api_call (api_statusUpdateInstance E inst2) (EvStatusInstance inst2);
     (case r of
        Inl e \<Rightarrow> State_Monad.update (after_status_update e)
      | Inr inst3 \<Rightarrow> State_Monad.update (\<lambda>s. s\<lparr>i_instance := inst3\<rparr>))
   }"

section \<open>Finalizer\<close>

text \<open>The two uses of \<open>r.Update\<close> on the instance differ in what they do on success.\<close>

definition ins_addFinalizer :: "('w, 'n) env_scheme \<Rightarrow> ('w ins_st, flow) state" where
  "ins_addFinalizer E = do {
     State_Monad.update (\<lambda>s. s\<lparr>i_phase := instancePhasePending\<rparr>);
     State_Monad.update (\<lambda>s. s\<lparr>i_instance := (i_instance s)\<lparr>
       ri_meta := AddFinalizer E (ri_meta (i_instance s)) instanceFinalizer\<rparr>\<rparr>);
     s \<leftarrow> State_Monad.get;
     r \<leftarrow> api_call (api_updateInstance E (i_instance s)) (EvUpdateInstance (i_instance s));
     (case r of
        Inl e \<Rightarrow> if IsConflict e then stop_with ins_returnUpdating
                 else stop_with (ins_returnError e instanceStatusReasonBackendError instanceStatusMessageUpdateError)
      | Inr inst \<Rightarrow> do {
          State_Monad.update (\<lambda>s. s\<lparr>i_instance := inst\<rparr>);
          stop_with (ins_returnNotReady instanceStatusReasonUpdating instanceStatusMessageUpdating) })
   }"

definition ins_removeFinalizer :: "('w, 'n) env_scheme \<Rightarrow> ('w ins_st, flow) state" where
  "ins_removeFinalizer E = do {
     State_Monad.update (\<lambda>s. s\<lparr>i_instance := (i_instance s)\<lparr>
       ri_meta := RemoveFinalizer E (ri_meta (i_instance s)) instanceFinalizer\<rparr>\<rparr>);
     s \<leftarrow> State_Monad.get;
     r \<leftarrow> api_call (api_updateInstance E (i_instance s)) (EvUpdateInstance (i_instance s));
     (case r of
        Inl e \<Rightarrow> if IsConflict e then stop_with ins_returnUpdating
                 else stop_with (ins_returnError e instanceStatusReasonBackendError instanceStatusMessageUpdateError)
      | Inr inst \<Rightarrow> do {
          State_Monad.update (\<lambda>s. s\<lparr>i_instance := inst\<rparr>);
          State_Monad.update (\<lambda>s. s\<lparr>i_phase := instancePhaseDeleted\<rparr>);
          stop_with (ins_returnNotReady instanceStatusReasonUpdating instanceStatusMessageUpdating) })
   }"

definition dbInstance_key :: "rds_inventory \<Rightarrow> rds_instance \<Rightarrow> key" where
  "dbInstance_key iv ri = \<lparr>k_namespace = om_namespace (inv_meta iv), k_name = om_name (ri_meta ri)\<rparr>"

definition ins_checkFinalizer :: "('w, 'n) env_scheme \<Rightarrow> ('w ins_st, flow) state" where
  "ins_checkFinalizer E = do {
     s \<leftarrow> State_Monad.get;
     let m = ri_meta (i_instance s);
     (if time_IsZero (om_deletionTimestamp m) then
        (if \<not> ContainsFinalizer E m instanceFinalizer then ins_addFinalizer E
         else State_Monad.return Continue)
      else if ContainsFinalizer E m instanceFinalizer then do {
        State_Monad.update (\<lambda>s. s\<lparr>i_phase := instancePhaseDeleting\<rparr>);
        let k = dbInstance_key (i_inventory s) (i_instance s);
        r \<leftarrow> api_call (api_getDBInstance E k) (EvGetDBInstance k);
        (case r of
           Inl e \<Rightarrow>
             if \<not> IsNotFound e
             then stop_with (ins_returnError e instanceStatusReasonBackendError instanceStatusMessageGetError)
             else ins_removeFinalizer E
         | Inr db \<Rightarrow> do {
             d \<leftarrow> api_call (api_deleteDBInstance E db) (EvDeleteDBInstance db);
             (case d of
                Some e \<Rightarrow> stop_with (ins_returnError e instanceStatusReasonBackendError instanceStatusMessageDeleteError)
              | None \<Rightarrow> stop_with ins_returnUpdating) }) }
      else stop_with (ins_returnNotReady instanceStatusReasonDeleting instanceStatusMessageDeleting))
   }"

section \<open>The DB instance\<close>

definition dbInstance_mutate ::
  "('w, 'n) env_scheme \<Rightarrow> rds_instance \<Rightarrow> db_instance \<Rightarrow> ('w ins_st, db_instance outcome) state" where
  "dbInstance_mutate E inst db =
     (case SetOwnerAnnotations E (OwnerInstance inst) (db_meta db) of
        Inl e \<Rightarrow> do {
          State_Monad.update (ins_returnError e instanceStatusReasonBackendError (Error_text e));
          State_Monad.return (Err e) }
      | Inr m \<Rightarrow> do {
          r \<leftarrow> setDBInstanceSpec E (db\<lparr>db_meta := m\<rparr>) inst;
          (case r of
             Err e \<Rightarrow> do {
               State_Monad.update (ins_returnError e instanceStatusReasonInputError (Error_text e));
               State_Monad.return (Err e) }
           | Panics \<Rightarrow> State_Monad.return Panics
           | Ret db1 \<Rightarrow> State_Monad.return (Ret db1)) })"

definition instance_applied :: "(op_result \<times> db_instance) outcome \<Rightarrow> ('w ins_st, flow) state" where
  "instance_applied r =
     (case r of
        Err e \<Rightarrow> stop_with (ins_returnError e instanceStatusReasonBackendError instanceStatusMessageCreateOrUpdateError)
      | Panics \<Rightarrow> State_Monad.return Panic
      | Ret (op, _) \<Rightarrow>
          if op = OperationResultCreated then do {
            State_Monad.update (\<lambda>s. s\<lparr>i_phase := instancePhaseCreating\<rparr>);
            stop_with (ins_returnRequeue instanceStatusReasonCreating instanceStatusMessageCreating) }
          else if op = OperationResultUpdated then do {
            State_Monad.update (\<lambda>s. s\<lparr>i_phase := instancePhaseUpdating\<rparr>);
            State_Monad.return Continue }
          else State_Monad.return Continue)"

text \<open>The object \<open>CreateOrUpdate\<close> is given.\<close>

definition fresh_db :: "rds_inventory \<Rightarrow> rds_instance \<Rightarrow> db_instance" where
  "fresh_db iv inst = empty_db_instance\<lparr>db_meta := empty_meta\<lparr>om_name := om_name (ri_meta inst),
     om_namespace := om_namespace (inv_meta iv)\<rparr>\<rparr>"

definition createOrUpdateDBInstance :: "('w, 'n) env_scheme \<Rightarrow> ('w ins_st, flow) state" where
  "createOrUpdateDBInstance E = do {
     s \<leftarrow> State_Monad.get;
     let inst = i_instance s;
     let db = fresh_db (i_inventory s) inst;
     r \<leftarrow> CreateOrUpdate (cou_fetchDBInstance E) EvFetchDBInstance (cou_storeDBInstance E) EvApplyDBInstance
            db (dbInstance_mutate E inst);
     instance_applied r
   }"

text \<open>A condition of the DB instance, as the condition of the RDSInstance it becomes.\<close>

definition convert_condition :: "ack_condition \<Rightarrow> condition" where
  "convert_condition ac =
     (let c = \<lparr>c_type = ac_type ac, c_status = ac_status ac, c_reason = [], c_message = [],
               c_lastTransitionTime = (case ac_lastTransitionTime ac of Some t \<Rightarrow> t | None \<Rightarrow> 0)\<rparr>
      in case ac_reason ac of
           Some rs \<Rightarrow>
             if length rs > 0 then
               (if reason_match rs
                then c\<lparr>c_reason := rs,
                       c_message := (case ac_message ac of Some msg \<Rightarrow> msg | None \<Rightarrow> [])\<rparr>
                else c\<lparr>c_reason := instanceStatusReasonDBInstance,
                       c_message := (case ac_message ac of
                           Some msg \<Rightarrow> ''Reason: '' @ rs @ '', Message: '' @ msg
                         | None \<Rightarrow> ''Reason: '' @ rs)\<rparr>)
             else c\<lparr>c_reason := instanceStatusReasonDBInstance,
                    c_message := (case ac_message ac of Some msg \<Rightarrow> msg | None \<Rightarrow> [])\<rparr>
         | None \<Rightarrow> c\<lparr>c_reason := instanceStatusReasonDBInstance,
                     c_message := (case ac_message ac of Some msg \<Rightarrow> msg | None \<Rightarrow> [])\<rparr>)"

definition merge_conditions :: "'n lib_scheme \<Rightarrow> ack_condition list \<Rightarrow> condition list \<Rightarrow> condition list" where
  "merge_conditions L acs cs = foldl (\<lambda>cs ac. SetStatusCondition L cs (convert_condition ac)) cs acs"

text \<open>The DB instance's identifier, phase, status and conditions, copied into the instance.\<close>

definition copy_status :: "'n lib_scheme \<Rightarrow> db_instance \<Rightarrow> string \<Rightarrow> rds_instance \<Rightarrow> rds_instance" where
  "copy_status L db ident inst =
     (let inst1 = setDBInstanceStatus L db (setDBInstancePhase db (inst\<lparr>ri_instanceID := ident\<rparr>))
      in inst1\<lparr>ri_conditions := merge_conditions L (st_conditions (db_status db)) (ri_conditions inst1)\<rparr>)"

definition syncDBInstanceStatus :: "('w, 'n) env_scheme \<Rightarrow> ('w ins_st, flow) state" where
  "syncDBInstanceStatus E = do {
     s \<leftarrow> State_Monad.get;
     let k = dbInstance_key (i_inventory s) (i_instance s);
     r \<leftarrow> api_call (api_getDBInstance E k) (EvGetDBInstance k);
     (case r of
        Inl e \<Rightarrow>
          if IsNotFound e
          then stop_with (ins_returnError e instanceStatusReasonNotFound instanceStatusMessageGetError)
          else stop_with (ins_returnError e instanceStatusReasonBackendError instanceStatusMessageGetError)
      | Inr db \<Rightarrow>
          (case sp_dbInstanceIdentifier (db_spec db) of
             None \<Rightarrow> State_Monad.return Panic
           | Some ident \<Rightarrow> do {
               let inst1 = copy_status E db ident (i_instance s);
               State_Monad.update (\<lambda>s. s\<lparr>i_instance := inst1\<rparr>);
               u \<leftarrow> api_call (api_statusUpdateInstance E inst1) (EvStatusInstance inst1);
               (case u of
                  Inl e \<Rightarrow>
                    if IsConflict e then stop_with ins_returnUpdating
                    else stop_with (ins_returnError e instanceStatusReasonBackendError instanceStatusMessageUpdateError)
                | Inr inst2 \<Rightarrow> do {
                    State_Monad.update (\<lambda>s. s\<lparr>i_instance := inst2\<rparr>);
                    State_Monad.return Continue }) }))
   }"

section \<open>Reconcile\<close>

text \<open>The final switch on the phase.\<close>

definition report_phase :: "'w ins_st \<Rightarrow> 'w ins_st" where
  "report_phase s =
     (let ph = ri_phase (i_instance s)
      in if ph = instancePhaseReady then ins_returnReady s
         else if ph \<in> set [instancePhaseFailed, instancePhaseDeleted]
              then ins_returnNotReady instanceStatusReasonTerminated ph s
         else if ph \<in> set [instancePhasePending, instancePhaseCreating, instancePhaseUpdating, instancePhaseDeleting]
              then ins_returnUpdating s
         else if ph \<in> set [instancePhaseError, instancePhaseUnknown]
              then ins_returnRequeue instanceStatusReasonBackendError instanceStatusMessageError s
         else s)"

definition ins_work :: "('w, 'n) env_scheme \<Rightarrow> ('w ins_st, flow) state" where
  "ins_work E =
     andThen (ins_checkFinalizer E)
    (andThen (createOrUpdateDBInstance E)
    (andThen (syncDBInstanceStatus E)
     (stop_with report_phase)))"

definition ins_body :: "('w, 'n) env_scheme \<Rightarrow> ('w ins_st, flow) state" where
  "ins_body E = do {
     s \<leftarrow> State_Monad.get;
     let k = ri_inventoryRef (i_instance s);
     r \<leftarrow> api_call (api_getInventory E k) (EvGetInventory k);
     (case r of
        Inl e \<Rightarrow>
          if IsNotFound e
          then stop_with (ins_returnError e instanceStatusReasonNotFound instanceStatusMessageInventoryNotFound)
          else stop_with (ins_returnError e instanceStatusReasonBackendError instanceStatusMessageGetInventoryError)
      | Inr iv \<Rightarrow> do {
          State_Monad.update (\<lambda>s. s\<lparr>i_inventory := iv\<rparr>);
          (if \<not> inventory_ready E iv
           then stop_with (ins_returnRequeue instanceStatusReasonUnreachable instanceStatusMessageInventoryNotReady)
           else ins_work E) })
   }"

definition Reconcile_instance :: "('w, 'n) env_scheme \<Rightarrow> key \<Rightarrow> ('w ins_st, flow) state" where
  "Reconcile_instance E req = do {
     r \<leftarrow> api_call (api_getInstance E req) (EvGetInstance req);
     (case r of
        Inl e \<Rightarrow>
          if IsNotFound e then State_Monad.return Stop
          else stop_with (\<lambda>s. s\<lparr>r_err := Some e\<rparr>)
      | Inr inst \<Rightarrow> do {
          State_Monad.update (\<lambda>s. s\<lparr>i_instance := inst\<rparr>);
          deferring (updateInstanceReadyCondition E) (ins_body E) })
   }"

end
