(* ===== verification/InstanceFacts.thy ===== *)
theory InstanceFacts
  imports InstanceController InstanceSpecFacts
begin

text \<open>
  The RDSInstance reconciler as a protocol: its closures meet the contracts of \<open>Reconcile\<close>, and
  every run of \<open>Reconcile\<close> leaves a history of one shape, read object, read inventory, calls
  allowed for that object and inventory, status update, whatever the outside answers.
\<close>

section \<open>The closures meet their contract\<close>

lemma reason_match_instance [simp]:
  "reason_match instanceStatusReasonReady" "reason_match instanceStatusReasonCreating"
  "reason_match instanceStatusReasonUpdating" "reason_match instanceStatusReasonDeleting"
  "reason_match instanceStatusReasonTerminated" "reason_match instanceStatusReasonInputError"
  "reason_match instanceStatusReasonBackendError" "reason_match instanceStatusReasonNotFound"
  "reason_match instanceStatusReasonUnreachable" "reason_match instanceStatusReasonDBInstance"
  by code_simp+

interpretation ins_rep: waiting_reporter ins_returnError ins_returnRequeue ins_returnReady
  ins_returnUpdating ins_returnNotReady
  by unfold_locales
    (force simp: ins_returnError_def ins_returnRequeue_def ins_returnReady_def
      ins_returnUpdating_def ins_returnNotReady_def)+

abbreviation ins_live :: "rds_instance \<Rightarrow> bool" where
  "ins_live inst \<equiv> time_IsZero (om_deletionTimestamp (ri_meta inst))"

abbreviation ins_guarded :: "'n lib_scheme \<Rightarrow> rds_instance \<Rightarrow> bool" where
  "ins_guarded L inst \<equiv> ContainsFinalizer L (ri_meta inst) instanceFinalizer"

lemma wp_ins_addFinalizer_stops: "wp (ins_addFinalizer E) (\<lambda>f _. f = Stop) s"
  unfolding ins_addFinalizer_def
  by (simp add: wp_simps split: sum.splits prod.splits)

lemma wp_ins_removeFinalizer_stops: "wp (ins_removeFinalizer E) (\<lambda>f _. f = Stop) s"
  unfolding ins_removeFinalizer_def
  by (simp add: wp_simps split: sum.splits prod.splits)

lemma wp_ins_checkFinalizer_stops:
  "\<not> (ins_live (i_instance s) \<and> ins_guarded E (i_instance s)) \<Longrightarrow>
   wp (ins_checkFinalizer E) (\<lambda>f _. f = Stop) s"
  unfolding ins_checkFinalizer_def
  by (auto simp: wp_simps wp_ins_addFinalizer_stops wp_ins_removeFinalizer_stops
      split: sum.splits prod.splits option.splits)

interpretation ins_guard: finalizer_guard "ins_checkFinalizer E"
  "\<lambda>s. ins_live (i_instance s)" "\<lambda>s. ins_guarded E (i_instance s)" for E
proof
  show "run_state (ins_checkFinalizer E) s = (Continue, s)"
    if "ins_live (i_instance s)" "ins_guarded E (i_instance s)" for s
    using that by (simp add: run_iff_wp ins_checkFinalizer_def wp_simps)
  show "fst (run_state (ins_checkFinalizer E) s) \<noteq> Continue"
    if "\<not> (ins_live (i_instance s) \<and> ins_guarded E (i_instance s))" for s
    using wp_ins_checkFinalizer_stops [OF that] by (simp add: wp_fst_snd)
qed

section \<open>The calls of one reconciliation\<close>

text \<open>
  Each step is described by the list of the calls it makes, with the answers it got, and by how
  it ends. First the mutate function of \<open>CreateOrUpdate\<close> on the object \<open>old\<close>.
\<close>

definition mutated :: "('w, 'n) env_scheme \<Rightarrow> rds_instance \<Rightarrow> db_instance \<Rightarrow> event list \<Rightarrow> db_instance outcome \<Rightarrow> bool" where
  "mutated E inst old l r \<longleftrightarrow>
     (case SetOwnerAnnotations E (OwnerInstance inst) (db_meta old) of
        Inl e \<Rightarrow> l = [] \<and> r = Err e
      | Inr m \<Rightarrow>
          list_all (spec_call E (om_name m) inst) l \<and>
          (case r of
             Ret new \<Rightarrow> desired_db inst (old\<lparr>db_meta := m\<rparr>) new
           | Err e \<Rightarrow> spec_error inst e
           | Panics \<Rightarrow> True))"

text \<open>The object \<open>CreateOrUpdate\<close> hands to it: the one it found, or the fresh one.\<close>

definition found_or_fresh :: "rds_inventory \<Rightarrow> rds_instance \<Rightarrow> db_instance option \<Rightarrow> db_instance" where
  "found_or_fresh iv inst found = (case found of None \<Rightarrow> fresh_db iv inst | Some old \<Rightarrow> old)"

text \<open>How \<open>createOrUpdateDBInstance\<close> goes on after the answer to its write.\<close>

definition after_apply :: "error + op_result \<times> db_instance \<Rightarrow> flow" where
  "after_apply a =
     (case a of Inl _ \<Rightarrow> Stop | Inr (op, _) \<Rightarrow> if op = OperationResultCreated then Stop else Continue)"

definition create_calls :: "('w, 'n) env_scheme \<Rightarrow> rds_inventory \<Rightarrow> rds_instance \<Rightarrow> flow \<Rightarrow> event list \<Rightarrow> bool" where
  "create_calls E iv inst f l \<longleftrightarrow>
     (\<exists>e. l = [EvFetchDBInstance (fresh_db iv inst) (Inl e)] \<and> f = Stop) \<or>
     (\<exists>found calls r. mutated E inst (found_or_fresh iv inst found) calls r \<and>
        (case r of
           Ret new \<Rightarrow> \<exists>a. f = after_apply a \<and>
             l = EvFetchDBInstance (fresh_db iv inst) (Inr found) # calls @ [EvApplyDBInstance new a]
         | Err _ \<Rightarrow> f = Stop \<and> l = EvFetchDBInstance (fresh_db iv inst) (Inr found) # calls
         | Panics \<Rightarrow> f = Panic \<and> l = EvFetchDBInstance (fresh_db iv inst) (Inr found) # calls))"

text \<open>The DB instance is read back and its status copied into the instance's.\<close>

definition sync_calls :: "('w, 'n) env_scheme \<Rightarrow> rds_inventory \<Rightarrow> rds_instance \<Rightarrow> flow \<Rightarrow> event list \<Rightarrow> bool" where
  "sync_calls E iv inst f l \<longleftrightarrow>
     (\<exists>e. f = Stop \<and> l = [EvGetDBInstance (dbInstance_key iv inst) (Inl e)]) \<or>
     (\<exists>db. sp_dbInstanceIdentifier (db_spec db) = None \<and> f = Panic \<and>
        l = [EvGetDBInstance (dbInstance_key iv inst) (Inr db)]) \<or>
     (\<exists>db i a. sp_dbInstanceIdentifier (db_spec db) = Some i \<and>
        f = (case a of Inl _ \<Rightarrow> Stop | Inr _ \<Rightarrow> Continue) \<and>
        l = [EvGetDBInstance (dbInstance_key iv inst) (Inr db), EvStatusInstance (copy_status E db i inst) a])"

text \<open>The finalizer check, in its four cases.\<close>

definition finalizer_calls :: "('w, 'n) env_scheme \<Rightarrow> rds_inventory \<Rightarrow> rds_instance \<Rightarrow> flow \<Rightarrow> event list \<Rightarrow> bool" where
  "finalizer_calls E iv inst f l \<longleftrightarrow>
     (if ins_live inst then
        (if ins_guarded E inst then f = Continue \<and> l = []
         else f = Stop \<and> (\<exists>r. l = [EvUpdateInstance
           (inst\<lparr>ri_meta := AddFinalizer E (ri_meta inst) instanceFinalizer\<rparr>) r]))
      else if ins_guarded E inst then
        f = Stop \<and>
        ((\<exists>e. \<not> IsNotFound e \<and> l = [EvGetDBInstance (dbInstance_key iv inst) (Inl e)]) \<or>
         (\<exists>e r. IsNotFound e \<and> l = [EvGetDBInstance (dbInstance_key iv inst) (Inl e),
            EvUpdateInstance (inst\<lparr>ri_meta := RemoveFinalizer E (ri_meta inst) instanceFinalizer\<rparr>) r]) \<or>
         (\<exists>db r. l = [EvGetDBInstance (dbInstance_key iv inst) (Inr db), EvDeleteDBInstance db r]))
      else f = Stop \<and> l = [])"

text \<open>Everything after the inventory: the check and, if it lets the instance pass, the rest.\<close>

definition work_calls :: "('w, 'n) env_scheme \<Rightarrow> rds_inventory \<Rightarrow> rds_instance \<Rightarrow> event list \<Rightarrow> bool" where
  "work_calls E iv inst l \<longleftrightarrow>
     (\<exists>f l1. finalizer_calls E iv inst f l1 \<and>
        (if f \<noteq> Continue then l = l1
         else \<exists>f2 l2. create_calls E iv inst f2 l2 \<and>
           (if f2 \<noteq> Continue then l = l1 @ l2
            else \<exists>f3 l3. sync_calls E iv inst f3 l3 \<and> l = l1 @ l2 @ l3)))"

text \<open>The whole history of a reconciliation.\<close>

definition ins_trace :: "('w, 'n) env_scheme \<Rightarrow> key \<Rightarrow> event list \<Rightarrow> bool" where
  "ins_trace E req h \<longleftrightarrow>
     (\<exists>e. h = [EvGetInstance req (Inl e)]) \<or>
     (\<exists>inst e last r. h = [EvGetInstance req (Inr inst),
        EvGetInventory (ri_inventoryRef inst) (Inl e), EvStatusInstance last r]) \<or>
     (\<exists>inst iv calls last r. h = [EvGetInstance req (Inr inst),
        EvGetInventory (ri_inventoryRef inst) (Inr iv)] @ calls @ [EvStatusInstance last r] \<and>
        (if inventory_ready E iv then work_calls E iv inst calls else calls = []))"

text \<open>A step from \<open>s\<close> to \<open>t\<close> that leaves the instance and the inventory alone.\<close>

definition stepped :: "'w ins_st \<Rightarrow> event list \<Rightarrow> 'w ins_st \<Rightarrow> bool" where
  "stepped s l t \<longleftrightarrow>
     history t = history s @ l \<and> i_instance t = i_instance s \<and> i_inventory t = i_inventory s"

lemma returns_frame [simp]:
  "history (ins_returnError e rs m s) = history s" "history (ins_returnUpdating s) = history s"
  "history (ins_returnNotReady rs m s) = history s" "history (ins_returnRequeue rs m s) = history s"
  by (simp_all add: ins_returnError_def ins_returnUpdating_def ins_returnNotReady_def ins_returnRequeue_def)

lemma returns_keep [simp]:
  "i_instance (ins_returnError e rs m s) = i_instance s" "i_inventory (ins_returnError e rs m s) = i_inventory s"
  "i_instance (ins_returnRequeue rs m s) = i_instance s" "i_inventory (ins_returnRequeue rs m s) = i_inventory s"
  by (simp_all add: ins_returnError_def ins_returnRequeue_def report_def)

lemma report_phase_history [simp]: "history (report_phase s) = history s"
  by (simp add: report_phase_def Let_def ins_rep.ready_frame)

lemma extends_stepped: "extends P s t \<Longrightarrow> \<exists>l. stepped s l t \<and> list_all P l"
  unfolding extends_def stepped_def by auto

lemma wp_dbInstance_mutate:
  "wp (dbInstance_mutate E inst old) (\<lambda>r t. \<exists>l. stepped s l t \<and> mutated E inst old l r) s"
proof (cases "SetOwnerAnnotations E (OwnerInstance inst) (db_meta old)")
  case (Inl e)
  then show ?thesis by (simp add: dbInstance_mutate_def wp_simps stepped_def mutated_def)
next
  case (Inr m)
  let ?base = "old\<lparr>db_meta := m\<rparr>"
  have "does (spec_call E (om_name m) inst) (setDBInstanceSpec E ?base inst)
      (\<lambda>r. case r of Ret new \<Rightarrow> desired_db inst ?base new | Err e \<Rightarrow> spec_error inst e | Panics \<Rightarrow> True)"
    using does_setDBInstanceSpec [where E = E and db = ?base and ri = inst] by simp
  then show ?thesis
    unfolding dbInstance_mutate_def Inr sum.case wp_bind
  proof (rule does_wp)
    fix r and t :: "'a ins_st"
    assume "extends (spec_call E (om_name m) inst) s t"
      and r: "case r of Ret new \<Rightarrow> desired_db inst ?base new | Err e \<Rightarrow> spec_error inst e | Panics \<Rightarrow> True"
    then obtain l where "stepped s l t" "list_all (spec_call E (om_name m) inst) l"
      using extends_stepped by blast
    with r show "wp (case r of
           Err e \<Rightarrow> do {
             State_Monad.update (ins_returnError e instanceStatusReasonInputError (Error_text e));
             State_Monad.return (Err e) }
         | Panics \<Rightarrow> State_Monad.return Panics
         | Ret db1 \<Rightarrow> State_Monad.return (Ret db1))
        (\<lambda>r t. \<exists>l. stepped s l t \<and> mutated E inst old l r) t"
      by (cases r) (auto simp: wp_simps mutated_def Inr stepped_def)
  qed
qed

lemma wp_instance_applied:
  "wp (instance_applied r) (\<lambda>f t. stepped s [] t \<and>
     f = (case r of Ret a \<Rightarrow> after_apply (Inr a) | Err _ \<Rightarrow> Stop | Panics \<Rightarrow> Panic)) s"
  by (auto simp: instance_applied_def wp_simps stepped_def after_apply_def split: outcome.split)

lemma wp_createOrUpdateDBInstance:
  assumes "i_instance s = inst" "i_inventory s = iv"
  shows "wp (createOrUpdateDBInstance E) (\<lambda>f t. \<exists>l. stepped s l t \<and> create_calls E iv inst f l) s"
proof -
  let ?ev = "EvFetchDBInstance (fresh_db iv inst)"
  have applied: "wp (instance_applied r) (\<lambda>f t. \<exists>l. stepped s l t \<and> create_calls E iv inst f l) t"
    if "stepped s l t" "create_calls E iv inst (case r of Ret a \<Rightarrow> after_apply (Inr a) | Err _ \<Rightarrow> Stop | Panics \<Rightarrow> Panic) l"
    for r l and t :: "'a ins_st"
    using that by (auto simp: stepped_def intro!: wp_mono [OF wp_instance_applied])
  show ?thesis
    unfolding createOrUpdateDBInstance_def wp_bind wp_get Let_def assms
  proof (rule wp_CreateOrUpdate)
    show "wp (instance_applied (Err e)) (\<lambda>f t. \<exists>l. stepped s l t \<and> create_calls E iv inst f l)
        (s\<lparr>world := w, history := history s @ [?ev (Inl e)]\<rparr>)" for e w
      by (rule applied [where l = "[?ev (Inl e)]"]) (simp_all add: stepped_def create_calls_def)
  next
    fix found w
    let ?s = "s\<lparr>world := w, history := history s @ [?ev (Inr found)]\<rparr>"
    let ?old = "case found of None \<Rightarrow> fresh_db iv inst | Some old \<Rightarrow> old"
    show "wp (dbInstance_mutate E inst ?old) (\<lambda>m t. case m of
           Ret new \<Rightarrow> \<forall>r w. wp (instance_applied (case r of Inl e \<Rightarrow> Err e | Inr res \<Rightarrow> Ret res))
             (\<lambda>f t. \<exists>l. stepped s l t \<and> create_calls E iv inst f l)
             (t\<lparr>world := w, history := history t @ [EvApplyDBInstance new r]\<rparr>)
         | Err e \<Rightarrow> wp (instance_applied (Err e)) (\<lambda>f t. \<exists>l. stepped s l t \<and> create_calls E iv inst f l) t
         | Panics \<Rightarrow> wp (instance_applied Panics) (\<lambda>f t. \<exists>l. stepped s l t \<and> create_calls E iv inst f l) t) ?s"
    proof (rule wp_mono [OF wp_dbInstance_mutate])
      fix m and t :: "'a ins_st"
      assume "\<exists>l. stepped ?s l t \<and> mutated E inst ?old l m"
      then obtain l where t: "stepped s (?ev (Inr found) # l) t"
        and m: "mutated E inst (found_or_fresh iv inst found) l m"
        by (auto simp: stepped_def found_or_fresh_def)
      show "case m of
           Ret new \<Rightarrow> \<forall>r w. wp (instance_applied (case r of Inl e \<Rightarrow> Err e | Inr res \<Rightarrow> Ret res))
             (\<lambda>f t. \<exists>l. stepped s l t \<and> create_calls E iv inst f l)
             (t\<lparr>world := w, history := history t @ [EvApplyDBInstance new r]\<rparr>)
         | Err e \<Rightarrow> wp (instance_applied (Err e)) (\<lambda>f t. \<exists>l. stepped s l t \<and> create_calls E iv inst f l) t
         | Panics \<Rightarrow> wp (instance_applied Panics) (\<lambda>f t. \<exists>l. stepped s l t \<and> create_calls E iv inst f l) t"
      proof (cases m)
        case (Ret new)
        have "wp (instance_applied (case r of Inl e \<Rightarrow> Err e | Inr res \<Rightarrow> Ret res))
            (\<lambda>f t. \<exists>l. stepped s l t \<and> create_calls E iv inst f l)
            (t\<lparr>world := w, history := history t @ [EvApplyDBInstance new r]\<rparr>)" for r w
        proof (rule applied [where l = "?ev (Inr found) # l @ [EvApplyDBInstance new r]"])
          show "create_calls E iv inst
              (case (case r of Inl e \<Rightarrow> Err e | Inr res \<Rightarrow> Ret res) of
                 Ret a \<Rightarrow> after_apply (Inr a) | Err _ \<Rightarrow> Stop | Panics \<Rightarrow> Panic)
              (?ev (Inr found) # l @ [EvApplyDBInstance new r])"
            using m unfolding create_calls_def Ret
            by (intro disjI2 exI [of _ found] exI [of _ l] exI [of _ "Ret new"])
              (cases r; auto simp: after_apply_def)
        qed (use t in \<open>simp add: stepped_def\<close>)
        then show ?thesis by (simp add: Ret)
      next
        case (Err e)
        have "create_calls E iv inst Stop (?ev (Inr found) # l)"
          using m unfolding create_calls_def Err by fastforce
        then show ?thesis using applied [OF t, of "Err e"] by (simp add: Err)
      next
        case Panics
        have "create_calls E iv inst Panic (?ev (Inr found) # l)"
          using m unfolding create_calls_def Panics by fastforce
        then show ?thesis using applied [OF t, of Panics] by (simp add: Panics)
      qed
    qed
  qed
qed

lemma sync_calls_intros:
  "sync_calls E iv inst Stop [EvGetDBInstance (dbInstance_key iv inst) (Inl e)]"
  "sp_dbInstanceIdentifier (db_spec db) = None \<Longrightarrow>
   sync_calls E iv inst Panic [EvGetDBInstance (dbInstance_key iv inst) (Inr db)]"
  "sp_dbInstanceIdentifier (db_spec db) = Some i \<Longrightarrow> sync_calls E iv inst Stop
   [EvGetDBInstance (dbInstance_key iv inst) (Inr db), EvStatusInstance (copy_status E db i inst) (Inl e)]"
  "sp_dbInstanceIdentifier (db_spec db) = Some i \<Longrightarrow> sync_calls E iv inst Continue
   [EvGetDBInstance (dbInstance_key iv inst) (Inr db), EvStatusInstance (copy_status E db i inst) (Inr inst2)]"
  unfolding sync_calls_def by auto

lemma wp_syncDBInstanceStatus:
  assumes "i_instance s = inst" "i_inventory s = iv"
  shows "wp (syncDBInstanceStatus E)
    (\<lambda>f t. \<exists>l. history t = history s @ l \<and> sync_calls E iv inst f l) s"
  unfolding syncDBInstanceStatus_def Let_def
  using assms
  by (auto simp: wp_simps sync_calls_intros split: sum.split option.split prod.split)

lemma wp_ins_checkFinalizer:
  assumes "i_instance s = inst" "i_inventory s = iv"
  shows "wp (ins_checkFinalizer E) (\<lambda>f t. \<exists>l. history t = history s @ l \<and>
     finalizer_calls E iv inst f l \<and> (f = Continue \<longrightarrow> t = s)) s"
  unfolding ins_checkFinalizer_def ins_addFinalizer_def ins_removeFinalizer_def finalizer_calls_def
  using assms
  by (auto simp: wp_simps Let_def split: sum.split option.split prod.split)

lemma wp_ins_work:
  assumes "i_instance s = inst" "i_inventory s = iv"
  shows "wp (ins_work E) (\<lambda>_ t. \<exists>l. history t = history s @ l \<and> work_calls E iv inst l) s"
proof -
  have sync: "wp (andThen (syncDBInstanceStatus E) (stop_with report_phase))
      (\<lambda>_ t. \<exists>l. history t = history s @ l \<and> work_calls E iv inst l) t"
    if "stepped s l t" "create_calls E iv inst Continue l" "finalizer_calls E iv inst Continue []" for l t
    unfolding wp_andThen wp_stop_with
    by (rule wp_mono [OF wp_syncDBInstanceStatus [where inst = inst and iv = iv]])
      (use assms that in \<open>fastforce simp: stepped_def work_calls_def\<close>)+
  have create: "wp (andThen (createOrUpdateDBInstance E) (andThen (syncDBInstanceStatus E) (stop_with report_phase)))
      (\<lambda>_ t. \<exists>l. history t = history s @ l \<and> work_calls E iv inst l) s"
    if "finalizer_calls E iv inst Continue []"
    unfolding wp_andThen [of "createOrUpdateDBInstance E"]
  proof (rule wp_mono [OF wp_createOrUpdateDBInstance [OF assms]])
    fix f and t :: "'a ins_st"
    assume "\<exists>l. stepped s l t \<and> create_calls E iv inst f l"
    then obtain l where l: "stepped s l t" "create_calls E iv inst f l" by blast
    have "work_calls E iv inst l" if "f \<noteq> Continue"
      using that l(2) \<open>finalizer_calls E iv inst Continue []\<close> unfolding work_calls_def by fastforce
    then show "if f = Continue
       then wp (andThen (syncDBInstanceStatus E) (stop_with report_phase))
         (\<lambda>_ t. \<exists>l. history t = history s @ l \<and> work_calls E iv inst l) t
       else \<exists>l. history t = history s @ l \<and> work_calls E iv inst l"
      using l sync \<open>finalizer_calls E iv inst Continue []\<close> by (auto simp: stepped_def)
  qed
  show ?thesis
    unfolding ins_work_def wp_andThen [of "ins_checkFinalizer E"]
  proof (rule wp_mono [OF wp_ins_checkFinalizer [OF assms]])
    fix f and t :: "'a ins_st"
    assume "\<exists>l. history t = history s @ l \<and> finalizer_calls E iv inst f l \<and> (f = Continue \<longrightarrow> t = s)"
    then obtain l where l: "history t = history s @ l" "finalizer_calls E iv inst f l" "f = Continue \<longrightarrow> t = s"
      by blast
    have "work_calls E iv inst l" if "f \<noteq> Continue"
      using that l(2) unfolding work_calls_def by fastforce
    moreover have "l = []" if "f = Continue" using that l(1,3) by simp
    ultimately show "if f = Continue
       then wp (andThen (createOrUpdateDBInstance E) (andThen (syncDBInstanceStatus E) (stop_with report_phase)))
         (\<lambda>_ t. \<exists>l. history t = history s @ l \<and> work_calls E iv inst l) t
       else \<exists>l. history t = history s @ l \<and> work_calls E iv inst l"
      using l create by auto
  qed
qed

text \<open>What a write, an update or a deletion among the calls says about the others.\<close>

lemma spec_call_only:
  "list_all (spec_call E nm inst) l \<Longrightarrow> EvApplyDBInstance new r \<notin> set l"
  "list_all (spec_call E nm inst) l \<Longrightarrow> EvFetchDBInstance db x \<notin> set l"
  "list_all (spec_call E nm inst) l \<Longrightarrow> EvUpdateInstance i y \<notin> set l"
  "list_all (spec_call E nm inst) l \<Longrightarrow> EvDeleteDBInstance db z \<notin> set l"
  by (auto simp: list_all_iff credential_call_def)

lemma mutated_only:
  assumes "mutated E inst old l r"
  shows "EvApplyDBInstance new a \<notin> set l" "EvUpdateInstance i y \<notin> set l" "EvDeleteDBInstance db z \<notin> set l"
  using assms unfolding mutated_def by (auto split: sum.splits dest: spec_call_only)

lemma finalizer_calls_only:
  "finalizer_calls E iv inst f l \<Longrightarrow> EvApplyDBInstance new r \<notin> set l"
  "finalizer_calls E iv inst Continue l \<Longrightarrow> l = [] \<and> ins_live inst \<and> ins_guarded E inst"
  unfolding finalizer_calls_def by (auto split: if_splits)

lemma sync_calls_only:
  "sync_calls E iv inst f l \<Longrightarrow> EvApplyDBInstance new r \<notin> set l"
  "sync_calls E iv inst f l \<Longrightarrow> EvUpdateInstance i y \<notin> set l"
  "sync_calls E iv inst f l \<Longrightarrow> EvDeleteDBInstance db z \<notin> set l"
  unfolding sync_calls_def by auto

lemma create_calls_cases:
  assumes "create_calls E iv inst f l"
  obtains (missed) e where "l = [EvFetchDBInstance (fresh_db iv inst) (Inl e)]"
    | (applied) found calls new a where "mutated E inst (found_or_fresh iv inst found) calls (Ret new)"
        "l = EvFetchDBInstance (fresh_db iv inst) (Inr found) # calls @ [EvApplyDBInstance new a]"
    | (ended) found calls r where "mutated E inst (found_or_fresh iv inst found) calls r"
        "l = EvFetchDBInstance (fresh_db iv inst) (Inr found) # calls"
proof -
  consider "\<exists>e. l = [EvFetchDBInstance (fresh_db iv inst) (Inl e)]"
    | found calls r where "mutated E inst (found_or_fresh iv inst found) calls r"
      "case r of
           Ret new \<Rightarrow> \<exists>a. f = after_apply a \<and>
             l = EvFetchDBInstance (fresh_db iv inst) (Inr found) # calls @ [EvApplyDBInstance new a]
         | Err _ \<Rightarrow> f = Stop \<and> l = EvFetchDBInstance (fresh_db iv inst) (Inr found) # calls
         | Panics \<Rightarrow> f = Panic \<and> l = EvFetchDBInstance (fresh_db iv inst) (Inr found) # calls"
    using assms unfolding create_calls_def by blast
  then show thesis
  proof cases
    case 1
    then show thesis using missed by blast
  next
    case (2 found calls r)
    then show thesis using applied ended by (cases r) auto
  qed
qed

lemma create_calls_only:
  assumes "create_calls E iv inst f l"
  shows "EvUpdateInstance i y \<notin> set l" "EvDeleteDBInstance db z \<notin> set l"
  using assms by (cases rule: create_calls_cases; simp add: mutated_only)+

lemma create_calls_apply:
  assumes "create_calls E iv inst f l" "EvApplyDBInstance new a \<in> set l"
  shows "\<exists>found m. EvFetchDBInstance (fresh_db iv inst) (Inr found) \<in> set l \<and>
    SetOwnerAnnotations E (OwnerInstance inst) (db_meta (found_or_fresh iv inst found)) = Inr m \<and>
    desired_db inst ((found_or_fresh iv inst found)\<lparr>db_meta := m\<rparr>) new"
  using assms(1)
proof (cases rule: create_calls_cases)
  case (applied found calls new' a')
  then have "new' = new" using assms(2) mutated_only(1) by fastforce
  with applied show ?thesis
    by (intro exI [of _ found]) (auto simp: mutated_def split: sum.splits)
qed (use assms(2) in \<open>auto dest: mutated_only(1)\<close>)

lemma work_calls_cases:
  assumes "work_calls E iv inst l"
  obtains (checked) f where "finalizer_calls E iv inst f l" "f \<noteq> Continue"
    | (created) f where "ins_live inst" "ins_guarded E inst" "create_calls E iv inst f l" "f \<noteq> Continue"
    | (synced) f l2 l3 where "ins_live inst" "ins_guarded E inst" "create_calls E iv inst Continue l2"
        "sync_calls E iv inst f l3" "l = l2 @ l3"
proof -
  from assms obtain f l1 where f: "finalizer_calls E iv inst f l1"
    "if f \<noteq> Continue then l = l1 else \<exists>f2 l2. create_calls E iv inst f2 l2 \<and>
       (if f2 \<noteq> Continue then l = l1 @ l2
        else \<exists>f3 l3. sync_calls E iv inst f3 l3 \<and> l = l1 @ l2 @ l3)"
    unfolding work_calls_def by blast
  show thesis
  proof (cases "f = Continue")
    case False
    then show thesis using checked f by simp
  next
    case True
    then have pass: "l1 = []" "ins_live inst" "ins_guarded E inst" using finalizer_calls_only(2) f(1) by blast+
    obtain f2 l2 where f2: "create_calls E iv inst f2 l2" "if f2 \<noteq> Continue then l = l1 @ l2
        else \<exists>f3 l3. sync_calls E iv inst f3 l3 \<and> l = l1 @ l2 @ l3"
      using f(2) True by auto
    show thesis
    proof (cases "f2 = Continue")
      case False
      then show thesis using created f2 pass by simp
    next
      case True
      then show thesis using synced f2 pass by auto
    qed
  qed
qed

lemma work_calls_apply:
  assumes "work_calls E iv inst l" "EvApplyDBInstance new a \<in> set l"
  shows "ins_live inst \<and> ins_guarded E inst \<and>
    (\<exists>found m. EvFetchDBInstance (fresh_db iv inst) (Inr found) \<in> set l \<and>
      SetOwnerAnnotations E (OwnerInstance inst) (db_meta (found_or_fresh iv inst found)) = Inr m \<and>
      desired_db inst ((found_or_fresh iv inst found)\<lparr>db_meta := m\<rparr>) new)"
  using assms(1)
proof (cases rule: work_calls_cases)
  case (checked f)
  then show ?thesis using assms(2) finalizer_calls_only(1) by blast
next
  case (created f)
  then show ?thesis using create_calls_apply assms(2) by blast
next
  case (synced f l2 l3)
  then have "EvApplyDBInstance new a \<in> set l2" using assms(2) sync_calls_only(1) by fastforce
  from create_calls_apply [OF synced(3) this] synced show ?thesis by auto
qed

text \<open>An update of the RDSInstance or a deletion of the DB instance comes from the finalizer check.\<close>

lemma work_calls_finalizer:
  assumes "work_calls E iv inst l" "EvUpdateInstance i y \<in> set l \<or> EvDeleteDBInstance db z \<in> set l"
  shows "\<exists>f. finalizer_calls E iv inst f l"
  using assms(1)
proof (cases rule: work_calls_cases)
  case (created f)
  then show ?thesis using assms(2) create_calls_only by blast
next
  case (synced f l2 l3)
  then show ?thesis using assms(2) create_calls_only sync_calls_only by fastforce
qed blast

lemma wp_updateInstanceReadyCondition:
  "wp (updateInstanceReadyCondition E)
     (\<lambda>_ t. \<exists>last r. history t = history s @ [EvStatusInstance last r]) s"
  by (auto simp: updateInstanceReadyCondition_def wp_simps Let_def after_status_update_def
      split: sum.split prod.split)

definition body_trace :: "('w, 'n) env_scheme \<Rightarrow> rds_instance \<Rightarrow> event list \<Rightarrow> bool" where
  "body_trace E inst h \<longleftrightarrow>
     (\<exists>e. h = [EvGetInventory (ri_inventoryRef inst) (Inl e)]) \<or>
     (\<exists>iv calls. h = EvGetInventory (ri_inventoryRef inst) (Inr iv) # calls \<and>
        (if inventory_ready E iv then work_calls E iv inst calls else calls = []))"

lemma body_trace_ins:
  "body_trace E inst h \<Longrightarrow> ins_trace E req (EvGetInstance req (Inr inst) # h @ [EvStatusInstance i r])"
  unfolding body_trace_def ins_trace_def by fastforce

lemma wp_ins_body:
  assumes "i_instance s = inst"
  shows "wp (ins_body E) (\<lambda>_ t. \<exists>h. history t = history s @ h \<and> body_trace E inst h) s"
  unfolding ins_body_def wp_bind wp_get Let_def assms
proof (rule wp_api_any)
  fix r w
  let ?s = "s\<lparr>world := w, history := history s @ [EvGetInventory (ri_inventoryRef inst) r]\<rparr>"
  show "wp (case r of
        Inl e \<Rightarrow>
          if IsNotFound e
          then stop_with (ins_returnError e instanceStatusReasonNotFound instanceStatusMessageInventoryNotFound)
          else stop_with (ins_returnError e instanceStatusReasonBackendError instanceStatusMessageGetInventoryError)
      | Inr iv \<Rightarrow> do {
          State_Monad.update (\<lambda>s. s\<lparr>i_inventory := iv\<rparr>);
          (if \<not> inventory_ready E iv
           then stop_with (ins_returnRequeue instanceStatusReasonUnreachable instanceStatusMessageInventoryNotReady)
           else ins_work E) })
      (\<lambda>_ t. \<exists>h. history t = history s @ h \<and> body_trace E inst h) ?s"
  proof (cases r)
    case (Inl e)
    then show ?thesis by (auto simp: wp_simps ins_rep.error_frame body_trace_def)
  next
    case (Inr iv)
    show ?thesis
    proof (cases "inventory_ready E iv")
      case True
      have "wp (ins_work E) (\<lambda>_ t. \<exists>l. history t = history ?s @ l \<and> work_calls E iv inst l) (?s\<lparr>i_inventory := iv\<rparr>)"
        using wp_ins_work [of "?s\<lparr>i_inventory := iv\<rparr>" inst iv E] assms by simp
      then show ?thesis
        using True by (auto simp: Inr wp_simps body_trace_def elim!: wp_mono)
    qed (auto simp: Inr wp_simps body_trace_def)
  qed
qed

text \<open>The controller has no unbounded loop.\<close>

lemma wp_ins_work_returns: "wp (ins_work E) (\<lambda>f _. f \<noteq> Diverge) s"
proof -
  have checked: "wp (ins_checkFinalizer E) (\<lambda>f _. f \<noteq> Diverge) s" for s
  proof (cases "ins_live (i_instance s) \<and> ins_guarded E (i_instance s)")
    case True
    then show ?thesis by (simp add: wp_def ins_guard.pass)
  next
    case False
    show ?thesis by (rule wp_mono [OF wp_ins_checkFinalizer_stops [OF False]]) simp
  qed
  have applied: "wp (createOrUpdateDBInstance E) (\<lambda>f _. f \<noteq> Diverge) s" for s
  proof -
    have "wp (instance_applied r) (\<lambda>f _. f \<noteq> Diverge) t" for r and t :: "'a ins_st"
      by (auto simp: instance_applied_def wp_simps split: outcome.split)
    then show ?thesis
      unfolding createOrUpdateDBInstance_def wp_bind wp_get Let_def by (blast intro: wp_mono [OF wp_true])
  qed
  have synced: "wp (syncDBInstanceStatus E) (\<lambda>f _. f \<noteq> Diverge) s" for s
    by (auto simp: syncDBInstanceStatus_def wp_simps Let_def split: sum.split option.split prod.split)
  show ?thesis
    unfolding ins_work_def wp_andThen wp_stop_with
    by (rule wp_mono [OF checked], auto, rule wp_mono [OF applied], auto, rule wp_mono [OF synced], auto)
qed

lemma wp_ins_body_returns: "wp (ins_body E) (\<lambda>f _. f \<noteq> Diverge) s"
  unfolding ins_body_def
  by (auto simp: wp_simps Let_def wp_ins_work_returns split: sum.split prod.split)

theorem Reconcile_instance_trace:
  "wp (Reconcile_instance E req) (\<lambda>_ t. ins_trace E req (history t)) (init_ins w)"
  unfolding Reconcile_instance_def wp_bind
proof (rule wp_api_any)
  fix r u
  let ?s = "(init_ins w)\<lparr>world := u, history := history (init_ins w) @ [EvGetInstance req r]\<rparr>"
  show "wp (case r of
        Inl e \<Rightarrow>
          if IsNotFound e then State_Monad.return Stop
          else stop_with (\<lambda>s. s\<lparr>r_err := Some e\<rparr>)
      | Inr inst \<Rightarrow> do {
          State_Monad.update (\<lambda>s. s\<lparr>i_instance := inst\<rparr>);
          deferring (updateInstanceReadyCondition E) (ins_body E) })
     (\<lambda>_ t. ins_trace E req (history t)) ?s"
  proof (cases r)
    case (Inl e)
    then show ?thesis by (auto simp: wp_simps init_ins_def ins_trace_def)
  next
    case (Inr inst)
    have "wp (ins_body E) (\<lambda>_. wp (updateInstanceReadyCondition E)
        (\<lambda>_ t. ins_trace E req (history t))) (?s\<lparr>i_instance := inst\<rparr>)"
    proof (rule wp_mono [OF wp_ins_body [of _ inst]])
      fix f and t :: "'a ins_st"
      assume "\<exists>h. history t = history (?s\<lparr>i_instance := inst\<rparr>) @ h \<and> body_trace E inst h"
      then show "wp (updateInstanceReadyCondition E) (\<lambda>_ t. ins_trace E req (history t)) t"
        by (intro wp_mono [OF wp_updateInstanceReadyCondition])
          (auto simp: Inr init_ins_def intro: body_trace_ins)
    qed simp
    then show ?thesis
      using wp_ins_body_returns [of E "?s\<lparr>i_instance := inst\<rparr>"]
      by (auto simp: Inr wp_simps wp_fst_snd)
  qed
qed

section \<open>Reports\<close>

lemmas ins_unready = ins_rep.unready_outs

lemma always_ins_steps_unready:
  "always unready_stop (ins_checkFinalizer E)" "always unready_stop (createOrUpdateDBInstance E)"
  "always unready_stop (syncDBInstanceStatus E)"
  unfolding ins_checkFinalizer_def ins_addFinalizer_def ins_removeFinalizer_def
    createOrUpdateDBInstance_def instance_applied_def syncDBInstanceStatus_def
  by (intro always_intros; simp add: ins_unready)+

text \<open>The server stores the phase it is given; the API documents that a status update does.\<close>

definition phase_kept :: "('w, 'n) env_scheme \<Rightarrow> bool" where
  "phase_kept E \<longleftrightarrow>
     (\<forall>inst w i w'. api_statusUpdateInstance E inst w = (Inr i, w') \<longrightarrow> ri_phase i = ri_phase inst)"

definition known_phases :: "string list" where
  "known_phases = [instancePhasePending, instancePhaseCreating, instancePhaseUpdating,
     instancePhaseDeleting, instancePhaseDeleted, instancePhaseReady, instancePhaseError,
     instancePhaseFailed, instancePhaseUnknown]"

lemma setDBInstancePhase_known: "ri_phase (setDBInstancePhase db ri) \<in> set known_phases"
  by (simp add: setDBInstancePhase_def known_phases_def Let_def)

lemma setDBInstancePhase_ready:
  "ri_phase (setDBInstancePhase db ri) = instancePhaseReady \<longleftrightarrow>
   st_dbInstanceStatus (db_status db) = Some ''available''"
  by (auto simp: setDBInstancePhase_def Let_def split: option.splits)

lemma copy_status_phase: "ri_phase (copy_status L db i inst) = ri_phase (setDBInstancePhase db inst)"
  by (simp add: copy_status_def setDBInstanceStatus_def setDBInstancePhase_def Let_def)

text \<open>After the sync the instance's phase is that of the DB instance just read.\<close>

definition read_phase :: "'w ins_st \<Rightarrow> bool" where
  "read_phase t \<longleftrightarrow> (\<exists>k db. EvGetDBInstance k (Inr db) \<in> set (history t) \<and>
     ri_phase (i_instance t) = ri_phase (setDBInstancePhase db (i_instance t)))"

lemma setDBInstancePhase_any: "ri_phase (setDBInstancePhase db i) = ri_phase (setDBInstancePhase db j)"
  by (simp add: setDBInstancePhase_def Let_def)

lemma wp_syncDBInstanceStatus_phase:
  assumes "phase_kept E"
  shows "wp (syncDBInstanceStatus E) (\<lambda>f t. f = Continue \<longrightarrow> read_phase t) s"
proof -
  let ?k = "dbInstance_key (i_inventory s) (i_instance s)"
  have "read_phase t" if "api_statusUpdateInstance E (copy_status E db i (i_instance s)) w = (Inr inst, w')"
    "EvGetDBInstance ?k (Inr db) \<in> set (history t)" "i_instance t = inst" for db i w inst w' and t :: "'a ins_st"
  proof -
    have "ri_phase inst = ri_phase (setDBInstancePhase db inst)"
      using assms that(1) copy_status_phase setDBInstancePhase_any unfolding phase_kept_def by metis
    then show ?thesis using that(2,3) unfolding read_phase_def by blast
  qed
  then show ?thesis
    unfolding syncDBInstanceStatus_def
    by (auto simp: wp_simps Let_def split: sum.split option.split prod.split)
qed

text \<open>The final report, for a phase the code knows.\<close>

lemma report_phase_consistent:
  assumes "ri_phase (i_instance t) \<in> set known_phases"
  shows "consistent (report_phase t)"
    "v_status (report_phase t) = ConditionTrue \<longleftrightarrow> ri_phase (i_instance t) = instancePhaseReady"
  using assms
  by (auto simp: report_phase_def known_phases_def Let_def ins_returnReady_def ins_returnNotReady_def
      ins_returnUpdating_def ins_returnRequeue_def consistent_def)

definition reports_phase :: "flow \<Rightarrow> 'w ins_st \<Rightarrow> bool" where
  "reports_phase f t \<longleftrightarrow> (f = Stop \<longrightarrow> consistent t) \<and>
     (f = Stop \<longrightarrow> v_status t = ConditionTrue \<longrightarrow>
        (\<exists>k db. EvGetDBInstance k (Inr db) \<in> set (history t) \<and>
                st_dbInstanceStatus (db_status db) = Some ''available''))"

lemma unready_reports_phase: "unready_stop f t \<Longrightarrow> reports_phase f t"
  by (auto simp: unready_stop_def reports_phase_def)

lemma wp_ins_body_reports:
  assumes "phase_kept E"
  shows "wp (ins_body E) reports_phase s"
proof -
  have final: "reports_phase Stop (report_phase t)" if read: "read_phase t" for t :: "'a ins_st"
  proof -
    obtain k db where db: "EvGetDBInstance k (Inr db) \<in> set (history t)"
      "ri_phase (i_instance t) = ri_phase (setDBInstancePhase db (i_instance t))"
      using read unfolding read_phase_def by blast
    have known: "ri_phase (i_instance t) \<in> set known_phases"
      using setDBInstancePhase_known by (subst db(2))
    have "st_dbInstanceStatus (db_status db) = Some ''available''"
      if "v_status (report_phase t) = ConditionTrue"
      using that report_phase_consistent(2) [OF known] db(2) setDBInstancePhase_ready by metis
    then show ?thesis
      using report_phase_consistent(1) [OF known] db(1) by (auto simp: reports_phase_def)
  qed
  have sync: "wp (andThen (syncDBInstanceStatus E) (stop_with report_phase)) reports_phase t" for t
    using wp_syncDBInstanceStatus_phase [OF assms, of t] alwaysD [OF always_ins_steps_unready(3), of E t]
    by (auto simp: wp_andThen wp_stop_with wp_fst_snd final unready_reports_phase)
  have create: "wp (andThen (createOrUpdateDBInstance E)
      (andThen (syncDBInstanceStatus E) (stop_with report_phase))) reports_phase t" for t
    using alwaysD [OF always_ins_steps_unready(2), of E t] sync
    by (subst wp_andThen) (auto simp: wp_fst_snd [of "createOrUpdateDBInstance E"] unready_reports_phase)
  have work: "wp (ins_work E) reports_phase t" for t
    unfolding ins_work_def
    using alwaysD [OF always_ins_steps_unready(1), of E t] create
    by (subst wp_andThen) (auto simp: wp_fst_snd [of "ins_checkFinalizer E"] unready_reports_phase)
  show ?thesis
    unfolding ins_body_def
    by (auto simp: wp_simps Let_def work intro!: unready_reports_phase ins_unready split: sum.split prod.split)
qed

section \<open>The condition that is published\<close>

lemma report_unclaimed [simp]:
  "unclaimed (ins_returnError e rs m s)" "unclaimed (ins_returnUpdating s)"
  "unclaimed (ins_returnNotReady rs m s)" "unclaimed (ins_returnRequeue rs m s)"
  by (simp_all add: ins_returnError_def ins_returnUpdating_def ins_returnNotReady_def ins_returnRequeue_def)

lemma wp_ins_checkFinalizer_unclaimed:
  "unclaimed s \<Longrightarrow> wp (ins_checkFinalizer E) (\<lambda>_. unclaimed) s"
  unfolding ins_checkFinalizer_def ins_addFinalizer_def ins_removeFinalizer_def
  by (auto simp: wp_simps Let_def split: sum.split option.split prod.split)

lemma wp_dbInstance_mutate_unclaimed:
  "unclaimed s \<Longrightarrow> wp (dbInstance_mutate E inst old) (\<lambda>_. unclaimed) s"
  unfolding dbInstance_mutate_def
  by (auto simp: wp_simps split: sum.split outcome.split
      intro!: does_wp [OF does_setDBInstanceSpec] dest: extends_status)

lemma wp_createOrUpdateDBInstance_unclaimed:
  assumes "unclaimed s"
  shows "wp (createOrUpdateDBInstance E) (\<lambda>_. unclaimed) s"
proof -
  have applied: "wp (instance_applied r) (\<lambda>_. unclaimed) t" if "unclaimed t" for r t
    using that by (auto simp: instance_applied_def wp_simps split: outcome.split)
  show ?thesis
    unfolding createOrUpdateDBInstance_def wp_bind wp_get Let_def
  proof (rule wp_mono [OF wp_CreateOrUpdate_inv [where I = unclaimed and M = "\<lambda>_. True"]])
    show "wp (dbInstance_mutate E (i_instance s) old)
        (\<lambda>m t. unclaimed t \<and> (case m of Ret new \<Rightarrow> True | _ \<Rightarrow> True)) t" if "unclaimed t" for old t
    proof (rule wp_mono [OF wp_dbInstance_mutate_unclaimed [OF that]])
      show "unclaimed u \<and> (case m of Ret new \<Rightarrow> True | _ \<Rightarrow> True)" if "unclaimed u" for m :: "db_instance outcome" and u :: "'a ins_st"
        using that by (cases m) simp_all
    qed
  qed (use assms applied in simp_all)
qed

lemma wp_syncDBInstanceStatus_unclaimed:
  "unclaimed s \<Longrightarrow> wp (syncDBInstanceStatus E) (\<lambda>_. unclaimed) s"
  unfolding syncDBInstanceStatus_def
  by (auto simp: wp_simps Let_def split: sum.split option.split prod.split)

lemma wp_ins_body_unclaimed:
  assumes "unclaimed s"
  shows "wp (ins_body E) (\<lambda>f t. f \<noteq> Stop \<longrightarrow> unclaimed t) s"
proof -
  have "wp (ins_work E) (\<lambda>f t. f \<noteq> Stop \<longrightarrow> unclaimed t) t" if "unclaimed t" for t
    unfolding ins_work_def wp_andThen wp_stop_with
    by (rule wp_mono [OF wp_ins_checkFinalizer_unclaimed [OF that]], simp, intro impI,
        rule wp_mono [OF wp_createOrUpdateDBInstance_unclaimed], assumption, simp, intro impI,
        rule wp_mono [OF wp_syncDBInstanceStatus_unclaimed], assumption, simp)
  then show ?thesis
    using assms unfolding ins_body_def
    by (auto simp: wp_simps Let_def split: sum.split prod.split)
qed

text \<open>
  The last status a reconciliation writes says that the instance is ready only when this very
  reconciliation read an available DB instance.
\<close>

definition ins_truthful :: "'n lib_scheme \<Rightarrow> event list \<Rightarrow> bool" where
  "ins_truthful L h \<longleftrightarrow>
     (\<forall>h' inst r. h = h' @ [EvStatusInstance inst r] \<longrightarrow>
        condition_true L (ri_conditions inst) instanceConditionReady \<longrightarrow>
        (\<exists>k db. EvGetDBInstance k (Inr db) \<in> set h' \<and>
                st_dbInstanceStatus (db_status db) = Some ''available''))"

lemma wp_updateInstanceReadyCondition_truthful:
  assumes "conditions_ok E" "reports_phase f t" "f \<noteq> Stop \<longrightarrow> unclaimed t"
  shows "wp (updateInstanceReadyCondition E) (\<lambda>_ t. ins_truthful E (history t)) t"
proof -
  let ?cs = "SetStatusCondition E (ri_conditions (i_instance t)) (ready_condition instanceConditionReady t)"
  have "condition_true E ?cs instanceConditionReady \<longleftrightarrow> v_status t = ConditionTrue"
    using condition_true_set [OF assms(1), of "ri_conditions (i_instance t)" "ready_condition instanceConditionReady t"]
    by (simp add: ready_condition_def)
  moreover have "\<exists>k db. EvGetDBInstance k (Inr db) \<in> set (history t) \<and>
      st_dbInstanceStatus (db_status db) = Some ''available''" if "v_status t = ConditionTrue"
    using that assms(2,3) by (cases "f = Stop") (auto simp: reports_phase_def)
  ultimately show ?thesis
    unfolding updateInstanceReadyCondition_def ins_truthful_def
    by (auto simp: wp_simps Let_def after_status_update_def split: sum.split prod.split)
qed

lemma wp_Reconcile_instance_truthful:
  assumes "conditions_ok E" "phase_kept E"
  shows "wp (Reconcile_instance E req) (\<lambda>_ t. ins_truthful E (history t)) (init_ins w)"
proof -
  have body: "wp (ins_body E) (\<lambda>f t. f \<noteq> Diverge \<and> reports_phase f t \<and> (f \<noteq> Stop \<longrightarrow> unclaimed t)) s"
    if "unclaimed s" for s
    using wp_ins_body_reports [OF assms(2), of s] wp_ins_body_unclaimed [OF that, of E] wp_ins_body_returns [of E s]
    by (simp add: wp_fst_snd)
  have deferred: "wp (deferring (updateInstanceReadyCondition E) (ins_body E)) (\<lambda>_ t. ins_truthful E (history t)) s"
    if "unclaimed s" for s
    unfolding wp_deferring
    by (rule wp_mono [OF body [OF that]])
      (auto intro: wp_updateInstanceReadyCondition_truthful [OF assms(1)])
  have got: "ins_truthful E [EvGetInstance req r]" for r
    by (simp add: ins_truthful_def)
  show ?thesis
    unfolding Reconcile_instance_def wp_bind wp_case_sum
    by (rule wp_api_any) (simp add: wp_if wp_return wp_stop_with wp_update init_ins_def got deferred split: sum.split)
qed

lemma calls_flow:
  "sync_calls E iv inst f l \<Longrightarrow> f = Stop \<or> f = Continue \<or> f = Panic"
  "create_calls E iv inst f l \<Longrightarrow> f = Stop \<or> f = Continue \<or> f = Panic"
  "finalizer_calls E iv inst f l \<Longrightarrow> f = Stop \<or> f = Continue"
proof -
  show "sync_calls E iv inst f l \<Longrightarrow> f = Stop \<or> f = Continue \<or> f = Panic"
    unfolding sync_calls_def by (elim disjE exE conjE; simp split: sum.split)
  have "after_apply a = Stop \<or> after_apply a = Continue" for a
    by (simp add: after_apply_def split: sum.split prod.split)
  then show "create_calls E iv inst f l \<Longrightarrow> f = Stop \<or> f = Continue \<or> f = Panic"
    unfolding create_calls_def by (elim disjE exE conjE; (simp split: outcome.splits)?) blast+
  show "finalizer_calls E iv inst f l \<Longrightarrow> f = Stop \<or> f = Continue"
    by (auto simp: finalizer_calls_def split: if_splits)
qed

lemma wp_ins_body_ends: "wp (ins_body E) (\<lambda>f _. f = Stop \<or> f = Panic) s"
proof -
  have sync: "wp (andThen (syncDBInstanceStatus E) (stop_with report_phase)) (\<lambda>f _. f = Stop \<or> f = Panic) t" for t
    unfolding wp_andThen wp_stop_with
    by (rule wp_mono [OF wp_syncDBInstanceStatus [OF refl refl]])
      (auto dest: calls_flow)
  have create: "wp (andThen (createOrUpdateDBInstance E) (andThen (syncDBInstanceStatus E) (stop_with report_phase)))
      (\<lambda>f _. f = Stop \<or> f = Panic) t" for t
    unfolding wp_andThen [of "createOrUpdateDBInstance E"]
    by (rule wp_mono [OF wp_createOrUpdateDBInstance [OF refl refl]])
      (auto simp: sync dest: calls_flow)
  have "wp (ins_work E) (\<lambda>f _. f = Stop \<or> f = Panic) t" for t
    unfolding ins_work_def wp_andThen [of "ins_checkFinalizer E"]
    by (rule wp_mono [OF wp_ins_checkFinalizer [OF refl refl]])
      (auto simp: create dest: calls_flow)
  then show ?thesis
    unfolding ins_body_def by (auto simp: wp_simps Let_def split: sum.split prod.split)
qed

text \<open>Without a ready inventory nothing happens but reads and the status update.\<close>

lemma wp_Reconcile_instance_blocked:
  assumes "\<And>k iv w w'. api_getInventory E k w = (Inr iv, w') \<Longrightarrow> \<not> inventory_ready E iv"
  shows "wp (Reconcile_instance E req) (\<lambda>_ t. (\<exists>r. history t = [EvGetInstance req r]) \<or>
    (\<exists>r k q i x. history t = [EvGetInstance req r, EvGetInventory k q, EvStatusInstance i x])) (init_ins w)"
  unfolding Reconcile_instance_def ins_body_def updateInstanceReadyCondition_def
  by (auto simp: wp_simps init_ins_def Let_def after_status_update_def dest: assms split: sum.split prod.split)

lemma merge_conditions_find:
  assumes "conditions_ok L"
  shows "case find (\<lambda>ac. ac_type ac = ty) (rev acs) of
      None \<Rightarrow> FindStatusCondition L (merge_conditions L acs cs) ty = FindStatusCondition L cs ty
    | Some ac \<Rightarrow> \<exists>tm. FindStatusCondition L (merge_conditions L acs cs) ty =
        Some ((convert_condition ac)\<lparr>c_lastTransitionTime := tm\<rparr>)"
proof (induction acs rule: rev_induct)
  case Nil
  then show ?case by (simp add: merge_conditions_def)
next
  case (snoc ac acs)
  have ty: "c_type (convert_condition ac) = ac_type ac"
    by (auto simp: convert_condition_def Let_def split: option.splits)
  have step: "merge_conditions L (acs @ [ac]) cs =
      SetStatusCondition L (merge_conditions L acs cs) (convert_condition ac)"
    by (simp add: merge_conditions_def)
  show ?case
  proof (cases "ac_type ac = ty")
    case True
    obtain tm where "FindStatusCondition L (SetStatusCondition L (merge_conditions L acs cs) (convert_condition ac))
        (c_type (convert_condition ac)) = Some ((convert_condition ac)\<lparr>c_lastTransitionTime := tm\<rparr>)"
      using assms unfolding conditions_ok_def by blast
    with True ty step show ?thesis by auto
  next
    case False
    then have "FindStatusCondition L (merge_conditions L (acs @ [ac]) cs) ty =
        FindStatusCondition L (merge_conditions L acs cs) ty"
      using assms ty unfolding conditions_ok_def step by metis
    with False snoc.IH show ?thesis by (simp split: option.splits)
  qed
qed

end
