(* ===== verification/ConnectionController.thy ===== *)
theory ConnectionController
  imports Credential Reconcile
begin

text \<open>
  The RDSConnection reconciler (\<open>controllers/rdsconnection_controller.go\<close>): it looks up the DB
  instance a connection names in the inventory, checks that it can be connected to, and
  publishes its credentials in a secret and its address in a config map beside the connection.
\<close>

abbreviation databaseProvider :: string where
  "databaseProvider \<equiv> ''Red Hat DBaaS / Amazon Relational Database Service (RDS)''"

abbreviation connectionConditionReady :: string where "connectionConditionReady \<equiv> ''ReadyForBinding''"

abbreviation connectionStatusReasonReady :: string where "connectionStatusReasonReady \<equiv> ''Ready''"
abbreviation connectionStatusReasonUpdating :: string where "connectionStatusReasonUpdating \<equiv> ''Updating''"
abbreviation connectionStatusReasonBackendError :: string where "connectionStatusReasonBackendError \<equiv> ''BackendError''"
abbreviation connectionStatusReasonInputError :: string where "connectionStatusReasonInputError \<equiv> ''InputError''"
abbreviation connectionStatusReasonNotFound :: string where "connectionStatusReasonNotFound \<equiv> ''NotFound''"
abbreviation connectionStatusReasonUnreachable :: string where "connectionStatusReasonUnreachable \<equiv> ''Unreachable''"

abbreviation connectionStatusMessageUpdateError :: string where
  "connectionStatusMessageUpdateError \<equiv> ''Failed to update Connection''"
abbreviation connectionStatusMessageUpdating :: string where
  "connectionStatusMessageUpdating \<equiv> ''Updating Connection''"
abbreviation connectionStatusMessageSecretError :: string where
  "connectionStatusMessageSecretError \<equiv> ''Failed to create or update secret''"
abbreviation connectionStatusMessageConfigMapError :: string where
  "connectionStatusMessageConfigMapError \<equiv> ''Failed to create or update configmap''"
abbreviation connectionStatusMessageInstanceNotFound :: string where
  "connectionStatusMessageInstanceNotFound \<equiv> ''Instance not found''"
abbreviation connectionStatusMessageInstanceNotReady :: string where
  "connectionStatusMessageInstanceNotReady \<equiv> ''Instance not ready''"
abbreviation connectionStatusMessageGetInstanceError :: string where
  "connectionStatusMessageGetInstanceError \<equiv> ''Failed to get Instance''"
abbreviation connectionStatusMessagePasswordNotFound :: string where
  "connectionStatusMessagePasswordNotFound \<equiv> ''Password not found''"
abbreviation connectionStatusMessagePasswordInvalid :: string where
  "connectionStatusMessagePasswordInvalid \<equiv> ''Password invalid''"
abbreviation connectionStatusMessageUsernameNotFound :: string where
  "connectionStatusMessageUsernameNotFound \<equiv> ''Username not found''"
abbreviation connectionStatusMessageEndpointNotFound :: string where
  "connectionStatusMessageEndpointNotFound \<equiv> ''Endpoint not found''"
abbreviation connectionStatusMessageGetPasswordError :: string where
  "connectionStatusMessageGetPasswordError \<equiv> ''Failed to get secret for password''"
abbreviation connectionStatusMessageInventoryNotFound :: string where
  "connectionStatusMessageInventoryNotFound \<equiv> ''Inventory not found''"
abbreviation connectionStatusMessageInventoryNotReady :: string where
  "connectionStatusMessageInventoryNotReady \<equiv> ''Inventory not ready''"
abbreviation connectionStatusMessageGetInventoryError :: string where
  "connectionStatusMessageGetInventoryError \<equiv> ''Failed to get Inventory''"

section \<open>State and closures\<close>

record 'w con_st = "'w rst" +
  cn_connection :: rds_connection
  cn_inventory :: rds_inventory
  cn_dbInstance :: db_instance
  cn_secret :: secret

definition init_con :: "'w \<Rightarrow> 'w con_st" where
  "init_con w = \<lparr>world = w, history = [], r_requeue = False, r_err = None, v_status = [],
     v_reason = [], v_message = [], cn_connection = empty_connection, cn_inventory = empty_inventory,
     cn_dbInstance = empty_db_instance, cn_secret = empty_secret\<rparr>"

definition con_returnError :: "error \<Rightarrow> string \<Rightarrow> string \<Rightarrow> ('w, 'm) rst_scheme \<Rightarrow> ('w, 'm) rst_scheme" where
  "con_returnError e reason message = report False (Some e) ConditionFalse reason message"

definition con_returnRequeue :: "string \<Rightarrow> string \<Rightarrow> ('w, 'm) rst_scheme \<Rightarrow> ('w, 'm) rst_scheme" where
  "con_returnRequeue reason message = report True None ConditionFalse reason message"

definition con_returnReady :: "('w, 'm) rst_scheme \<Rightarrow> ('w, 'm) rst_scheme" where
  "con_returnReady s = report False None ConditionTrue connectionStatusReasonReady (v_message s) s"

definition updateConnectionReadyCondition :: "('w, 'n) env_scheme \<Rightarrow> ('w con_st, unit) state" where
  "updateConnectionReadyCondition E = do {
     s \<leftarrow> State_Monad.get;
     let c = cn_connection s;
     let c1 = c\<lparr>con_conditions := SetStatusCondition E (con_conditions c)
                                    (ready_condition connectionConditionReady s)\<rparr>;
     State_Monad.update (\<lambda>s. s\<lparr>cn_connection := c1\<rparr>);
     r \<leftarrow> api_call (api_statusUpdateConnection E c1) (EvStatusConnection c1);
     (case r of
        Inl e \<Rightarrow> State_Monad.update (after_status_update e)
      | Inr c2 \<Rightarrow> State_Monad.update (\<lambda>s. s\<lparr>cn_connection := c2\<rparr>))
   }"

section \<open>Checks\<close>

definition not_ready_error :: "string \<Rightarrow> string \<Rightarrow> error" where
  "not_ready_error i what = PlainError (''instance '' @ i @ '' '' @ what)"

definition checkDBInstanceStatus :: "('w, 'n) env_scheme \<Rightarrow> ('w con_st, flow) state" where
  "checkDBInstanceStatus E = do {
     s \<leftarrow> State_Monad.get;
     let c = cn_connection s;
     let i = con_instanceID c;
     (case find (\<lambda>ins. di_instanceID ins = i) (inv_instances (cn_inventory s)) of
        None \<Rightarrow> stop_with (con_returnError (not_ready_error i ''not found'')
                  connectionStatusReasonNotFound connectionStatusMessageInstanceNotFound)
      | Some ins \<Rightarrow> do {
          let k = \<lparr>k_namespace = k_namespace (con_inventoryRef c), k_name = di_name ins\<rparr>;
          r \<leftarrow> api_call (api_getDBInstance E k) (EvGetDBInstance k);
          (case r of
             Inl e \<Rightarrow> stop_with (con_returnError e connectionStatusReasonBackendError connectionStatusMessageGetInstanceError)
           | Inr db \<Rightarrow> do {
               State_Monad.update (\<lambda>s. s\<lparr>cn_dbInstance := db\<rparr>);
               (case st_dbInstanceStatus (db_status db) of
                  None \<Rightarrow> State_Monad.return Panic
                | Some st \<Rightarrow>
                    if st \<noteq> ''available''
                    then stop_with (con_returnError (not_ready_error i ''not ready'')
                           connectionStatusReasonUnreachable connectionStatusMessageInstanceNotReady)
                    else State_Monad.return Continue) }) })
   }"

definition checkDBConnectionStatus :: "('w, 'n) env_scheme \<Rightarrow> ('w con_st, flow) state" where
  "checkDBConnectionStatus E = do {
     s \<leftarrow> State_Monad.get;
     let i = con_instanceID (cn_connection s);
     let db = cn_dbInstance s;
     (case sp_masterUserPassword (db_spec db) of
        None \<Rightarrow> stop_with (con_returnError (not_ready_error i ''master password not set'')
                  connectionStatusReasonInputError connectionStatusMessagePasswordNotFound)
      | Some ref \<Rightarrow> do {
          let k = \<lparr>k_namespace = skr_namespace ref, k_name = skr_name ref\<rparr>;
          r \<leftarrow> api_call (api_getSecret E k) (EvGetSecret k);
          (case r of
             Inl e \<Rightarrow>
               if IsNotFound e
               then stop_with (con_returnError e connectionStatusReasonNotFound connectionStatusMessageGetPasswordError)
               else stop_with (con_returnError e connectionStatusReasonBackendError connectionStatusMessageGetPasswordError)
           | Inr sec \<Rightarrow> do {
               State_Monad.update (\<lambda>s. s\<lparr>cn_secret := sec\<rparr>);
               (if data_get (sec_data sec) (skr_key ref) = None \<or> data_get (sec_data sec) (skr_key ref) = Some []
                then stop_with (con_returnError (not_ready_error i ''master password key not set'')
                       connectionStatusReasonInputError connectionStatusMessagePasswordInvalid)
                else if sp_masterUsername (db_spec db) = None
                then stop_with (con_returnError (not_ready_error i ''master username not set'')
                       connectionStatusReasonInputError connectionStatusMessageUsernameNotFound)
                else if st_endpoint (db_status db) = None
                then stop_with (con_returnError (not_ready_error i ''endpoint not found'')
                       connectionStatusReasonUnreachable connectionStatusMessageEndpointNotFound)
                else State_Monad.return Continue) }) })
   }"

section \<open>Secret and config map\<close>

definition buildConnectionLabels :: "'n lib_scheme \<Rightarrow> rds_connection \<Rightarrow> smap" where
  "buildConnectionLabels L c =
     [''managed-by'' \<mapsto> ''rds-dbaas-operator'',
      ''owner'' \<mapsto> om_name (con_meta c),
      ''owner.kind'' \<mapsto> con_kind c,
      ''owner.namespace'' \<mapsto> om_namespace (con_meta c),
      TypeLabelKey L \<mapsto> TypeLabelValue L]"

text \<open>
  \<open>None\<close> is a nil dereference. An entry whose value is missing in the source map becomes an
  empty one.
\<close>

definition setSecret :: "secret \<Rightarrow> secret \<Rightarrow> db_instance \<Rightarrow> secret option" where
  "setSecret sec dbSecret db =
     (case (sp_masterUsername (db_spec db), sp_masterUserPassword (db_spec db)) of
        (Some u, Some ref) \<Rightarrow> Some (sec\<lparr>sec_data := Some
          [''username'' \<mapsto> u,
           ''password'' \<mapsto> (case data_get (sec_data dbSecret) (skr_key ref) of None \<Rightarrow> [] | Some p \<Rightarrow> p)]\<rparr>)
      | _ \<Rightarrow> None)"

definition default_database :: "string \<Rightarrow> string option" where
  "default_database eng =
     (if eng \<in> set sqlserver_engines then Some ''master''
      else if eng \<in> set mysql_engines then Some ''mysql''
      else if eng \<in> set postgres_engines then Some ''postgres''
      else if eng \<in> set oracle_engines then Some ''ORCL''
      else None)"

definition setConfigMap :: "configmap \<Rightarrow> db_instance \<Rightarrow> configmap option" where
  "setConfigMap cm db =
     (case (sp_engine (db_spec db), st_endpoint (db_status db)) of
        (Some eng, Some ep) \<Rightarrow>
          (case (ep_address ep, ep_port ep) of
             (Some host, Some port) \<Rightarrow>
               let m = [''type'' \<mapsto> generateBindingType eng, ''provider'' \<mapsto> databaseProvider,
                        ''host'' \<mapsto> host, ''port'' \<mapsto> FormatInt port]
               in Some (cm\<lparr>cm_data := Some
                    (case sp_dbName (db_spec db) of
                       Some n \<Rightarrow> m(''database'' \<mapsto> n)
                     | None \<Rightarrow> (case default_database eng of
                                  Some n \<Rightarrow> m(''database'' \<mapsto> n)
                                | None \<Rightarrow> m))\<rparr>)
           | _ \<Rightarrow> None)
      | _ \<Rightarrow> None)"

definition controlled_secret ::
  "'n lib_scheme \<Rightarrow> rds_connection \<Rightarrow> secret \<Rightarrow> db_instance \<Rightarrow> secret \<Rightarrow> secret outcome" where
  "controlled_secret L c dbSecret db old =
     (case SetControllerReference L (OwnerConnection c)
             ((sec_meta old)\<lparr>om_labels := buildConnectionLabels L c\<rparr>) of
        Inl e \<Rightarrow> Err e
      | Inr m \<Rightarrow> (case setSecret (old\<lparr>sec_meta := m\<rparr>) dbSecret db of None \<Rightarrow> Panics | Some sec \<Rightarrow> Ret sec))"

definition con_createOrUpdateSecret ::
  "('w, 'n) env_scheme \<Rightarrow> rds_connection \<Rightarrow> secret \<Rightarrow> db_instance \<Rightarrow>
   (('w, event, 'm) gst_scheme, (op_result \<times> secret) outcome) state" where
  "con_createOrUpdateSecret E c dbSecret db =
     CreateOrUpdate (cou_fetchSecret E) EvFetchSecret (cou_storeSecret E) EvApplySecret
       (empty_secret\<lparr>sec_meta := empty_meta\<lparr>om_name := om_name (con_meta c) @ ''-credentials'',
          om_namespace := om_namespace (con_meta c)\<rparr>\<rparr>)
       (\<lambda>old. State_Monad.return (controlled_secret E c dbSecret db old))"

definition controlled_configmap ::
  "'n lib_scheme \<Rightarrow> rds_connection \<Rightarrow> db_instance \<Rightarrow> configmap \<Rightarrow> configmap outcome" where
  "controlled_configmap L c db old =
     (case SetControllerReference L (OwnerConnection c)
             ((cm_meta old)\<lparr>om_labels := buildConnectionLabels L c\<rparr>) of
        Inl e \<Rightarrow> Err e
      | Inr m \<Rightarrow> (case setConfigMap (old\<lparr>cm_meta := m\<rparr>) db of None \<Rightarrow> Panics | Some cm \<Rightarrow> Ret cm))"

definition con_createOrUpdateConfigMap ::
  "('w, 'n) env_scheme \<Rightarrow> rds_connection \<Rightarrow> db_instance \<Rightarrow>
   (('w, event, 'm) gst_scheme, (op_result \<times> configmap) outcome) state" where
  "con_createOrUpdateConfigMap E c db =
     CreateOrUpdate (cou_fetchConfigMap E) EvFetchConfigMap (cou_storeConfigMap E) EvApplyConfigMap
       (empty_configmap\<lparr>cm_meta := empty_meta\<lparr>om_name := om_name (con_meta c) @ ''-configs'',
          om_namespace := om_namespace (con_meta c)\<rparr>\<rparr>)
       (\<lambda>old. State_Monad.return (controlled_configmap E c db old))"

text \<open>The status refers to the secret and the config map as the server returned them.\<close>

definition record_refs ::
  "('w, 'n) env_scheme \<Rightarrow> rds_connection \<Rightarrow> secret \<Rightarrow> configmap \<Rightarrow> ('w con_st, flow) state" where
  "record_refs E c userSecret dbConfigMap = do {
     let c1 = c\<lparr>con_credentialsRef := Some (om_name (sec_meta userSecret)),
               con_connectionInfoRef := Some (om_name (cm_meta dbConfigMap))\<rparr>;
     State_Monad.update (\<lambda>s. s\<lparr>cn_connection := c1\<rparr>);
     u \<leftarrow> api_call (api_statusUpdateConnection E c1) (EvStatusConnection c1);
     (case u of
        Inl e \<Rightarrow>
          if IsConflict e
          then stop_with (con_returnRequeue connectionStatusReasonUpdating connectionStatusMessageUpdating)
          else stop_with (con_returnError e connectionStatusReasonBackendError connectionStatusMessageUpdateError)
      | Inr c2 \<Rightarrow> do {
          State_Monad.update (\<lambda>s. s\<lparr>cn_connection := c2\<rparr>);
          State_Monad.return Continue })
   }"

definition syncConnectionStatus :: "('w, 'n) env_scheme \<Rightarrow> ('w con_st, flow) state" where
  "syncConnectionStatus E = do {
     s \<leftarrow> State_Monad.get;
     let c = cn_connection s;
     let db = cn_dbInstance s;
     on_ret (con_createOrUpdateSecret E c (cn_secret s) db)
       (\<lambda>e. stop_with (con_returnError e connectionStatusReasonBackendError connectionStatusMessageSecretError))
       (\<lambda>(_, userSecret).
          on_ret (con_createOrUpdateConfigMap E c db)
            (\<lambda>e. stop_with (con_returnError e connectionStatusReasonBackendError connectionStatusMessageConfigMapError))
            (\<lambda>(_, dbConfigMap). record_refs E c userSecret dbConfigMap))
   }"

section \<open>Reconcile\<close>

definition con_work :: "('w, 'n) env_scheme \<Rightarrow> ('w con_st, flow) state" where
  "con_work E =
     andThen (checkDBInstanceStatus E)
    (andThen (checkDBConnectionStatus E)
    (andThen (syncConnectionStatus E)
     (stop_with con_returnReady)))"

definition con_body :: "('w, 'n) env_scheme \<Rightarrow> ('w con_st, flow) state" where
  "con_body E = do {
     s \<leftarrow> State_Monad.get;
     let k = con_inventoryRef (cn_connection s);
     r \<leftarrow> api_call (api_getInventory E k) (EvGetInventory k);
     (case r of
        Inl e \<Rightarrow>
          if IsNotFound e
          then stop_with (con_returnError e connectionStatusReasonNotFound connectionStatusMessageInventoryNotFound)
          else stop_with (con_returnError e connectionStatusReasonBackendError connectionStatusMessageGetInventoryError)
      | Inr iv \<Rightarrow> do {
          State_Monad.update (\<lambda>s. s\<lparr>cn_inventory := iv\<rparr>);
          (if \<not> inventory_ready E iv
           then stop_with (con_returnRequeue connectionStatusReasonUnreachable connectionStatusMessageInventoryNotReady)
           else con_work E) })
   }"

definition Reconcile_connection :: "('w, 'n) env_scheme \<Rightarrow> key \<Rightarrow> ('w con_st, flow) state" where
  "Reconcile_connection E req = do {
     r \<leftarrow> api_call (api_getConnection E req) (EvGetConnection req);
     (case r of
        Inl e \<Rightarrow>
          if IsNotFound e then State_Monad.return Stop
          else stop_with (\<lambda>s. s\<lparr>r_err := Some e\<rparr>)
      | Inr c \<Rightarrow> do {
          State_Monad.update (\<lambda>s. s\<lparr>cn_connection := c\<rparr>);
          deferring (updateConnectionReadyCondition E) (con_body E) })
   }"

section \<open>Set-up\<close>

text \<open>The indexer that \<open>SetupWithManager\<close> registers for \<open>.spec.instanceID\<close>: the keys a connection is found under.\<close>

definition instance_id_index :: "rds_connection \<Rightarrow> string list" where
  "instance_id_index c = [con_instanceID c]"

text \<open>A list with a field selector answers with the stored connections that have the value in the index.\<close>

definition index_answer :: "(rds_connection \<Rightarrow> string list) \<Rightarrow> rds_connection set \<Rightarrow> string \<Rightarrow> rds_connection list \<Rightarrow> bool" where
  "index_answer index cs i items \<longleftrightarrow> set items = {c \<in> cs. i \<in> set (index c)}"

end
