(* ===== verification/ConnectionFacts.thy ===== *)
theory ConnectionFacts
  imports ConnectionController PureUpdate
begin

text \<open>
  The RDSConnection reconciler: its closures meet the contract of \<open>Reconcile\<close>, and whatever the
  outside answers it publishes a secret and a config map only for a DB instance it has found
  available and complete, with that instance's own credentials and address.
\<close>

lemma reason_match_connection [simp]:
  "reason_match connectionStatusReasonReady" "reason_match connectionStatusReasonUpdating"
  "reason_match connectionStatusReasonBackendError" "reason_match connectionStatusReasonInputError"
  "reason_match connectionStatusReasonNotFound" "reason_match connectionStatusReasonUnreachable"
  by code_simp+

interpretation con_rep: reporter con_returnError con_returnRequeue con_returnReady
  by unfold_locales (force simp: con_returnError_def con_returnRequeue_def con_returnReady_def)+

lemma con_requeue_frame [simp]:
  "history (con_returnRequeue rs m s) = history s" "rst.more (con_returnRequeue rs m s) = rst.more s"
  by (simp_all add: con_returnRequeue_def)

section \<open>What is published\<close>

definition fresh_con_secret :: "rds_connection \<Rightarrow> secret" where
  "fresh_con_secret c = empty_secret\<lparr>sec_meta := empty_meta\<lparr>om_name := om_name (con_meta c) @ ''-credentials'',
     om_namespace := om_namespace (con_meta c)\<rparr>\<rparr>"

definition fresh_con_configmap :: "rds_connection \<Rightarrow> configmap" where
  "fresh_con_configmap c = empty_configmap\<lparr>cm_meta := empty_meta\<lparr>om_name := om_name (con_meta c) @ ''-configs'',
     om_namespace := om_namespace (con_meta c)\<rparr>\<rparr>"

text \<open>The secret holds the login and nothing else; its owner is the connection.\<close>

definition published_secret ::
  "'n lib_scheme \<Rightarrow> rds_connection \<Rightarrow> string \<Rightarrow> string \<Rightarrow> secret \<Rightarrow> secret \<Rightarrow> bool" where
  "published_secret L c u p old new \<longleftrightarrow>
     sec_data new = Some [''username'' \<mapsto> u, ''password'' \<mapsto> p] \<and>
     SetControllerReference L (OwnerConnection c) ((sec_meta old)\<lparr>om_labels := buildConnectionLabels L c\<rparr>) =
       Inr (sec_meta new)"

text \<open>The config map says how to reach the database.\<close>

definition published_configmap ::
  "'n lib_scheme \<Rightarrow> rds_connection \<Rightarrow> db_instance \<Rightarrow> configmap \<Rightarrow> configmap \<Rightarrow> bool" where
  "published_configmap L c db old new \<longleftrightarrow>
     (\<exists>eng ep host port. sp_engine (db_spec db) = Some eng \<and> st_endpoint (db_status db) = Some ep \<and>
        ep_address ep = Some host \<and> ep_port ep = Some port \<and>
        (\<exists>m. cm_data new = Some m \<and> m ''type'' = Some (generateBindingType eng) \<and>
          m ''provider'' = Some databaseProvider \<and> m ''host'' = Some host \<and>
          m ''port'' = Some (FormatInt port) \<and>
          m ''database'' = (case sp_dbName (db_spec db) of Some n \<Rightarrow> Some n | None \<Rightarrow> default_database eng) \<and>
          dom m \<subseteq> {''type'', ''provider'', ''host'', ''port'', ''database''})) \<and>
     SetControllerReference L (OwnerConnection c) ((cm_meta old)\<lparr>om_labels := buildConnectionLabels L c\<rparr>) =
       Inr (cm_meta new)"

text \<open>The login of a DB instance: its user, and the password in the secret it refers to.\<close>

definition login :: "db_instance \<Rightarrow> secret \<Rightarrow> string \<Rightarrow> string \<Rightarrow> bool" where
  "login db sec u p \<longleftrightarrow>
     (\<exists>ref. sp_masterUserPassword (db_spec db) = Some ref \<and>
            data_get (sec_data sec) (skr_key ref) = Some p \<and> p \<noteq> [] \<and>
            sp_masterUsername (db_spec db) = Some u)"

lemma controlled_secret_published:
  assumes "controlled_secret L c sec db old = Ret new" "login db sec u p"
  shows "published_secret L c u p old new"
  using assms
  by (auto simp: controlled_secret_def setSecret_def login_def published_secret_def
      split: sum.splits option.splits)

lemma controlled_configmap_published:
  assumes "controlled_configmap L c db old = Ret new"
  shows "published_configmap L c db old new"
proof -
  let ?meta = "(cm_meta old)\<lparr>om_labels := buildConnectionLabels L c\<rparr>"
  obtain m where m: "SetControllerReference L (OwnerConnection c) ?meta = Inr m"
    using assms by (auto simp: controlled_configmap_def split: sum.splits)
  obtain eng ep host port where
    db: "sp_engine (db_spec db) = Some eng" "st_endpoint (db_status db) = Some ep"
      "ep_address ep = Some host" "ep_port ep = Some port"
    using assms m by (auto simp: controlled_configmap_def setConfigMap_def split: option.splits)
  have "cm_meta new = m"
    using assms m db
    by (auto simp: controlled_configmap_def setConfigMap_def Let_def split: option.splits)
  moreover have "cm_data new = Some
      ((case (case sp_dbName (db_spec db) of Some n \<Rightarrow> Some n | None \<Rightarrow> default_database eng) of
          Some n \<Rightarrow> (\<lambda>m. m(''database'' \<mapsto> n)) | None \<Rightarrow> id)
       [''type'' \<mapsto> generateBindingType eng, ''provider'' \<mapsto> databaseProvider,
        ''host'' \<mapsto> host, ''port'' \<mapsto> FormatInt port])"
    using assms m db
    by (auto simp: controlled_configmap_def setConfigMap_def Let_def split: option.splits)
  ultimately show ?thesis
    unfolding published_configmap_def using m db
    by (auto split: option.splits if_splits)
qed

section \<open>The calls of each step\<close>

text \<open>
  Each step is described by the calls it makes, with their answers, by how it ends, and by the
  object it hands on when it ends with \<open>Continue\<close>. First the DB instance: the one the inventory
  lists under the connection's instance id.
\<close>

definition lookup_calls :: "rds_inventory \<Rightarrow> rds_connection \<Rightarrow> flow \<Rightarrow> event list \<Rightarrow> db_instance \<Rightarrow> bool" where
  "lookup_calls iv c f l db \<longleftrightarrow>
     (case find (\<lambda>ins. di_instanceID ins = con_instanceID c) (inv_instances iv) of
        None \<Rightarrow> f = Stop \<and> l = []
      | Some ins \<Rightarrow>
          (let k = \<lparr>k_namespace = k_namespace (con_inventoryRef c), k_name = di_name ins\<rparr>
           in (\<exists>e. f = Stop \<and> l = [EvGetDBInstance k (Inl e)]) \<or>
              (l = [EvGetDBInstance k (Inr db)] \<and>
               f = (case st_dbInstanceStatus (db_status db) of None \<Rightarrow> Panic
                    | Some st \<Rightarrow> if st = ''available'' then Continue else Stop))))"

text \<open>Then its credentials, and the endpoint it must have.\<close>

definition login_calls :: "db_instance \<Rightarrow> flow \<Rightarrow> event list \<Rightarrow> secret \<Rightarrow> bool" where
  "login_calls db f l sec \<longleftrightarrow>
     (case sp_masterUserPassword (db_spec db) of
        None \<Rightarrow> f = Stop \<and> l = []
      | Some ref \<Rightarrow>
          (let k = \<lparr>k_namespace = skr_namespace ref, k_name = skr_name ref\<rparr>
           in (\<exists>e. f = Stop \<and> l = [EvGetSecret k (Inl e)]) \<or>
              (l = [EvGetSecret k (Inr sec)] \<and>
               f = (if (\<exists>u p. login db sec u p) \<and> st_endpoint (db_status db) \<noteq> None then Continue else Stop))))"

text \<open>Then the secret and the config map, each through \<open>CreateOrUpdate\<close>.\<close>

abbreviation secret_calls ::
  "'n lib_scheme \<Rightarrow> rds_connection \<Rightarrow> db_instance \<Rightarrow> secret \<Rightarrow> flow \<Rightarrow> event list \<Rightarrow> secret \<Rightarrow> bool" where
  "secret_calls L c db sec \<equiv>
     cou_calls EvFetchSecret EvApplySecret (fresh_con_secret c) (controlled_secret L c sec db)"

abbreviation configmap_calls ::
  "'n lib_scheme \<Rightarrow> rds_connection \<Rightarrow> db_instance \<Rightarrow> flow \<Rightarrow> event list \<Rightarrow> configmap \<Rightarrow> bool" where
  "configmap_calls L c db \<equiv>
     cou_calls EvFetchConfigMap EvApplyConfigMap (fresh_con_configmap c) (controlled_configmap L c db)"

text \<open>Last, the status refers to both.\<close>

definition refs_calls :: "rds_connection \<Rightarrow> secret \<Rightarrow> configmap \<Rightarrow> flow \<Rightarrow> event list \<Rightarrow> bool" where
  "refs_calls c us cm f l \<longleftrightarrow>
     (\<exists>a. f = (case a of Inl _ \<Rightarrow> Stop | Inr _ \<Rightarrow> Continue) \<and>
        l = [EvStatusConnection (c\<lparr>con_credentialsRef := Some (om_name (sec_meta us)),
          con_connectionInfoRef := Some (om_name (cm_meta cm))\<rparr>) a])"

text \<open>Publishing, as a whole.\<close>

definition publish_calls ::
  "'n lib_scheme \<Rightarrow> rds_connection \<Rightarrow> db_instance \<Rightarrow> secret \<Rightarrow> flow \<Rightarrow> event list \<Rightarrow> bool" where
  "publish_calls L c db sec f l \<longleftrightarrow>
     (f \<noteq> Continue \<and> (\<exists>us. secret_calls L c db sec f l us)) \<or>
     (\<exists>l1 us l2. secret_calls L c db sec Continue l1 us \<and> l = l1 @ l2 \<and>
        ((f \<noteq> Continue \<and> (\<exists>cm. configmap_calls L c db f l2 cm)) \<or>
         (\<exists>l3 cm l4. configmap_calls L c db Continue l3 cm \<and> refs_calls c us cm f l4 \<and> l2 = l3 @ l4)))"

text \<open>
  The steps in their order; the flag says whether the connection is reported ready, which it is
  when every step has ended with \<open>Continue\<close>.
\<close>

inductive con_calls :: "'n lib_scheme \<Rightarrow> rds_inventory \<Rightarrow> rds_connection \<Rightarrow> flow \<Rightarrow> bool \<Rightarrow> event list \<Rightarrow> bool"
  for L iv c where
  no_instance: "lookup_calls iv c f l db \<Longrightarrow> f \<noteq> Continue \<Longrightarrow> con_calls L iv c f False l"
| no_login: "lookup_calls iv c Continue l1 db \<Longrightarrow> login_calls db f l2 sec \<Longrightarrow> f \<noteq> Continue \<Longrightarrow>
    con_calls L iv c f False (l1 @ l2)"
| unpublished: "lookup_calls iv c Continue l1 db \<Longrightarrow> login_calls db Continue l2 sec \<Longrightarrow>
    publish_calls L c db sec f l3 \<Longrightarrow> f \<noteq> Continue \<Longrightarrow> con_calls L iv c f False (l1 @ l2 @ l3)"
| published: "lookup_calls iv c Continue l1 db \<Longrightarrow> login_calls db Continue l2 sec \<Longrightarrow>
    publish_calls L c db sec Continue l3 \<Longrightarrow> con_calls L iv c Stop True (l1 @ l2 @ l3)"

inductive_cases con_readyE: "con_calls L iv c f True l"

section \<open>The steps make these calls\<close>

text \<open>A step from \<open>s\<close> to \<open>t\<close> that makes the calls \<open>l\<close> and leaves connection and inventory alone.\<close>

definition con_stepped :: "'w con_st \<Rightarrow> event list \<Rightarrow> 'w con_st \<Rightarrow> bool" where
  "con_stepped s l t \<longleftrightarrow>
     history t = history s @ l \<and> cn_connection t = cn_connection s \<and> cn_inventory t = cn_inventory s"

lemma con_returns_frame [simp]:
  "history (con_returnError e rs m s) = history s" "history (con_returnReady s) = history s"
  "cn_connection (con_returnError e rs m s) = cn_connection s" "cn_inventory (con_returnError e rs m s) = cn_inventory s"
  "cn_dbInstance (con_returnError e rs m s) = cn_dbInstance s" "cn_secret (con_returnError e rs m s) = cn_secret s"
  by (simp_all add: con_returnError_def con_returnReady_def report_def)

lemma wp_checkDBInstanceStatus:
  "wp (checkDBInstanceStatus E) (\<lambda>f t. \<exists>l. con_stepped s l t \<and>
     lookup_calls (cn_inventory s) (cn_connection s) f l (cn_dbInstance t)) s"
  unfolding checkDBInstanceStatus_def
  by (auto simp: wp_simps Let_def con_stepped_def lookup_calls_def split: sum.split option.split prod.split)

lemma login_iff:
  "sp_masterUserPassword (db_spec db) = Some ref \<Longrightarrow>
   (\<exists>u p. login db sec u p) \<longleftrightarrow> data_get (sec_data sec) (skr_key ref) \<notin> {None, Some []} \<and> sp_masterUsername (db_spec db) \<noteq> None"
  by (auto simp: login_def)

lemma wp_checkDBConnectionStatus:
  "wp (checkDBConnectionStatus E) (\<lambda>f t. \<exists>l. con_stepped s l t \<and> cn_dbInstance t = cn_dbInstance s \<and>
     login_calls (cn_dbInstance s) f l (cn_secret t)) s"
  unfolding checkDBConnectionStatus_def login_calls_def
  by (auto simp: wp_simps Let_def con_stepped_def login_iff split: sum.split option.split prod.split)

lemma wp_record_refs:
  "wp (record_refs E c us cm) (\<lambda>f t. \<exists>l. history t = history s @ l \<and> refs_calls c us cm f l) s"
  unfolding record_refs_def refs_calls_def Let_def
  by (auto simp: wp_simps con_returnRequeue_def intro!: exI split: sum.split prod.split)

lemma wp_syncConnectionStatus:
  assumes s: "cn_connection s = c" "cn_dbInstance s = db" "cn_secret s = sec"
  shows "wp (syncConnectionStatus E)
    (\<lambda>f t. \<exists>l. history t = history s @ l \<and> publish_calls E c db sec f l) s"
  unfolding syncConnectionStatus_def wp_bind wp_get Let_def s wp_on_ret [of "con_createOrUpdateSecret E c sec db"]
  unfolding con_createOrUpdateSecret_def fresh_con_secret_def [symmetric]
proof (rule wp_CreateOrUpdate_pure)
  fix r f l us w
  let ?s = "s\<lparr>world := w, history := history s @ l\<rparr>"
  let ?Q = "\<lambda>f t. \<exists>l. history t = history s @ l \<and> publish_calls E c db sec f l"
  assume sc: "secret_calls E c db sec f l us" and r: "goes_on r f us"
  have stopped: "publish_calls E c db sec f l" if "f \<noteq> Continue"
    using that sc unfolding publish_calls_def by blast
  have config: "wp (on_ret (con_createOrUpdateConfigMap E c db)
      (\<lambda>e. stop_with (con_returnError e connectionStatusReasonBackendError connectionStatusMessageConfigMapError))
      (\<lambda>(_, dbConfigMap). record_refs E c us dbConfigMap)) ?Q ?s" if f: "f = Continue"
    unfolding wp_on_ret con_createOrUpdateConfigMap_def fresh_con_configmap_def [symmetric]
  proof (rule wp_CreateOrUpdate_pure)
    fix r2 f2 l2 cm w2
    assume cc: "configmap_calls E c db f2 l2 cm" and r2: "goes_on r2 f2 cm"
    have "publish_calls E c db sec f2 (l @ l2)" if "f2 \<noteq> Continue"
      using that sc cc f unfolding publish_calls_def by blast
    moreover have "wp (record_refs E c us cm) ?Q t" if "f2 = Continue" "history t = history s @ l @ l2" for t :: "'a con_st"
    proof (rule wp_mono [OF wp_record_refs])
      fix f3 and u :: "'a con_st"
      assume "\<exists>l. history u = history t @ l \<and> refs_calls c us cm f3 l"
      then obtain l3 where "history u = history s @ l @ l2 @ l3" "refs_calls c us cm f3 l3"
        using \<open>history t = history s @ l @ l2\<close> by auto
      then show "?Q f3 u" using sc cc f \<open>f2 = Continue\<close> unfolding publish_calls_def by blast
    qed
    ultimately show "case r2 of
        Ret a \<Rightarrow> wp (case a of (_, dbConfigMap) \<Rightarrow> record_refs E c us dbConfigMap) ?Q
          (?s\<lparr>world := w2, history := history ?s @ l2\<rparr>)
      | Err e \<Rightarrow> wp (stop_with (con_returnError e connectionStatusReasonBackendError
          connectionStatusMessageConfigMapError)) ?Q (?s\<lparr>world := w2, history := history ?s @ l2\<rparr>)
      | Panics \<Rightarrow> ?Q Panic (?s\<lparr>world := w2, history := history ?s @ l2\<rparr>)"
      using r2 by (auto simp: goes_on_def wp_stop_with split: outcome.splits)
  qed
  show "case r of
      Ret a \<Rightarrow> wp (case a of (_, userSecret) \<Rightarrow> on_ret (con_createOrUpdateConfigMap E c db)
          (\<lambda>e. stop_with (con_returnError e connectionStatusReasonBackendError connectionStatusMessageConfigMapError))
          (\<lambda>(_, dbConfigMap). record_refs E c userSecret dbConfigMap)) ?Q ?s
    | Err e \<Rightarrow> wp (stop_with (con_returnError e connectionStatusReasonBackendError
        connectionStatusMessageSecretError)) ?Q ?s
    | Panics \<Rightarrow> ?Q Panic ?s"
    using r stopped config by (auto simp: goes_on_def wp_stop_with split: outcome.splits)
qed

section \<open>Reports\<close>

lemma always_con_steps_unready:
  "always unready_stop (checkDBInstanceStatus E)" "always unready_stop (checkDBConnectionStatus E)"
  "always unready_stop (syncConnectionStatus E)"
  unfolding checkDBInstanceStatus_def checkDBConnectionStatus_def syncConnectionStatus_def record_refs_def
  by (intro always_intros; simp add: con_rep.unready_error con_rep.unready_requeue)+

lemmas wp_con_steps_unready = always_con_steps_unready [THEN alwaysD]

text \<open>The steps say nothing about readiness unless they stop.\<close>

lemma wp_con_steps_silent:
  "wp (checkDBInstanceStatus E) (\<lambda>f t. f \<noteq> Stop \<longrightarrow> v_status t = v_status s) s"
  "wp (checkDBConnectionStatus E) (\<lambda>f t. f \<noteq> Stop \<longrightarrow> v_status t = v_status s) s"
  "wp (syncConnectionStatus E) (\<lambda>f t. f \<noteq> Stop \<longrightarrow> v_status t = v_status s) s"
proof -
  show "wp (checkDBInstanceStatus E) (\<lambda>f t. f \<noteq> Stop \<longrightarrow> v_status t = v_status s) s"
    unfolding checkDBInstanceStatus_def
    by (auto simp: wp_simps Let_def split: sum.split option.split prod.split)
  show "wp (checkDBConnectionStatus E) (\<lambda>f t. f \<noteq> Stop \<longrightarrow> v_status t = v_status s) s"
    unfolding checkDBConnectionStatus_def
    by (auto simp: wp_simps Let_def split: sum.split option.split prod.split)
  have refs: "wp (record_refs E c us cm) (\<lambda>f t. f \<noteq> Stop \<longrightarrow> v_status t = v_status s) t"
    if "v_status t = v_status s" for c us cm and t :: "'a con_st"
    using that by (auto simp: record_refs_def wp_simps Let_def split: sum.split prod.split)
  show "wp (syncConnectionStatus E) (\<lambda>f t. f \<noteq> Stop \<longrightarrow> v_status t = v_status s) s"
    unfolding syncConnectionStatus_def wp_bind wp_get Let_def wp_on_ret con_createOrUpdateSecret_def
      con_createOrUpdateConfigMap_def
    by (intro wp_CreateOrUpdate_pure)
      (auto simp: wp_stop_with wp_case_prod wp_on_ret goes_on_def split: outcome.split intro!: wp_CreateOrUpdate_pure refs)
qed

text \<open>After the inventory: the calls, and a consistent report that is ready only at the end.\<close>

definition con_reported ::
  "('w, 'n) env_scheme \<Rightarrow> rds_inventory \<Rightarrow> rds_connection \<Rightarrow> event list \<Rightarrow> flow \<Rightarrow> 'w con_st \<Rightarrow> bool" where
  "con_reported E iv c h f t \<longleftrightarrow>
     (\<exists>l rdy. history t = h @ l \<and> con_calls E iv c f rdy l \<and> (f = Stop \<longrightarrow> consistent t) \<and>
        (v_status t = ConditionTrue \<longrightarrow> rdy))"

lemma calls_not_diverge:
  "lookup_calls iv c f l db \<Longrightarrow> f \<noteq> Diverge" "login_calls db f l sec \<Longrightarrow> f \<noteq> Diverge"
  "cou_calls evf evs obj g f l res \<Longrightarrow> f \<noteq> Diverge" "refs_calls c us cm f l \<Longrightarrow> f \<noteq> Diverge"
proof -
  show "lookup_calls iv c f l db \<Longrightarrow> f \<noteq> Diverge"
    by (auto simp: lookup_calls_def Let_def split: option.splits if_splits)
  show "login_calls db f l sec \<Longrightarrow> f \<noteq> Diverge"
    by (auto simp: login_calls_def Let_def split: option.splits if_splits)
  show cou: "cou_calls evf evs obj g f l res \<Longrightarrow> f \<noteq> Diverge" for evf evs obj g f l res
    by (auto simp: cou_calls_def)
  show refs: "refs_calls c us cm f l \<Longrightarrow> f \<noteq> Diverge" for c us cm f l
    unfolding refs_calls_def by (elim exE conjE) (simp split: sum.split)
qed

lemma con_calls_ends: "con_calls L iv c f rdy l \<Longrightarrow> f = Stop \<or> f = Panic"
proof (induction rule: con_calls.induct)
  case (unpublished l1 db l2 sec f l3)
  then have "f \<noteq> Diverge"
    unfolding publish_calls_def by (auto dest: calls_not_diverge)
  then show ?case using unpublished by (cases f) auto
next
  case (no_instance f l db)
  then show ?case by (cases f) (auto dest: calls_not_diverge)
next
  case (no_login l1 db f l2 sec)
  then show ?case by (cases f) (auto dest: calls_not_diverge)
qed simp

lemma wp_con_work:
  assumes s: "cn_connection s = c" "cn_inventory s = iv" "unclaimed s"
  shows "wp (con_work E) (con_reported E iv c (history s)) s"
proof -
  let ?P = "con_reported E iv c (history s)"
  have sync: "wp (andThen (syncConnectionStatus E) (stop_with con_returnReady)) ?P t"
    if calls: "lookup_calls iv c Continue l1 (cn_dbInstance t)" "login_calls (cn_dbInstance t) Continue l2 (cn_secret t)"
      and t: "history t = history s @ l1 @ l2" "cn_connection t = c" "unclaimed t" for l1 l2 and t :: "'a con_st"
  proof -
    obtain f u where run: "run_state (syncConnectionStatus E) t = (f, u)" by fastforce
    have u: "f \<noteq> Stop \<Longrightarrow> unclaimed u" "unready_stop f u"
      using wp_run [OF wp_con_steps_silent(3) run] wp_run [OF wp_con_steps_unready(3) run] t(3) by auto
    obtain l3 where l3: "history u = history t @ l3" "publish_calls E c (cn_dbInstance t) (cn_secret t) f l3"
      using wp_run [OF wp_syncConnectionStatus [OF t(2) refl refl] run] by blast
    have "?P f u" if "f \<noteq> Continue"
      using con_calls.unpublished [OF calls l3(2) that] l3(1) t(1) u that
      unfolding con_reported_def unready_stop_def by (cases "f = Stop") fastforce+
    moreover have "?P Stop (con_returnReady u)" if "f = Continue"
      using con_calls.published [OF calls] l3 t(1) that con_rep.consistent_ready
      unfolding con_reported_def by fastforce
    ultimately show ?thesis by (simp add: wp_andThen wp_stop_with wp_def run)
  qed
  have check: "wp (andThen (checkDBConnectionStatus E) (andThen (syncConnectionStatus E) (stop_with con_returnReady))) ?P t"
    if calls: "lookup_calls iv c Continue l1 (cn_dbInstance t)"
      and t: "history t = history s @ l1" "cn_connection t = c" "unclaimed t" for l1 and t :: "'a con_st"
  proof -
    obtain f u where run: "run_state (checkDBConnectionStatus E) t = (f, u)" by fastforce
    have u: "f \<noteq> Stop \<Longrightarrow> unclaimed u" "unready_stop f u"
      using wp_run [OF wp_con_steps_silent(2) run] wp_run [OF wp_con_steps_unready(2) run] t(3) by auto
    obtain l2 where l2: "con_stepped t l2 u" "cn_dbInstance u = cn_dbInstance t"
      "login_calls (cn_dbInstance t) f l2 (cn_secret u)"
      using wp_run [OF wp_checkDBConnectionStatus run] by blast
    have "?P f u" if "f \<noteq> Continue"
      using con_calls.no_login [OF calls l2(3) that] l2(1) t(1) u that
      unfolding con_reported_def unready_stop_def con_stepped_def by (cases "f = Stop") fastforce+
    moreover have "wp (andThen (syncConnectionStatus E) (stop_with con_returnReady)) ?P u" if "f = Continue"
      by (rule sync [of l1 u l2]) (use calls l2 t u that in \<open>auto simp: con_stepped_def\<close>)
    ultimately show ?thesis by (subst wp_andThen) (simp add: wp_fst_snd [of "checkDBConnectionStatus E"] run)
  qed
  obtain f u where run: "run_state (checkDBInstanceStatus E) s = (f, u)" by fastforce
  have u: "f \<noteq> Stop \<Longrightarrow> unclaimed u" "unready_stop f u"
    using wp_run [OF wp_con_steps_silent(1) run] wp_run [OF wp_con_steps_unready(1) run] s(3) by auto
  obtain l1 where l1: "con_stepped s l1 u" "lookup_calls iv c f l1 (cn_dbInstance u)"
    using wp_run [OF wp_checkDBInstanceStatus run] s by auto
  have "?P f u" if "f \<noteq> Continue"
    using con_calls.no_instance [OF l1(2) that] l1(1) u that
    unfolding con_reported_def unready_stop_def con_stepped_def by (cases "f = Stop") fastforce+
  moreover have "wp (andThen (checkDBConnectionStatus E) (andThen (syncConnectionStatus E) (stop_with con_returnReady))) ?P u"
    if "f = Continue"
    by (rule check [of l1 u]) (use l1 s u that in \<open>auto simp: con_stepped_def\<close>)
  ultimately show ?thesis
    unfolding con_work_def by (subst wp_andThen) (simp add: wp_fst_snd [of "checkDBInstanceStatus E"] run)
qed

section \<open>Reconcile\<close>

text \<open>The body: the inventory first, the rest only when it is ready.\<close>

definition con_body_trace ::
  "('w, 'n) env_scheme \<Rightarrow> rds_connection \<Rightarrow> flow \<Rightarrow> bool \<Rightarrow> event list \<Rightarrow> bool" where
  "con_body_trace E c f rdy h \<longleftrightarrow>
     (\<exists>e. h = [EvGetInventory (con_inventoryRef c) (Inl e)] \<and> f = Stop \<and> \<not> rdy) \<or>
     (\<exists>iv l. h = EvGetInventory (con_inventoryRef c) (Inr iv) # l \<and>
        (if inventory_ready E iv then con_calls E iv c f rdy l else l = [] \<and> f = Stop \<and> \<not> rdy))"

definition con_body_reported :: "('w, 'n) env_scheme \<Rightarrow> rds_connection \<Rightarrow> event list \<Rightarrow> flow \<Rightarrow> 'w con_st \<Rightarrow> bool" where
  "con_body_reported E c h f t \<longleftrightarrow>
     (\<exists>l rdy. history t = h @ l \<and> con_body_trace E c f rdy l \<and> (f = Stop \<longrightarrow> consistent t) \<and>
        (v_status t = ConditionTrue \<longrightarrow> rdy))"

lemma wp_con_body:
  assumes s: "cn_connection s = c" "unclaimed s"
  shows "wp (con_body E) (con_body_reported E c (history s)) s"
  unfolding con_body_def wp_bind wp_get Let_def s(1)
proof (rule wp_api_any)
  fix r w
  let ?ev = "EvGetInventory (con_inventoryRef c)"
  let ?t = "s\<lparr>world := w, history := history s @ [?ev r]\<rparr>"
  have stops: "con_body_reported E c (history s) Stop u"
    if "history u = history s @ [?ev r]" "consistent u" "unclaimed u" "\<And>iv. r = Inr iv \<Longrightarrow> \<not> inventory_ready E iv" for u
    using that unfolding con_body_reported_def con_body_trace_def by (cases r) fastforce+
  have unready: "consistent (con_returnError e rs m u)" "unclaimed (con_returnError e rs m u)"
    if "reason_match rs" for e rs m and u :: "'a con_st"
    using that by (simp_all add: con_returnError_def consistent_def)
  have requeued: "consistent (con_returnRequeue rs m u)" "unclaimed (con_returnRequeue rs m u)"
    if "reason_match rs" for rs m and u :: "'a con_st"
    using that by (simp_all add: con_returnRequeue_def consistent_def)
  have work: "wp (con_work E) (con_body_reported E c (history s)) (?t\<lparr>cn_inventory := iv\<rparr>)"
    if "r = Inr iv" "inventory_ready E iv" for iv
  proof (rule wp_mono [OF wp_con_work [of _ c iv]])
    fix f and u :: "'a con_st"
    assume "con_reported E iv c (history (?t\<lparr>cn_inventory := iv\<rparr>)) f u"
    then show "con_body_reported E c (history s) f u"
      using that unfolding con_reported_def con_body_reported_def con_body_trace_def by fastforce
  qed (use s in simp_all)
  show "wp (case r of
        Inl e \<Rightarrow>
          if IsNotFound e
          then stop_with (con_returnError e connectionStatusReasonNotFound connectionStatusMessageInventoryNotFound)
          else stop_with (con_returnError e connectionStatusReasonBackendError connectionStatusMessageGetInventoryError)
      | Inr iv \<Rightarrow> State_Monad.update (\<lambda>s. s\<lparr>cn_inventory := iv\<rparr>) \<bind> (\<lambda>_.
          if \<not> inventory_ready E iv
          then stop_with (con_returnRequeue connectionStatusReasonUnreachable connectionStatusMessageInventoryNotReady)
          else con_work E)) (con_body_reported E c (history s)) ?t"
  proof (cases r)
    case (Inl e)
    then show ?thesis by (auto simp: wp_simps unready intro!: stops)
  next
    case (Inr iv)
    show ?thesis
    proof (cases "inventory_ready E iv")
      case True
      from work [OF Inr True] show ?thesis by (simp add: Inr True wp_simps)
    next
      case False
      with Inr show ?thesis by (auto simp: wp_simps requeued intro!: stops)
    qed
  qed
qed

text \<open>The whole history of a reconciliation.\<close>

definition con_trace :: "('w, 'n) env_scheme \<Rightarrow> key \<Rightarrow> flow \<Rightarrow> event list \<Rightarrow> bool" where
  "con_trace E req f h \<longleftrightarrow>
     (\<exists>e. h = [EvGetConnection req (Inl e)] \<and> f = Stop) \<or>
     (\<exists>c rdy body last r. h = EvGetConnection req (Inr c) # body @ [EvStatusConnection last r] \<and>
        con_body_trace E c f rdy body \<and>
        (conditions_ok E \<longrightarrow> condition_true E (con_conditions last) connectionConditionReady \<longrightarrow> rdy))"

lemma wp_updateConnectionReadyCondition:
  "wp (updateConnectionReadyCondition E)
     (\<lambda>_ t. \<exists>r. history t = history s @ [EvStatusConnection ((cn_connection s)\<lparr>con_conditions :=
        SetStatusCondition E (con_conditions (cn_connection s)) (ready_condition connectionConditionReady s)\<rparr>) r]) s"
  by (auto simp: updateConnectionReadyCondition_def wp_simps Let_def after_status_update_def
      split: sum.split prod.split)

lemma con_body_trace_ends: "con_body_trace E c f rdy h \<Longrightarrow> f = Stop \<or> f = Panic"
  unfolding con_body_trace_def by (auto dest: con_calls_ends split: if_splits)

lemma wp_Reconcile_connection:
  "wp (Reconcile_connection E req) (\<lambda>f t. con_trace E req f (history t)) (init_con w)"
proof -
  let ?Q = "\<lambda>f t. con_trace E req f (history t)"
  have deferred: "wp (updateConnectionReadyCondition E) (\<lambda>_. ?Q f) t"
    if "con_body_reported E c [EvGetConnection req (Inr c)] f t" for f c and t :: "'a con_st"
    by (rule wp_mono [OF wp_updateConnectionReadyCondition])
      (use that in \<open>fastforce simp: con_body_reported_def con_trace_def condition_true_ready\<close>)
  have body: "wp (deferring (updateConnectionReadyCondition E) (con_body E)) ?Q s"
    if "cn_connection s = c" "unclaimed s" "history s = [EvGetConnection req (Inr c)]" for c s
    unfolding wp_deferring
  proof (rule wp_mono [OF wp_con_body [OF that(1,2)]])
    fix f and t :: "'a con_st"
    assume t: "con_body_reported E c (history s) f t"
    then have "f \<noteq> Diverge" by (auto simp: con_body_reported_def dest: con_body_trace_ends)
    then show "if f = Diverge then ?Q f t else wp (updateConnectionReadyCondition E) (\<lambda>_. ?Q f) t"
      using deferred t that(3) by simp
  qed
  have missed: "?Q Stop t" if "history t = [EvGetConnection req (Inl e)]" for e and t :: "'a con_st"
    using that by (auto simp: con_trace_def)
  show ?thesis
    unfolding Reconcile_connection_def wp_bind wp_case_sum
    by (rule wp_api_any)
      (auto simp only: wp_if wp_return wp_stop_with wp_update split: sum.split if_splits
        intro!: body missed, simp_all add: init_con_def)
qed

section \<open>What the calls say about each other\<close>

lemma lookup_calls_Continue:
  "lookup_calls iv c Continue l db \<longleftrightarrow>
   (\<exists>ins. find (\<lambda>ins. di_instanceID ins = con_instanceID c) (inv_instances iv) = Some ins \<and>
     l = [EvGetDBInstance \<lparr>k_namespace = k_namespace (con_inventoryRef c), k_name = di_name ins\<rparr> (Inr db)] \<and>
     st_dbInstanceStatus (db_status db) = Some ''available'')"
  by (auto simp: lookup_calls_def Let_def split: option.splits if_splits)

lemma login_calls_Continue:
  "login_calls db Continue l sec \<longleftrightarrow>
   (\<exists>ref. sp_masterUserPassword (db_spec db) = Some ref \<and>
     l = [EvGetSecret \<lparr>k_namespace = skr_namespace ref, k_name = skr_name ref\<rparr> (Inr sec)] \<and>
     (\<exists>u p. login db sec u p) \<and> st_endpoint (db_status db) \<noteq> None)"
  by (auto simp: login_calls_def Let_def split: option.splits if_splits)

lemma lookup_calls_only:
  "lookup_calls iv c f l db \<Longrightarrow> EvApplySecret new r \<notin> set l"
  "lookup_calls iv c f l db \<Longrightarrow> EvApplyConfigMap cm q \<notin> set l"
  by (auto simp: lookup_calls_def Let_def split: option.splits)

lemma login_calls_only:
  "login_calls db f l sec \<Longrightarrow> EvApplySecret new r \<notin> set l"
  "login_calls db f l sec \<Longrightarrow> EvApplyConfigMap cm q \<notin> set l"
  by (auto simp: login_calls_def Let_def split: option.splits)

lemma con_calls_published:
  assumes "con_calls L iv c f rdy l" "EvApplySecret new r \<in> set l \<or> EvApplyConfigMap cm q \<in> set l"
  obtains l1 db l2 sec f' l3 where "lookup_calls iv c Continue l1 db" "login_calls db Continue l2 sec"
    "publish_calls L c db sec f' l3" "l = l1 @ l2 @ l3"
  using assms(1)
proof cases
  case (no_instance db)
  then show ?thesis using assms(2) lookup_calls_only by blast
next
  case (no_login l1 db l2 sec)
  then show ?thesis using assms(2) lookup_calls_only login_calls_only by fastforce
qed (use that in blast)+

lemma publish_calls_secret:
  assumes "publish_calls L c db sec f l" "EvApplySecret new r \<in> set l"
  shows "\<exists>found. controlled_secret L c sec db (or_fresh found (fresh_con_secret c)) = Ret new \<and>
    EvFetchSecret (fresh_con_secret c) (Inr found) \<in> set l"
proof -
  have other: "EvApplySecret new r \<notin> set l'" if "configmap_calls L c db f' l' cm" for f' l' cm
    using that by (auto dest: cou_calls_set)
  have refs: "EvApplySecret new r \<notin> set l'" if "refs_calls c us cm f' l'" for us cm f' l'
    using that by (auto simp: refs_calls_def)
  have own: "\<exists>found. controlled_secret L c sec db (or_fresh found (fresh_con_secret c)) = Ret new \<and>
      EvFetchSecret (fresh_con_secret c) (Inr found) \<in> set l'"
    if "secret_calls L c db sec f' l' us" "EvApplySecret new r \<in> set l'" for f' l' us
    using cou_calls_set [OF that] by auto
  from assms(1) consider us where "secret_calls L c db sec f l us"
    | l1 us l2 cm f' where "secret_calls L c db sec Continue l1 us" "configmap_calls L c db f' l2 cm" "l = l1 @ l2"
    | l1 us l2 cm l3 where "secret_calls L c db sec Continue l1 us" "configmap_calls L c db Continue l2 cm"
        "refs_calls c us cm f l3" "l = l1 @ l2 @ l3"
    unfolding publish_calls_def by blast
  then show ?thesis
    by cases (use assms(2) own other refs in \<open>fastforce+\<close>)
qed

lemma publish_calls_configmap:
  assumes "publish_calls L c db sec f l" "EvApplyConfigMap new r \<in> set l"
  shows "\<exists>found. controlled_configmap L c db (or_fresh found (fresh_con_configmap c)) = Ret new \<and>
    EvFetchConfigMap (fresh_con_configmap c) (Inr found) \<in> set l"
proof -
  have other: "EvApplyConfigMap new r \<notin> set l'" if "secret_calls L c db sec f' l' us" for f' l' us
    using that by (auto dest: cou_calls_set)
  have refs: "EvApplyConfigMap new r \<notin> set l'" if "refs_calls c us cm f' l'" for us cm f' l'
    using that by (auto simp: refs_calls_def)
  have own: "\<exists>found. controlled_configmap L c db (or_fresh found (fresh_con_configmap c)) = Ret new \<and>
      EvFetchConfigMap (fresh_con_configmap c) (Inr found) \<in> set l'"
    if "configmap_calls L c db f' l' cm" "EvApplyConfigMap new r \<in> set l'" for f' l' cm
    using cou_calls_set [OF that] by auto
  from assms(1) consider us where "secret_calls L c db sec f l us"
    | l1 us l2 cm f' where "secret_calls L c db sec Continue l1 us" "configmap_calls L c db f' l2 cm" "l = l1 @ l2"
    | l1 us l2 cm l3 where "secret_calls L c db sec Continue l1 us" "configmap_calls L c db Continue l2 cm"
        "refs_calls c us cm f l3" "l = l1 @ l2 @ l3"
    unfolding publish_calls_def by blast
  then show ?thesis
    by cases (use assms(2) own other refs in \<open>fastforce+\<close>)
qed

lemma refs_calls_Continue:
  assumes "refs_calls c us cm Continue l"
  shows "\<exists>c2. l = [EvStatusConnection (c\<lparr>con_credentialsRef := Some (om_name (sec_meta us)),
     con_connectionInfoRef := Some (om_name (cm_meta cm))\<rparr>) (Inr c2)]"
proof -
  obtain a where a: "Continue = (case a of Inl _ \<Rightarrow> Stop | Inr _ \<Rightarrow> Continue)"
    "l = [EvStatusConnection (c\<lparr>con_credentialsRef := Some (om_name (sec_meta us)),
       con_connectionInfoRef := Some (om_name (cm_meta cm))\<rparr>) a]"
    using assms unfolding refs_calls_def by blast
  then show ?thesis by (cases a) simp_all
qed

text \<open>A connection is ready when its secret and config map were written and are referred to.\<close>

definition con_published :: "'n lib_scheme \<Rightarrow> rds_connection \<Rightarrow> event list \<Rightarrow> bool" where
  "con_published L c h \<longleftrightarrow>
     (\<exists>new op us newcm opcm cm c2.
        EvApplySecret new (Inr (op, us)) \<in> set h \<and> EvApplyConfigMap newcm (Inr (opcm, cm)) \<in> set h \<and>
        EvStatusConnection (c\<lparr>con_credentialsRef := Some (om_name (sec_meta us)),
          con_connectionInfoRef := Some (om_name (cm_meta cm))\<rparr>) (Inr c2) \<in> set h)"

lemma con_calls_ready:
  assumes "con_calls L iv c f True l"
  shows "con_published L c l"
  using assms
proof (rule con_readyE)
  fix l1 db l2 sec l3
  assume "publish_calls L c db sec Continue l3" and l: "l = l1 @ l2 @ l3"
  then obtain s1 us s2 cm s3 where p: "secret_calls L c db sec Continue s1 us"
    "configmap_calls L c db Continue s2 cm" "refs_calls c us cm Continue s3" "l3 = s1 @ s2 @ s3"
    unfolding publish_calls_def by blast
  obtain new op where "EvApplySecret new (Inr (op, us)) \<in> set s1"
    using p(1) by (auto simp: cou_calls_Continue)
  then have "EvApplySecret new (Inr (op, us)) \<in> set l" unfolding l p(4) by simp
  moreover obtain newcm opcm where "EvApplyConfigMap newcm (Inr (opcm, cm)) \<in> set s2"
    using p(2) by (auto simp: cou_calls_Continue)
  then have "EvApplyConfigMap newcm (Inr (opcm, cm)) \<in> set l" unfolding l p(4) by simp
  moreover obtain c2 where "EvStatusConnection (c\<lparr>con_credentialsRef := Some (om_name (sec_meta us)),
      con_connectionInfoRef := Some (om_name (cm_meta cm))\<rparr>) (Inr c2) \<in> set l"
    using refs_calls_Continue [OF p(3)] unfolding l p(4) by fastforce
  ultimately show ?thesis unfolding con_published_def by blast
qed

lemma con_trace_ends: "con_trace E req f h \<Longrightarrow> f = Stop \<or> f = Panic"
  unfolding con_trace_def by (auto dest: con_body_trace_ends)

text \<open>A write happens among the calls after a ready inventory.\<close>

lemma con_trace_write:
  assumes "con_trace E req f h" "e \<in> set h" "e = EvApplySecret new r \<or> e = EvApplyConfigMap cm q"
  obtains c iv rdy l last x where
    "h = EvGetConnection req (Inr c) # EvGetInventory (con_inventoryRef c) (Inr iv) # l @ [EvStatusConnection last x]"
    "inventory_ready E iv" "con_calls E iv c f rdy l" "e \<in> set l"
proof -
  from assms obtain c rdy body last x where h: "h = EvGetConnection req (Inr c) # body @ [EvStatusConnection last x]"
    "con_body_trace E c f rdy body" "e \<in> set body"
    unfolding con_trace_def by auto
  then obtain iv l where b: "body = EvGetInventory (con_inventoryRef c) (Inr iv) # l" "e \<in> set l"
    "if inventory_ready E iv then con_calls E iv c f rdy l else l = [] \<and> f = Stop \<and> \<not> rdy"
    using assms(3) unfolding con_body_trace_def by auto
  then have "inventory_ready E iv" "con_calls E iv c f rdy l" by (auto split: if_splits)
  with h b that show thesis by simp
qed

end
