(* ===== verification/SampleRuns.thy ===== *)
theory SampleRuns
  imports Sample InstanceFacts ConnectionFacts
begin

text \<open>
  Runs of the controllers in the world of \<open>Sample\<close>, evaluated step by step: the witnesses
  of the conditional properties start from them.
\<close>

section \<open>The objects of the sample\<close>

lemma sample_valid: "valid_params (ri_otherInstanceParams sample_instance)"
  unfolding valid_params_def by code_simp

lemma sample_steps:
  "run_steps param_steps (ri_otherInstanceParams sample_instance) sp =
   Inr (apply_params (ri_otherInstanceParams sample_instance) sp)"
  by (simp add: run_param_steps sample_valid)

lemma sample_engine:
  "sp_engine (apply_params (ri_otherInstanceParams sample_instance) sp) = Some ''postgres''"
  by (simp add: apply_params_def sample_instance_def)

lemma sample_ready: "inventory_ready sample sample_inventory"
  by (simp add: inventory_ready_def condition_true_def sample_inventory_def find_condition_def)

lemma sample_live: "ins_live sample_instance" "ins_guarded sample sample_instance"
  by (simp_all add: sample_instance_def sample_meta_def time_IsZero_def empty_meta_def instanceFinalizer_def)

lemma sample_phase_kept: "phase_kept sample"
  by (simp add: phase_kept_def)

section \<open>Provisioning\<close>

lemma sample_spec: "wp (setDBInstanceSpec sample db sample_instance) (\<lambda>r _. \<exists>new. r = Ret new) s"
  by (simp add: setDBInstanceSpec_def sample_steps setCredentials_def ensure_password_def Let_def
      wp_simps sample_secret_def sample_engine split: option.split)

lemma sample_mutate: "wp (dbInstance_mutate sample sample_instance db) (\<lambda>r _. \<exists>new. r = Ret new) s"
  by (auto simp: dbInstance_mutate_def set_owner_def wp_simps intro!: wp_mono [OF sample_spec])

text \<open>The sample's DB instance is not there yet: it is created, and the reconciliation stops.\<close>

lemma sample_create:
  assumes "i_instance s = sample_instance"
  shows "wp (createOrUpdateDBInstance sample)
    (\<lambda>f t. f = Stop \<and> (\<exists>new r. EvApplyDBInstance new r \<in> set (history t))) s"
  using assms
  by (simp add: createOrUpdateDBInstance_def CreateOrUpdate_def wp_simps Let_def)
    (rule wp_mono [OF sample_mutate], fastforce simp: stored_def instance_applied_def wp_simps)

lemma sample_work:
  assumes "i_instance s = sample_instance"
  shows "wp (ins_work sample) (\<lambda>f t. f = Stop \<and> (\<exists>new r. EvApplyDBInstance new r \<in> set (history t))) s"
  using assms unfolding ins_work_def
  by (simp add: ins_guard.wp_guard sample_live del: sample_fields)
    (auto simp: wp_andThen intro!: wp_mono [OF sample_create])

lemma sample_run:
  "wp (Reconcile_instance sample (sample_key ''db1''))
     (\<lambda>_ t. \<exists>new r. EvApplyDBInstance new r \<in> set (history t)) (init_ins 0)"
  by (simp add: Reconcile_instance_def ins_body_def wp_simps init_ins_def sample_ready Let_def)
    (rule wp_mono, rule sample_work, simp, auto simp: wp_simps updateInstanceReadyCondition_def Let_def)

text \<open>An instance without an engine, and one that is being deleted.\<close>

definition no_engine :: rds_instance where
  "no_engine = sample_instance\<lparr>ri_otherInstanceParams := Map.empty\<rparr>"

lemma no_engine_error: "first_error (param_checks (ri_otherInstanceParams no_engine)) = Some (requiredParameterError ''Engine'')"
  by (simp add: no_engine_def param_checks_def check_present_def)

definition leaving :: rds_instance where
  "leaving = sample_instance\<lparr>ri_meta := (ri_meta sample_instance)\<lparr>om_deletionTimestamp := Some 1\<rparr>\<rparr>"

lemma leaving_facts: "\<not> ins_live leaving" "ins_guarded sample leaving"
  by (simp_all add: leaving_def sample_instance_def sample_meta_def time_IsZero_def instanceFinalizer_def)

text \<open>The client of a cluster that has lost its inventory.\<close>

definition no_inventory :: "nat env" where
  "no_inventory = sample\<lparr>api_getInventory := (\<lambda>k. Pair (Inl not_found)),
     api_getInstance := (\<lambda>k. Pair (Inr leaving))\<rparr>"

section \<open>A connection that becomes ready\<close>

lemma sample_lookup:
  "find (\<lambda>i. di_instanceID i = con_instanceID sample_connection) (inv_instances sample_inventory) =
   Some \<lparr>di_instanceID = ''orders'', di_name = ''db1'', di_instanceInfo = Map.empty\<rparr>"
  by (simp add: sample_connection_def sample_inventory_def)

lemma sample_db_facts:
  "st_dbInstanceStatus (db_status sample_db) = Some ''available''"
  "sp_masterUserPassword (db_spec sample_db) =
     Some \<lparr>skr_name = ''db1-credentials'', skr_namespace = ''apps'', skr_key = ''password''\<rparr>"
  "sp_masterUsername (db_spec sample_db) = Some ''postgres''" "sp_engine (db_spec sample_db) = Some ''postgres''"
  "sp_dbName (db_spec sample_db) = Some ''postgres''"
  "st_endpoint (db_status sample_db) =
     Some \<lparr>ep_address = Some ''db1.example.com'', ep_hostedZoneID = None, ep_port = Some 5432\<rparr>"
  by (simp_all add: sample_db_def)

lemma sample_secret_password: "data_get (sec_data (sample_secret k)) ''password'' = Some ''Sw0rd~fish''"
  by (simp add: sample_secret_def data_get_def)

definition con_success :: "nat con_st \<Rightarrow> bool" where
  "con_success t \<longleftrightarrow> v_status t = ConditionTrue \<and> (\<exists>new r. EvApplySecret new r \<in> set (history t)) \<and>
     (\<exists>new r. EvApplyConfigMap new r \<in> set (history t))"

lemma sample_con_work:
  "cn_connection s = sample_connection \<Longrightarrow> cn_inventory s = sample_inventory \<Longrightarrow>
   wp (con_work sample) (\<lambda>f t. f = Stop \<and> con_success t) s"
  by (simp add: con_work_def checkDBInstanceStatus_def checkDBConnectionStatus_def syncConnectionStatus_def
      con_createOrUpdateSecret_def con_createOrUpdateConfigMap_def CreateOrUpdate_def record_refs_def wp_simps
      Let_def sample_lookup sample_db_facts sample_secret_password controlled_secret_def controlled_configmap_def
      setSecret_def setConfigMap_def set_controller_def empty_meta_def empty_secret_def empty_configmap_def
      stored_def con_returnReady_def con_success_def) blast

lemma sample_con_run:
  "wp (Reconcile_connection sample (sample_key ''binding'')) (\<lambda>_ t. \<exists>h last r. history t = h @ [EvStatusConnection last r] \<and>
     condition_true sample (con_conditions last) connectionConditionReady \<and>
     (\<exists>new r. EvApplySecret new r \<in> set h) \<and> (\<exists>new r. EvApplyConfigMap new r \<in> set h)) (init_con 0)"
  by (simp add: Reconcile_connection_def con_body_def wp_simps init_con_def sample_ready Let_def)
    (rule wp_mono, rule sample_con_work, simp, simp,
     auto simp: wp_simps updateConnectionReadyCondition_def Let_def con_success_def
       condition_true_ready [OF sample_conditions_ok, simplified])

end
