(* ===== verification/Composition.thy ===== *)
theory Composition
  imports SampleRuns SampleInventory
begin

text \<open>
  What the controllers leave for each other: the inventory controller's list of DB instances and
  the credentials that the instance and inventory controllers attach to a DB instance are where
  the connection controller looks for them. \<open>healthy\<close> is a cluster that answers a
  reconciliation of a connection without errors, and where the connection may control the secret
  and the config map of its names, if they are there.
\<close>

section \<open>A client that answers\<close>

text \<open>\<open>SetControllerReference\<close> accepts an owner for objects controlled as \<open>m\<close> is.\<close>

definition may_control :: "'n lib_scheme \<Rightarrow> kobject \<Rightarrow> object_meta \<Rightarrow> bool" where
  "may_control L ow m \<longleftrightarrow>
     (\<forall>m1. om_controller m1 = om_controller m \<longrightarrow> (\<exists>m2. SetControllerReference L ow m1 = Inr m2))"

definition healthy ::
  "('w, 'n) env_scheme \<Rightarrow> key \<Rightarrow> rds_connection \<Rightarrow> rds_inventory \<Rightarrow> key \<Rightarrow> db_instance \<Rightarrow> key \<Rightarrow> secret \<Rightarrow> bool" where
  "healthy E req c iv k db k' sec \<longleftrightarrow>
     (\<forall>w. fst (api_getConnection E req w) = Inr c) \<and>
     (\<forall>w. fst (api_getInventory E (con_inventoryRef c) w) = Inr iv) \<and>
     (\<forall>w. fst (api_getDBInstance E k w) = Inr db) \<and>
     (\<forall>w. fst (api_getSecret E k' w) = Inr sec) \<and>
     (\<forall>w. \<exists>found. fst (cou_fetchSecret E (fresh_con_secret c) w) = Inr found \<and>
        may_control E (OwnerConnection c) (sec_meta (or_fresh found (fresh_con_secret c)))) \<and>
     (\<forall>found new w. \<exists>x. fst (cou_storeSecret E found new w) = Inr x) \<and>
     (\<forall>w. \<exists>found. fst (cou_fetchConfigMap E (fresh_con_configmap c) w) = Inr found \<and>
        may_control E (OwnerConnection c) (cm_meta (or_fresh found (fresh_con_configmap c)))) \<and>
     (\<forall>found new w. \<exists>x. fst (cou_storeConfigMap E found new w) = Inr x) \<and>
     (\<forall>o1 w. \<exists>x. fst (api_statusUpdateConnection E o1 w) = Inr x)"

text \<open>What the connection controller needs of a DB instance to describe it.\<close>

definition addressed :: "db_instance \<Rightarrow> bool" where
  "addressed db \<longleftrightarrow> sp_engine (db_spec db) \<noteq> None \<and>
     (case st_endpoint (db_status db) of None \<Rightarrow> False | Some ep \<Rightarrow> ep_address ep \<noteq> None \<and> ep_port ep \<noteq> None)"

text \<open>
  An object that was given the controller \<open>ow\<close> keeps its name and namespace, and
  \<open>SetControllerReference\<close> refuses \<open>ow'\<close> for whatever has the same controller.
\<close>

definition excludes :: "'n lib_scheme \<Rightarrow> kobject \<Rightarrow> kobject \<Rightarrow> bool" where
  "excludes L ow ow' \<longleftrightarrow>
     (\<forall>m m1. SetControllerReference L ow m = Inr m1 \<longrightarrow> object_key m1 = object_key m \<and>
        (\<forall>m2. om_controller m2 = om_controller m1 \<longrightarrow> (\<exists>e. SetControllerReference L ow' m2 = Inl e)))"

text \<open>The secrets that the credentials code creates for an owner.\<close>

lemma created_secret:
  assumes "run_state (setCredentials E db ns (Some ow) kind) s0 = (m, t0)"
    and "EvCreateSecret sec r \<in> set (history t0)" "EvCreateSecret sec r \<notin> set (history s0)"
  shows "SetControllerReference E ow (empty_meta\<lparr>om_name := credentials_name (om_name (db_meta db)), om_namespace := ns,
    om_labels := createSecretLabels E (Some ow) kind\<rparr>) = Inr (sec_meta sec)"
proof -
  have "extends (credential_call E \<lparr>k_namespace = ns, k_name = credentials_name (om_name (db_meta db))\<rparr> (Some ow) kind) s0 t0"
    using does_setCredentials [of E ns db "Some ow" kind] wp_run [OF _ assms(1)] unfolding does_def by blast
  then have "credential_call E \<lparr>k_namespace = ns, k_name = credentials_name (om_name (db_meta db))\<rparr> (Some ow) kind (EvCreateSecret sec r)"
    using assms(2,3) by (auto simp: extends_def list_all_iff)
  then show ?thesis by (simp add: credential_call_def)
qed

lemma wp_answer:
  assumes "fst (f (world s)) = r" "\<And>w. Q r (s\<lparr>world := w, history := history s @ [ev r]\<rparr>)"
  shows "wp (api_call f ev) Q s"
  using assms by (auto simp: wp_api_call split: prod.split)

lemma wp_CreateOrUpdate_answered:
  assumes "fst (fetch obj (world s)) = Inr found" "g (or_fresh found obj) = Ret new" "\<And>w. \<exists>x. fst (store found new w) = Inr x"
    and "\<And>x w. Q (Ret x) (s\<lparr>world := w, history := history s @ [evf obj (Inr found), evs new (Inr x)]\<rparr>)"
  shows "wp (CreateOrUpdate fetch evf store evs obj (\<lambda>old. State_Monad.return (g old))) Q s"
proof -
  obtain w1 where w1: "fetch obj (world s) = (Inr found, w1)" using assms(1) by (metis prod.collapse)
  obtain x w2 where w2: "store found new w1 = (Inr x, w2)" using assms(3) by (metis prod.collapse)
  show ?thesis using assms(2,4) w2 by (cases found) (simp_all add: CreateOrUpdate_def or_fresh_def wp_simps w1)
qed

section \<open>The connection's steps\<close>

lemma wp_found_instance:
  assumes "find (\<lambda>ins. di_instanceID ins = con_instanceID (cn_connection s)) (inv_instances (cn_inventory s)) = Some ins"
    and "\<And>w. fst (api_getDBInstance E \<lparr>k_namespace = k_namespace (con_inventoryRef (cn_connection s)), k_name = di_name ins\<rparr> w) = Inr db"
    and "st_dbInstanceStatus (db_status db) = Some ''available''"
    and "\<And>w h. Q Continue (s\<lparr>world := w, history := h, cn_dbInstance := db\<rparr>)"
  shows "wp (checkDBInstanceStatus E) Q s"
  unfolding checkDBInstanceStatus_def wp_bind wp_get Let_def assms(1) option.case
  by (rule wp_answer [OF assms(2)]) (simp add: wp_simps assms(3,4))

lemma wp_found_login:
  assumes "cn_dbInstance s = db" "login db sec u p" "st_endpoint (db_status db) \<noteq> None"
    and "sp_masterUserPassword (db_spec db) = Some ref"
    and "\<And>w. fst (api_getSecret E \<lparr>k_namespace = skr_namespace ref, k_name = skr_name ref\<rparr> w) = Inr sec"
    and "\<And>w h. Q Continue (s\<lparr>world := w, history := h, cn_secret := sec\<rparr>)"
  shows "wp (checkDBConnectionStatus E) Q s"
  unfolding checkDBConnectionStatus_def wp_bind wp_get Let_def assms(1,4) option.case
  by (rule wp_answer [OF assms(5)]) (use assms(2,3,4,6) in \<open>auto simp: wp_simps login_def\<close>)

lemma controlled_secret_made:
  assumes "login db sec u p" "may_control E (OwnerConnection c) (sec_meta old)"
  shows "\<exists>new. controlled_secret E c sec db old = Ret new \<and> published_secret E c u p old new"
proof -
  obtain m' where "SetControllerReference E (OwnerConnection c) ((sec_meta old)\<lparr>om_labels := buildConnectionLabels E c\<rparr>) = Inr m'"
    using assms(2) unfolding may_control_def by fastforce
  then show ?thesis
    using assms(1) by (auto simp: controlled_secret_def setSecret_def login_def published_secret_def)
qed

lemma controlled_configmap_made:
  assumes "addressed db" "may_control E (OwnerConnection c) (cm_meta old)"
  shows "\<exists>new. controlled_configmap E c db old = Ret new"
proof -
  obtain m' where "SetControllerReference E (OwnerConnection c) ((cm_meta old)\<lparr>om_labels := buildConnectionLabels E c\<rparr>) = Inr m'"
    using assms(2) unfolding may_control_def by fastforce
  then show ?thesis
    using assms(1) by (auto simp: controlled_configmap_def setConfigMap_def addressed_def Let_def split: option.splits)
qed

text \<open>The connection's secret, found or fresh, was given this login, and stored.\<close>

definition stores_login :: "('w, 'n) env_scheme \<Rightarrow> rds_connection \<Rightarrow> string \<Rightarrow> string \<Rightarrow> event list \<Rightarrow> bool" where
  "stores_login E c u p h \<longleftrightarrow>
     (\<exists>found new x. EvFetchSecret (fresh_con_secret c) (Inr found) \<in> set h \<and> EvApplySecret new (Inr x) \<in> set h \<and>
        published_secret E c u p (or_fresh found (fresh_con_secret c)) new)"

lemma stores_login_mono: "stores_login E c u p h \<Longrightarrow> set h \<subseteq> set h' \<Longrightarrow> stores_login E c u p h'"
  unfolding stores_login_def by blast

lemma wp_published:
  assumes "healthy E req c iv k db k' sec" "login db sec u p" "addressed db"
    and "cn_connection s = c" "cn_dbInstance s = db" "cn_secret s = sec"
  shows "wp (syncConnectionStatus E) (\<lambda>f t. f = Continue \<and> stores_login E c u p (history t)) s"
proof -
  note h = assms(1) [unfolded healthy_def]
  have fetch: "\<exists>found. fst (cou_fetchSecret E (fresh_con_secret c) w) = Inr found \<and>
      may_control E (OwnerConnection c) (sec_meta (or_fresh found (fresh_con_secret c)))"
    "\<exists>found. fst (cou_fetchConfigMap E (fresh_con_configmap c) w) = Inr found \<and>
      may_control E (OwnerConnection c) (cm_meta (or_fresh found (fresh_con_configmap c)))" for w
    using h by blast+
  have refs: "wp (record_refs E c us x) (\<lambda>f t. f = Continue \<and> set (history s') \<subseteq> set (history t)) s'" for us x and s' :: "'a con_st"
  proof -
    obtain c2 w where "api_statusUpdateConnection E (c\<lparr>con_credentialsRef := Some (om_name (sec_meta us)),
        con_connectionInfoRef := Some (om_name (cm_meta x))\<rparr>) (world s') = (Inr c2, w)"
      using h by (metis prod.collapse)
    then show ?thesis by (auto simp: record_refs_def wp_simps)
  qed
  have config: "wp (con_createOrUpdateConfigMap E c db) (\<lambda>m t. \<exists>r x. m = Ret (r, x) \<and> set (history s') \<subseteq> set (history t)) s'"
    for s' :: "'a con_st"
  proof -
    obtain found cm where f: "fst (cou_fetchConfigMap E (fresh_con_configmap c) (world s')) = Inr found"
      "controlled_configmap E c db (or_fresh found (fresh_con_configmap c)) = Ret cm"
      using fetch(2) controlled_configmap_made [OF assms(3)] by metis
    have store: "\<exists>x. fst (cou_storeConfigMap E found cm w) = Inr x" for w using h by blast
    show ?thesis
      unfolding con_createOrUpdateConfigMap_def fresh_con_configmap_def [symmetric]
      by (rule wp_CreateOrUpdate_answered [where found = found and new = cm]) (use f store in auto)
  qed
  obtain found new where f: "fst (cou_fetchSecret E (fresh_con_secret c) (world s)) = Inr found"
    "controlled_secret E c sec db (or_fresh found (fresh_con_secret c)) = Ret new"
    "published_secret E c u p (or_fresh found (fresh_con_secret c)) new"
    using fetch(1) controlled_secret_made [OF assms(2)] by metis
  have store: "\<exists>x. fst (cou_storeSecret E found new w) = Inr x" for w using h by blast
  show ?thesis
    unfolding syncConnectionStatus_def wp_bind wp_get Let_def assms(4-6) wp_on_ret [of "con_createOrUpdateSecret E c sec db"]
    unfolding con_createOrUpdateSecret_def fresh_con_secret_def [symmetric]
    by (rule wp_CreateOrUpdate_answered [where found = found and new = new])
      (use f store in \<open>auto simp: wp_on_ret stores_login_def intro!: wp_mono [OF config] wp_mono [OF refs]\<close>, blast)
qed


lemma wp_connects:
  assumes "healthy E req c iv k db k' sec" "login db sec u p" "addressed db"
    and "find (\<lambda>ins. di_instanceID ins = con_instanceID c) (inv_instances iv) = Some ins"
    and "k = \<lparr>k_namespace = k_namespace (con_inventoryRef c), k_name = di_name ins\<rparr>"
    and "st_dbInstanceStatus (db_status db) = Some ''available''"
    and "sp_masterUserPassword (db_spec db) = Some ref" "k' = \<lparr>k_namespace = skr_namespace ref, k_name = skr_name ref\<rparr>"
    and "cn_connection s = c" "cn_inventory s = iv"
  shows "wp (con_work E) (\<lambda>f t. f = Stop \<and> v_status t = ConditionTrue \<and> r_err t = None \<and> \<not> r_requeue t \<and>
    stores_login E c u p (history t)) s"
proof -
  let ?Q = "\<lambda>f t. f = Stop \<and> v_status t = ConditionTrue \<and> r_err t = None \<and> \<not> r_requeue t \<and>
    stores_login E c u p (history t)"
  have db: "\<And>w. fst (api_getDBInstance E k w) = Inr db" and sec: "\<And>w. fst (api_getSecret E k' w) = Inr sec"
    using assms(1) unfolding healthy_def by blast+
  have ep: "st_endpoint (db_status db) \<noteq> None" using assms(3) by (auto simp: addressed_def split: option.splits)
  have publish: "wp (andThen (syncConnectionStatus E) (stop_with con_returnReady)) ?Q t"
    if "cn_connection t = c" "cn_dbInstance t = db" "cn_secret t = sec" for t :: "'a con_st"
    unfolding wp_andThen
    by (rule wp_mono [OF wp_published [OF assms(1-3) that]]) (auto simp: wp_stop_with con_returnReady_def)
  have check: "wp (andThen (checkDBConnectionStatus E) (andThen (syncConnectionStatus E) (stop_with con_returnReady))) ?Q t"
    if "cn_connection t = c" "cn_dbInstance t = db" for t :: "'a con_st"
    unfolding wp_andThen [of "checkDBConnectionStatus E"]
    by (rule wp_found_login [OF that(2) assms(2) ep assms(7) sec [unfolded assms(8)]]) (simp add: publish that)
  show ?thesis
    unfolding con_work_def wp_andThen [of "checkDBInstanceStatus E"]
    by (rule wp_found_instance [where ins = ins and db = db]) (simp_all add: assms db [unfolded assms(5)] check)
qed

lemma wp_connection_ready:
  assumes "healthy E req c iv k db k' sec" "conditions_ok E" "v_status s = ConditionTrue" "stores_login E c u p (history s)"
  shows "wp (updateConnectionReadyCondition E) (\<lambda>_ t. r_err t = r_err s \<and> r_requeue t = r_requeue s \<and>
    (\<exists>h final r. history t = h @ [EvStatusConnection final r] \<and> stores_login E c u p h \<and>
       condition_true E (con_conditions final) connectionConditionReady)) s"
proof -
  let ?c = "(cn_connection s)\<lparr>con_conditions := SetStatusCondition E (con_conditions (cn_connection s))
    (ready_condition connectionConditionReady s)\<rparr>"
  obtain c2 where c2: "fst (api_statusUpdateConnection E ?c (world s)) = Inr c2"
    using assms(1) unfolding healthy_def by blast
  show ?thesis
    unfolding updateConnectionReadyCondition_def wp_bind wp_get wp_update Let_def
    by (rule wp_answer [where r = "Inr c2"]) (use assms(2-4) c2 in \<open>simp_all add: wp_simps condition_true_ready\<close>)
qed


section \<open>The inventory's list\<close>

lemma find_listed:
  assumes "listed_instances L dbs = Some items" "db \<in> set dbs" "sp_dbInstanceIdentifier (db_spec db) = Some i"
    and "\<And>db'. db' \<in> set dbs \<Longrightarrow> sp_dbInstanceIdentifier (db_spec db') = Some i \<Longrightarrow> db' = db"
  shows "find (\<lambda>ins. di_instanceID ins = i) items = Some (listed_instance L db i)"
  using assms
proof (induction dbs arbitrary: items)
  case (Cons d dbs)
  obtain j items' where j: "sp_dbInstanceIdentifier (db_spec d) = Some j" "listed_instances L dbs = Some items'"
    "items = listed_instance L d j # items'"
    using Cons.prems(1) by (auto split: option.splits)
  show ?case
  proof (cases "j = i")
    case True
    then show ?thesis using j Cons.prems(4) [of d] by (simp add: listed_instance_def)
  next
    case False
    then have "db \<in> set dbs" using j Cons.prems(2,3) by auto
    then show ?thesis using Cons.IH [OF j(2) _ assms(3)] Cons.prems(4) j False by (simp add: listed_instance_def)
  qed
qed simp


section \<open>The sample cluster\<close>

lemma sample_healthy:
  "healthy sample req sample_connection sample_inventory k sample_db k' (sample_secret k')"
  by (auto simp: healthy_def may_control_def or_fresh_def fresh_con_secret_def fresh_con_configmap_def empty_secret_def empty_configmap_def
      empty_meta_def set_controller_def stored_def)

lemma sample_addressed: "addressed sample_db" "login sample_db (sample_secret k) ''postgres'' ''Sw0rd~fish''"
  by (simp_all add: addressed_def login_def sample_db_facts sample_secret_password)

text \<open>The sample's connection named like its DB instance.\<close>

definition namesake :: rds_connection where
  "namesake = sample_connection\<lparr>con_meta := (sample_meta ''db1'' [])\<lparr>om_uid := ''binding''\<rparr>\<rparr>"

text \<open>The sample's DB instance already refers to its credentials.\<close>

lemma sample_db_credentials:
  "wp (setCredentials sample sample_db ''apps'' None ''DBInstance'') (\<lambda>r _. \<exists>sec. r = Ret (sec, sample_db)) s"
proof -
  have "sample_db\<lparr>db_spec := (db_spec sample_db)\<lparr>sp_masterUserPassword := Some \<lparr>skr_name = credentials_name (om_name (db_meta sample_db)),
      skr_namespace = ''apps'', skr_key = ''password''\<rparr>\<rparr>\<rparr> = sample_db"
    by (simp add: sample_db_def sample_meta_def credentials_name_def)
  then show ?thesis
    by (simp add: setCredentials_def ensure_password_def wp_simps sample_secret_def Let_def sample_db_facts)
qed

end
