(* ===== verification/Convergence.thy ===== *)
theory Convergence
  imports SampleRuns
begin

text \<open>
  The instance controller over several reconciliations: making the specification a second time
  changes nothing, and in a cluster that stores what it is told an RDSInstance without a DB
  instance is ready after three reconciliations and the work of the ACK controller.
\<close>

section \<open>A second application\<close>

lemma apply_params_idem [simp]: "apply_params p (apply_params p sp) = apply_params p sp"
  by (simp add: apply_params_def or_keep_def keep_list_def split: option.splits)

lemma apply_params_kept:
  assumes "valid_params p" "sp' = (apply_params p sp)\<lparr>sp_masterUsername := u, sp_masterUserPassword := r,
      sp_dbName := n, sp_availabilityZone := z\<rparr>"
  shows "apply_params p sp' = sp'"
  by (simp add: assms(2) apply_params_def or_keep_def keep_list_def split: option.splits)

definition passworded :: "secret \<Rightarrow> bool" where
  "passworded sec \<longleftrightarrow> data_get (sec_data sec) ''password'' \<noteq> None"

text \<open>
  A DB instance with the specification made before, whose owner annotations are there and whose
  credentials have a password, is what the mutate function makes of it, with one read.
\<close>

lemma wp_mutate_again:
  assumes "desired_db inst old new" "db_spec db = db_spec new" "om_name (db_meta db) = om_name (db_meta old)"
    and "SetOwnerAnnotations E (OwnerInstance inst) (db_meta db) = Inr (db_meta db)"
    and "api_getSecret E k (world s) = (Inr sec, w)"
    and "k = \<lparr>k_namespace = om_namespace (ri_meta inst), k_name = credentials_name (om_name (db_meta db))\<rparr>"
    and "passworded sec"
    and "Q (Ret db) (s\<lparr>world := w, history := history s @ [EvGetSecret k (Inr sec)]\<rparr>)"
  shows "wp (dbInstance_mutate E inst db) Q s"
proof -
  let ?p = "ri_otherInstanceParams inst"
  obtain eng u where v: "valid_params ?p" "?p engine_key = Some eng"
    and sp: "db_spec db = (apply_params ?p (db_spec old))\<lparr>sp_masterUsername := Some u,
          sp_masterUserPassword := Some \<lparr>skr_name = credentials_name (om_name (db_meta old)),
            skr_namespace = om_namespace (ri_meta inst), skr_key = ''password''\<rparr>,
          sp_dbName := generateDBName eng, sp_availabilityZone := Some (ri_cloudRegion inst)\<rparr>"
    using assms(1,2) unfolding desired_db_def by auto
  have again: "run_steps param_steps ?p (db_spec db) = Inr (db_spec db)"
    using apply_params_kept [OF v(1) sp] v(1) by (simp add: run_param_steps)
  have fields: "sp_masterUsername (db_spec db) = Some u" "sp_engine (db_spec db) = Some eng"
    "sp_masterUserPassword (db_spec db) = Some \<lparr>skr_name = credentials_name (om_name (db_meta db)),
       skr_namespace = om_namespace (ri_meta inst), skr_key = ''password''\<rparr>"
    "sp_dbName (db_spec db) = generateDBName eng" "sp_availabilityZone (db_spec db) = Some (ri_cloudRegion inst)"
    using v(2) assms(3) by (simp_all add: sp apply_params_def)
  obtain pw where pw: "sec_data sec = Some pw" "pw ''password'' \<noteq> None"
    using assms(7) by (auto simp: passworded_def data_get_def split: option.splits)
  have same: "(db_spec db)\<lparr>sp_masterUserPassword := Some \<lparr>skr_name = credentials_name (om_name (db_meta db)),
       skr_namespace = om_namespace (ri_meta inst), skr_key = ''password''\<rparr>, sp_dbName := generateDBName eng,
     sp_availabilityZone := Some (ri_cloudRegion inst)\<rparr> = db_spec db"
    by (simp add: fields(3-5) [symmetric])
  show ?thesis
    using assms(4-6,8) again fields pw
    by (auto simp: same dbInstance_mutate_def setDBInstanceSpec_def setCredentials_def ensure_password_def wp_simps Let_def)
qed


section \<open>A cluster that stores\<close>

text \<open>
  What the API server holds for one RDSInstance: the object, its DB instance and its credentials.
  \<open>stores E view req iv inst\<close>: the client answers from what is held, writes change exactly the
  object they name, and random numbers change nothing of it. Only the keys of \<open>inst\<close> matter.
\<close>

record cluster_view =
  v_inst :: rds_instance
  v_db :: "db_instance option"
  v_sec :: "secret option"

definition credentials_key :: "rds_instance \<Rightarrow> key" where
  "credentials_key inst = \<lparr>k_namespace = om_namespace (ri_meta inst), k_name = credentials_name (om_name (ri_meta inst))\<rparr>"

definition stores :: "('w, 'n) env_scheme \<Rightarrow> ('w \<Rightarrow> cluster_view) \<Rightarrow> key \<Rightarrow> rds_inventory \<Rightarrow> rds_instance \<Rightarrow> bool" where
  "stores E view req iv inst \<longleftrightarrow> (\<forall>w.
     api_getInstance E req w = (Inr (v_inst (view w)), w) \<and>
     api_getInventory E (ri_inventoryRef inst) w = (Inr iv, w) \<and>
     (\<forall>x. \<exists>w'. api_updateInstance E x w = (Inr x, w') \<and> view w' = (view w)\<lparr>v_inst := x\<rparr>) \<and>
     (\<forall>x. \<exists>w'. api_statusUpdateInstance E x w = (Inr x, w') \<and> view w' = (view w)\<lparr>v_inst := x\<rparr>) \<and>
     api_getDBInstance E (dbInstance_key iv inst) w =
       (case v_db (view w) of None \<Rightarrow> Inl not_found | Some db \<Rightarrow> Inr db, w) \<and>
     cou_fetchDBInstance E (fresh_db iv inst) w = (Inr (v_db (view w)), w) \<and>
     (\<forall>f x. \<exists>w'. cou_storeDBInstance E f x w =
         (Inr (if f = None then OperationResultCreated else if f = Some x then OperationResultNone
               else OperationResultUpdated, x), w') \<and> view w' = (view w)\<lparr>v_db := Some x\<rparr>) \<and>
     api_getSecret E (credentials_key inst) w =
       (case v_sec (view w) of None \<Rightarrow> Inl not_found | Some sec \<Rightarrow> Inr sec, w) \<and>
     (\<forall>x. \<exists>w'. api_createSecret E x w = (Inr x, w') \<and> view w' = (view w)\<lparr>v_sec := Some x\<rparr>) \<and>
     (\<forall>n. fst (crypto_randInt E n w) \<noteq> None \<and> view (snd (crypto_randInt E n w)) = view w \<and>
          view (snd (math_randInt E n w)) = view w))"

lemma storesD:
  assumes "stores E view req iv inst"
  shows "api_getInstance E req w = (Inr (v_inst (view w)), w)"
    and "api_getInventory E (ri_inventoryRef inst) w = (Inr iv, w)"
    and "\<exists>w'. api_updateInstance E x w = (Inr x, w') \<and> view w' = (view w)\<lparr>v_inst := x\<rparr>"
    and "\<exists>w'. api_statusUpdateInstance E x w = (Inr x, w') \<and> view w' = (view w)\<lparr>v_inst := x\<rparr>"
    and "api_getDBInstance E (dbInstance_key iv inst) w =
      (case v_db (view w) of None \<Rightarrow> Inl not_found | Some db \<Rightarrow> Inr db, w)"
    and "cou_fetchDBInstance E (fresh_db iv inst) w = (Inr (v_db (view w)), w)"
    and "\<exists>w'. cou_storeDBInstance E f db w = (Inr (if f = None then OperationResultCreated
        else if f = Some db then OperationResultNone else OperationResultUpdated, db), w') \<and> view w' = (view w)\<lparr>v_db := Some db\<rparr>"
    and "api_getSecret E (credentials_key inst) w = (case v_sec (view w) of None \<Rightarrow> Inl not_found | Some sec \<Rightarrow> Inr sec, w)"
    and "\<exists>w'. api_createSecret E sec w = (Inr sec, w') \<and> view w' = (view w)\<lparr>v_sec := Some sec\<rparr>"
    and "fst (crypto_randInt E n w) \<noteq> None" "view (snd (crypto_randInt E n w)) = view w"
    and "view (snd (math_randInt E n w)) = view w"
  using assms [unfolded stores_def, THEN spec, of w] by blast+

text \<open>The fields of an RDSInstance that its status does not touch; only the finalizers may differ.\<close>

definition kin :: "rds_instance \<Rightarrow> rds_instance \<Rightarrow> bool" where
  "kin a b \<longleftrightarrow> om_name (ri_meta b) = om_name (ri_meta a) \<and> om_namespace (ri_meta b) = om_namespace (ri_meta a) \<and>
     om_deletionTimestamp (ri_meta b) = om_deletionTimestamp (ri_meta a) \<and> ri_inventoryRef b = ri_inventoryRef a \<and>
     ri_cloudRegion b = ri_cloudRegion a \<and> ri_otherInstanceParams b = ri_otherInstanceParams a"

text \<open>The owner helpers accept the instance.\<close>

definition accepts :: "'n lib_scheme \<Rightarrow> rds_instance \<Rightarrow> bool" where
  "accepts L inst \<longleftrightarrow>
     (\<forall>b m. kin inst b \<longrightarrow> (\<exists>m'. SetOwnerAnnotations L (OwnerInstance b) m = Inr m' \<and> om_name m' = om_name m)) \<and>
     (\<forall>b m. kin inst b \<longrightarrow> om_controller m = None \<longrightarrow> (\<exists>m'. SetControllerReference L (OwnerInstance b) m = Inr m'))"

lemma kin_keys:
  assumes "kin a b"
  shows "dbInstance_key iv b = dbInstance_key iv a" "fresh_db iv b = fresh_db iv a" "credentials_key b = credentials_key a"
    "ri_inventoryRef b = ri_inventoryRef a" "ins_live b = ins_live a" "ri_otherInstanceParams b = ri_otherInstanceParams a"
    "desired_db b x y = desired_db a x y"
  using assms by (simp_all add: kin_def dbInstance_key_def fresh_db_def credentials_key_def desired_db_def)

section \<open>Random numbers\<close>

lemma view_pick:
  assumes "stores E view req iv inst" "view (world s) = v"
  shows "wp (pick E cs) (\<lambda>_ t. view (world t) = v) s"
proof -
  show ?thesis using assms(2) by (simp add: pick_def getRandInt_def wp_simps case_prod_unfold storesD(11) [OF assms(1)])
qed

lemma view_fill:
  assumes "stores E view req iv inst" "view (world s) = v"
  shows "wp (fill_buf E is buf) (\<lambda>_ t. view (world t) = v) s"
  using assms(2)
proof (induction "is" arbitrary: buf s)
  case (Cons i "is")
  show ?case unfolding fill_buf.simps wp_bind
    by (rule wp_mono [OF view_pick [OF assms(1) Cons.prems]]) (simp add: wp_case_option wp_return Cons.IH split: option.split)
qed (simp add: wp_simps)

lemma view_shuffle:
  assumes "stores E view req iv inst" "view (world s) = v"
  shows "wp (shuffle_buf E i buf) (\<lambda>_ t. view (world t) = v) s"
  using assms(2)
proof (induction i arbitrary: buf s)
  case (Suc i)
  then show ?case by (simp add: wp_simps case_prod_unfold storesD(12) [OF assms(1)])
qed (simp add: wp_simps)

lemma wp_new_password:
  assumes "stores E view req iv inst" "rand_ok E"
    and "\<And>pw w. view w = view (world s) \<Longrightarrow> Q (Some pw) (s\<lparr>world := w\<rparr>)"
  shows "wp (generatePassword E) Q s"
proof -
  note rand = storesD(10) [OF assms(1)]
  have view: "wp (generatePassword E) (\<lambda>_ t. view (world t) = view (world s)) s"
    unfolding generatePassword_def Let_def wp_bind
    by (rule wp_mono [OF view_pick [OF assms(1) refl]],
        clarsimp simp: wp_case_option wp_return wp_bind simp del: fill_buf.simps split: option.split,
        rule wp_mono [OF view_pick [OF assms(1)]], assumption,
        clarsimp simp: wp_case_option wp_return wp_bind simp del: fill_buf.simps split: option.split,
        rule wp_mono [OF view_fill [OF assms(1)]], assumption,
        clarsimp simp: wp_case_option wp_return view_shuffle [OF assms(1)] split: option.split)
  show ?thesis
    using view wp_generatePassword [of E s] wp_generatePassword_succeeds [OF assms(2) rand, of s] assms(3)
    by (auto simp: wp_fst_snd)
qed


section \<open>The first application\<close>

lemma wp_first_credentials:
  assumes "stores E view req iv inst" "rand_ok E" "view (world s) = v" "v_sec v = None"
    and "\<lparr>k_namespace = ns, k_name = credentials_name (om_name (db_meta db))\<rparr> = credentials_key inst"
    and "\<And>m. om_controller m = None \<Longrightarrow> \<exists>m'. SetControllerReference E ow m = Inr m'" "sp_engine (db_spec db) = Some eng"
    and "\<And>sec db1 w h. passworded sec \<Longrightarrow> view w = v\<lparr>v_sec := Some sec\<rparr> \<Longrightarrow>
      sp_engine (db_spec db1) = Some eng \<Longrightarrow> Q (Ret (sec, db1)) (s\<lparr>world := w, history := h\<rparr>)"
  shows "wp (setCredentials E db ns (Some ow) kind) Q s"
proof -
  let ?nm = "credentials_name (om_name (db_meta db))"
  let ?m = "empty_meta\<lparr>om_name := ?nm, om_namespace := ns, om_labels := createSecretLabels E (Some ow) kind\<rparr>"
  obtain m where m: "SetControllerReference E ow ?m = Inr m" using assms(6) [of ?m] by (auto simp: empty_meta_def)
  have get: "api_getSecret E (credentials_key inst) (world s) = (Inl not_found, world s)"
    by (simp add: storesD(8) [OF assms(1)] assms(3,4))
  have create: "\<exists>w'. api_createSecret E x w = (Inr x, w') \<and> view w' = (view w)\<lparr>v_sec := Some x\<rparr>" for x w
    by (rule storesD(9) [OF assms(1)])
  define K :: "secret outcome \<Rightarrow> (('a, event, 'c) gst_scheme, (secret \<times> db_instance) outcome) state" where "K r1 = (case r1 of
        Err e \<Rightarrow> State_Monad.return (Err e)
      | Panics \<Rightarrow> State_Monad.return Panics
      | Ret sec1 \<Rightarrow> do {
          r2 \<leftarrow> ensure_password E sec1;
          (case r2 of
             Err e \<Rightarrow> State_Monad.return (Err e)
           | Panics \<Rightarrow> State_Monad.return Panics
           | Ret sec2 \<Rightarrow>
               let ref = \<lparr>skr_name = ?nm, skr_namespace = ns, skr_key = ''password''\<rparr>;
                   sp = db_spec db
               in (case (sp_masterUsername sp, sp_engine sp) of
                     (Some _, _) \<Rightarrow>
                       State_Monad.return (Ret (sec2, db\<lparr>db_spec := sp\<lparr>sp_masterUserPassword := Some ref\<rparr>\<rparr>))
                   | (None, None) \<Rightarrow> State_Monad.return Panics
                   | (None, Some eng) \<Rightarrow>
                       State_Monad.return (Ret (sec2,
                         db\<lparr>db_spec := sp\<lparr>sp_masterUsername := Some (generateUsername eng),
                                         sp_masterUserPassword := Some ref\<rparr>\<rparr>)))) })" for r1 :: "secret outcome"
  have known: "wp (K (Ret \<lparr>sec_meta = m, sec_data = Some [''password'' \<mapsto> pw]\<rparr>)) Q (s\<lparr>world := w, history := h\<rparr>)"
    if "view w = v\<lparr>v_sec := Some \<lparr>sec_meta = m, sec_data = Some [''password'' \<mapsto> pw]\<rparr>\<rparr>" for pw w h
    using assms(7,8) that by (auto simp: passworded_def K_def ensure_password_def wp_simps Let_def data_get_def split: option.split)
  have made: "wp (create_credentials E ?nm ns (Some ow) kind) (\<lambda>r. wp (K r) Q)
      (s\<lparr>history := history s @ [EvGetSecret (credentials_key inst) (Inl not_found)]\<rparr>)"
    unfolding create_credentials_def Let_def option.case m sum.case wp_bind
  proof (rule wp_new_password [OF assms(1,2)])
    fix pw w
    let ?sec = "\<lparr>sec_meta = m, sec_data = Some [''password'' \<mapsto> pw]\<rparr>"
    assume "view w = view (world (s\<lparr>history := history s @ [EvGetSecret (credentials_key inst) (Inl not_found)]\<rparr>))"
    then obtain w' where "api_createSecret E ?sec w = (Inr ?sec, w')" "view w' = v\<lparr>v_sec := Some ?sec\<rparr>"
      using create [of ?sec w] assms(3) by auto
    then show "wp (case Some pw of None \<Rightarrow> State_Monad.return Panics
        | Some pw \<Rightarrow> do {
            r \<leftarrow> api_call (api_createSecret E \<lparr>sec_meta = m, sec_data = Some [''password'' \<mapsto> pw]\<rparr>)
              (EvCreateSecret \<lparr>sec_meta = m, sec_data = Some [''password'' \<mapsto> pw]\<rparr>);
            State_Monad.return (case r of Inl e \<Rightarrow> Err e | Inr sec' \<Rightarrow> Ret sec') }) (\<lambda>r. wp (K r) Q)
        (s\<lparr>history := history s @ [EvGetSecret (credentials_key inst) (Inl not_found)], world := w\<rparr>)"
      by (simp add: wp_simps known)
  qed
  have "setCredentials E db ns (Some ow) kind = do {
     r \<leftarrow> api_call (api_getSecret E (credentials_key inst)) (EvGetSecret (credentials_key inst));
     r1 \<leftarrow> (case r of
        Inr sec \<Rightarrow> State_Monad.return (Ret sec)
      | Inl e \<Rightarrow> if IsNotFound e then create_credentials E ?nm ns (Some ow) kind
                 else State_Monad.return (Err e));
     K r1 }"
    unfolding setCredentials_def Let_def assms(5) K_def ..
  then show ?thesis
    using made by (simp add: wp_bind wp_api_call get not_found_def)
qed

lemma wp_first_mutate:
  assumes "stores E view req iv inst" "rand_ok E" "accepts E inst" "kin inst b" "valid_params (ri_otherInstanceParams inst)"
    and "view (world s) = v" "v_sec v = None"
    and "\<And>new m sec w h. SetOwnerAnnotations E (OwnerInstance b) (db_meta (fresh_db iv inst)) = Inr m \<Longrightarrow>
      om_name m = om_name (ri_meta inst) \<Longrightarrow> desired_db inst ((fresh_db iv inst)\<lparr>db_meta := m\<rparr>) new \<Longrightarrow>
      passworded sec \<Longrightarrow> view w = v\<lparr>v_sec := Some sec\<rparr> \<Longrightarrow>
      Q (Ret new) (s\<lparr>world := w, history := h\<rparr>)"
  shows "wp (dbInstance_mutate E b (fresh_db iv inst)) Q s"
proof -
  obtain m where m: "SetOwnerAnnotations E (OwnerInstance b) (db_meta (fresh_db iv inst)) = Inr m" "om_name m = om_name (ri_meta inst)"
    using assms(3,4) unfolding accepts_def fresh_db_def by fastforce
  let ?old = "(fresh_db iv inst)\<lparr>db_meta := m\<rparr>"
  let ?p = "ri_otherInstanceParams inst"
  obtain eng where eng: "?p engine_key = Some eng" using assms(5) by (auto simp: valid_params_def)
  have steps: "run_steps param_steps ?p sp = Inr (apply_params ?p sp)" for sp using assms(5) by (simp add: run_param_steps)
  have made: "wp (setDBInstanceSpec E ?old b) (\<lambda>r t. (\<exists>new. r = Ret new) \<and> (\<exists>sec w h. t = s\<lparr>world := w, history := h\<rparr> \<and>
      passworded sec \<and> view w = v\<lparr>v_sec := Some sec\<rparr>)) s"
    unfolding setDBInstanceSpec_def kin_keys(6) [OF assms(4)] steps sum.case wp_bind
  proof (rule wp_first_credentials [OF assms(1,2,6,7)])
    show "\<lparr>k_namespace = om_namespace (ri_meta b), k_name = credentials_name (om_name (db_meta
        (?old\<lparr>db_spec := apply_params ?p (db_spec ?old)\<rparr>)))\<rparr> = credentials_key inst"
      using m(2) kin_keys(3) [OF assms(4)] assms(4) by (simp add: credentials_key_def kin_def)
    show "\<exists>m'. SetControllerReference E (OwnerInstance b) m = Inr m'" if "om_controller m = None" for m
      using assms(3,4) that unfolding accepts_def by blast
    show "sp_engine (db_spec (?old\<lparr>db_spec := apply_params ?p (db_spec ?old)\<rparr>)) = Some eng"
      by (simp add: apply_params_def eng)
  qed (auto simp: wp_return)
  have desired: "wp (setDBInstanceSpec E ?old b) (\<lambda>r _. case r of Ret new \<Rightarrow> desired_db b ?old new | _ \<Rightarrow> True) s"
    by (rule wp_mono [OF does_setDBInstanceSpec [where E = E and db = ?old and ri = b, unfolded does_def, THEN spec, of s]])
      (auto split: outcome.splits)
  show ?thesis
    unfolding dbInstance_mutate_def m(1) sum.case wp_bind
  proof (rule wp_mono [OF wp_conj [THEN iffD2, OF conjI [OF made desired]]])
    fix r and t
    assume "((\<exists>new. r = Ret new) \<and> (\<exists>sec w h. t = s\<lparr>world := w, history := h\<rparr> \<and>
        passworded sec \<and> view w = v\<lparr>v_sec := Some sec\<rparr>)) \<and>
      (case r of Ret new \<Rightarrow> desired_db b ?old new | _ \<Rightarrow> True)"
    then obtain new sec w h where r: "r = Ret new" "t = s\<lparr>world := w, history := h\<rparr>" "desired_db inst ?old new"
      "passworded sec" "view w = v\<lparr>v_sec := Some sec\<rparr>"
      by (auto simp: kin_keys(7) [OF assms(4)])
    then show "wp (case r of
           Err e \<Rightarrow> do {
             State_Monad.update (ins_returnError e instanceStatusReasonInputError (Error_text e));
             State_Monad.return (Err e) }
         | Panics \<Rightarrow> State_Monad.return Panics
         | Ret db1 \<Rightarrow> State_Monad.return (Ret db1)) Q t"
      by (simp add: wp_return assms(8) [OF m r(3-5)])
  qed
qed


section \<open>Three reconciliations\<close>

lemma wp_CreateOrUpdate_stores:
  assumes "fetch obj (world s) = (Inr found, w)"
    and "wp (mutate (case found of None \<Rightarrow> obj | Some old \<Rightarrow> old)) (\<lambda>m t. \<exists>new r w'. m = Ret new \<and>
      store found new (world t) = (Inr r, w') \<and> Q (Ret r) (t\<lparr>world := w', history := history t @ [evs new (Inr r)]\<rparr>))
      (s\<lparr>world := w, history := history s @ [evf obj (Inr found)]\<rparr>)"
  shows "wp (CreateOrUpdate fetch evf store evs obj mutate) Q s"
  unfolding CreateOrUpdate_def wp_bind wp_api_call assms(1) prod.case sum.case
  by (rule wp_mono [OF assms(2)]) (auto simp: wp_simps)

text \<open>Every reconciliation starts with the two reads and ends with the status update.\<close>

lemma wp_reconcile:
  assumes "stores E view req iv inst" "inventory_ready E iv" "kin inst (v_inst (view w))"
    and "wp (ins_work E) (\<lambda>f t. f \<noteq> Diverge \<and> wp (updateInstanceReadyCondition E) (\<lambda>_. Q f) t)
      ((init_ins w)\<lparr>history := [EvGetInstance req (Inr (v_inst (view w))), EvGetInventory (ri_inventoryRef inst) (Inr iv)],
         i_instance := v_inst (view w), i_inventory := iv\<rparr>)"
  shows "wp (Reconcile_instance E req) Q (init_ins w)"
proof -
  note get = storesD(1,2) [OF assms(1)]
  show ?thesis
    unfolding Reconcile_instance_def ins_body_def
    using assms(2,4) kin_keys(4) [OF assms(3)]
    by (simp add: wp_simps get init_ins_def Let_def) (erule wp_mono, simp)
qed

lemma wp_stored_status:
  assumes "stores E view req iv inst"
    and "\<And>w h x. kin (i_instance s) x \<Longrightarrow> om_finalizers (ri_meta x) = om_finalizers (ri_meta (i_instance s)) \<Longrightarrow>
      ri_meta x = ri_meta (i_instance s) \<Longrightarrow>
      ri_phase x = (if length (i_phase s) > 0 then i_phase s else ri_phase (i_instance s)) \<Longrightarrow>
      ri_conditions x = SetStatusCondition E (ri_conditions (i_instance s)) (ready_condition instanceConditionReady s) \<Longrightarrow>
      view w = (view (world s))\<lparr>v_inst := x\<rparr> \<Longrightarrow>
      Q (s\<lparr>world := w, history := h, i_instance := x\<rparr>)"
  shows "wp (updateInstanceReadyCondition E) (\<lambda>_. Q) s"
proof -
  let ?x1 = "(i_instance s)\<lparr>ri_conditions := SetStatusCondition E (ri_conditions (i_instance s)) (ready_condition instanceConditionReady s)\<rparr>"
  let ?x = "if length (i_phase s) > 0 then ?x1\<lparr>ri_phase := i_phase s\<rparr> else ?x1"
  obtain w' where w': "api_statusUpdateInstance E ?x (world s) = (Inr ?x, w')" "view w' = (view (world s))\<lparr>v_inst := ?x\<rparr>"
    using storesD(4) [OF assms(1)] by blast
  have "Q (s\<lparr>world := w', history := h, i_instance := ?x\<rparr>)" for h
    by (rule assms(2)) (simp_all add: kin_def w'(2))
  then show ?thesis
    using w'(1) by (cases "i_phase s") (simp_all add: updateInstanceReadyCondition_def wp_simps Let_def)
qed

text \<open>The first one adds the finalizer.\<close>

lemma first_run:
  assumes "stores E view req iv inst" "inventory_ready E iv" "finalizers_ok E" "ins_live inst" "\<not> ins_guarded E inst"
    and "view w = \<lparr>v_inst = inst, v_db = None, v_sec = None\<rparr>"
    and "\<And>x t. kin inst x \<Longrightarrow> ins_guarded E x \<Longrightarrow> view (world t) = \<lparr>v_inst = x, v_db = None, v_sec = None\<rparr> \<Longrightarrow> Q Stop t"
  shows "wp (Reconcile_instance E req) Q (init_ins w)"
proof (rule wp_reconcile [OF assms(1,2)])
  let ?x = "inst\<lparr>ri_meta := AddFinalizer E (ri_meta inst) instanceFinalizer\<rparr>"
  obtain fs where fs: "AddFinalizer E (ri_meta inst) instanceFinalizer = (ri_meta inst)\<lparr>om_finalizers := fs\<rparr>"
    "ContainsFinalizer E (AddFinalizer E (ri_meta inst) instanceFinalizer) instanceFinalizer"
    using assms(3) unfolding finalizers_ok_def by blast
  obtain w1 where w1: "api_updateInstance E ?x w = (Inr ?x, w1)" "view w1 = (view w)\<lparr>v_inst := ?x\<rparr>"
    using storesD(3) [OF assms(1)] by blast
  have x: "kin inst ?x" "ins_guarded E ?x" using fs by (simp_all add: kin_def)
  show "kin inst (v_inst (view w))" by (simp add: assms(6) kin_def)
  have finish: "wp (updateInstanceReadyCondition E) (\<lambda>_. Q Stop) t" if "i_instance t = ?x" "world t = w1" for t
  proof (rule wp_stored_status [OF assms(1)])
    fix w2 h y assume "kin (i_instance t) y" "ri_meta y = ri_meta (i_instance t)" "view w2 = (view (world t))\<lparr>v_inst := y\<rparr>"
    then show "Q Stop (t\<lparr>world := w2, history := h, i_instance := y\<rparr>)"
      using that x w1(2) assms(6) by (intro assms(7) [of y]) (auto simp: kin_def)
  qed
  show "wp (ins_work E) (\<lambda>f t. f \<noteq> Diverge \<and> wp (updateInstanceReadyCondition E) (\<lambda>_. Q f) t)
      ((init_ins w)\<lparr>history := [EvGetInstance req (Inr (v_inst (view w))), EvGetInventory (ri_inventoryRef inst) (Inr iv)],
         i_instance := v_inst (view w), i_inventory := iv\<rparr>)"
    unfolding ins_work_def ins_checkFinalizer_def ins_addFinalizer_def
    using assms(4-6) w1(1) by (simp add: wp_simps init_ins_def finish ins_returnNotReady_def report_def Let_def)
qed


text \<open>With the finalizer there, a reconciliation makes the DB instance, copies its status and reports.\<close>

definition loaded :: "key \<Rightarrow> rds_inventory \<Rightarrow> rds_instance \<Rightarrow> 'w \<Rightarrow> 'w ins_st" where
  "loaded req iv x w = (init_ins w)\<lparr>history := [EvGetInstance req (Inr x), EvGetInventory (ri_inventoryRef x) (Inr iv)],
     i_instance := x, i_inventory := iv\<rparr>"

lemma loaded_simps [simp]:
  "i_instance (loaded req iv x w) = x" "i_inventory (loaded req iv x w) = iv" "world (loaded req iv x w) = w"
  "i_phase (loaded req iv x w) = []"
  by (simp_all add: loaded_def init_ins_def)

definition reported :: "('w, 'n) env_scheme \<Rightarrow> (flow \<Rightarrow> 'w ins_st \<Rightarrow> bool) \<Rightarrow> flow \<Rightarrow> 'w ins_st \<Rightarrow> bool" where
  "reported E Q f t \<longleftrightarrow> f \<noteq> Diverge \<and> wp (updateInstanceReadyCondition E) (\<lambda>_. Q f) t"

lemma wp_guarded_run:
  assumes "stores E view req iv inst" "inventory_ready E iv" "ins_live inst" "kin inst x" "ins_guarded E x" "v_inst (view w) = x"
    and "wp (createOrUpdateDBInstance E) (\<lambda>f t. if f = Continue
      then wp (andThen (syncDBInstanceStatus E) (stop_with report_phase)) (reported E Q) t else reported E Q f t) (loaded req iv x w)"
  shows "wp (Reconcile_instance E req) Q (init_ins w)"
proof (rule wp_reconcile [OF assms(1,2)])
  show "kin inst (v_inst (view w))" by (simp add: assms(4,6))
  have "ins_live x" using kin_keys(5) [OF assms(4)] assms(3) by simp
  moreover have "wp (andThen (createOrUpdateDBInstance E) (andThen (syncDBInstanceStatus E) (stop_with report_phase)))
      (reported E Q) (loaded req iv x w)"
    using assms(7) by (simp only: wp_andThen [of "createOrUpdateDBInstance E"])
  ultimately have "wp (ins_work E) (reported E Q) (loaded req iv x w)"
    using assms(5) unfolding ins_work_def by (simp add: ins_guard.wp_guard)
  then show "wp (ins_work E) (\<lambda>f t. f \<noteq> Diverge \<and> wp (updateInstanceReadyCondition E) (\<lambda>_. Q f) t)
      ((init_ins w)\<lparr>history := [EvGetInstance req (Inr (v_inst (view w))), EvGetInventory (ri_inventoryRef inst) (Inr iv)],
         i_instance := v_inst (view w), i_inventory := iv\<rparr>)"
    using kin_keys(4) [OF assms(4)] by (simp add: reported_def [abs_def] loaded_def assms(6))
qed

text \<open>The second one makes the DB instance and its credentials.\<close>

lemma second_run:
  assumes "stores E view req iv inst" "inventory_ready E iv" "rand_ok E" "accepts E inst"
    and "valid_params (ri_otherInstanceParams inst)" "ins_live inst"
    and "kin inst x" "ins_guarded E x" "view w = \<lparr>v_inst = x, v_db = None, v_sec = None\<rparr>"
    and "\<And>y m new sec t. kin inst y \<Longrightarrow> ins_guarded E y \<Longrightarrow> om_name m = om_name (ri_meta inst) \<Longrightarrow>
      desired_db inst ((fresh_db iv inst)\<lparr>db_meta := m\<rparr>) new \<Longrightarrow> passworded sec \<Longrightarrow>
      view (world t) = \<lparr>v_inst = y, v_db = Some new, v_sec = Some sec\<rparr> \<Longrightarrow> Q Stop t"
  shows "wp (Reconcile_instance E req) Q (init_ins w)"
proof (rule wp_guarded_run [OF assms(1,2,6-8)])
  let ?s = "loaded req iv x w"
  show "v_inst (view w) = x" by (simp add: assms(9))
  have fetch: "cou_fetchDBInstance E (fresh_db iv x) w = (Inr None, w)"
    by (simp add: storesD(6) [OF assms(1)] kin_keys(2) [OF assms(7)] assms(9))
  have finish: "reported E Q Stop t"
    if "i_instance t = x" "view (world t) = \<lparr>v_inst = x, v_db = Some new, v_sec = Some sec\<rparr>"
      "om_name m = om_name (ri_meta inst)" "desired_db inst ((fresh_db iv inst)\<lparr>db_meta := m\<rparr>) new"
      "passworded sec" for t m new sec
    unfolding reported_def
    by (rule conjI, simp, rule wp_stored_status [OF assms(1)], rule assms(10) [of _ m new sec])
      (use that assms(7,8) in \<open>auto simp: kin_def\<close>)
  show "wp (createOrUpdateDBInstance E) (\<lambda>f t. if f = Continue
      then wp (andThen (syncDBInstanceStatus E) (stop_with report_phase)) (reported E Q) t else reported E Q f t) ?s"
    (is "wp _ ?K _")
    unfolding createOrUpdateDBInstance_def wp_bind wp_get Let_def
  proof (rule wp_CreateOrUpdate_stores)
    show "cou_fetchDBInstance E (fresh_db (i_inventory ?s) (i_instance ?s)) (world ?s) = (Inr None, w)"
      by (simp add: fetch)
    let ?t = "?s\<lparr>world := w, history := history ?s @ [EvFetchDBInstance (fresh_db (i_inventory ?s) (i_instance ?s)) (Inr None)]\<rparr>"
    let ?R = "\<lambda>m t. \<exists>new r w'. m = Ret new \<and> cou_storeDBInstance E None new (world t) = (Inr r, w') \<and>
         wp (instance_applied (Ret r)) ?K (t\<lparr>world := w', history := history t @ [EvApplyDBInstance new (Inr r)]\<rparr>)"
    have "wp (dbInstance_mutate E x (fresh_db iv inst)) ?R ?t"
    proof (rule wp_first_mutate [OF assms(1,3,4,7,5)])
      show "view (world ?t) = \<lparr>v_inst = x, v_db = None, v_sec = None\<rparr>" using assms(9) by simp
      fix new m sec w1 h
      assume n: "om_name m = om_name (ri_meta inst)" "desired_db inst ((fresh_db iv inst)\<lparr>db_meta := m\<rparr>) new"
        "passworded sec" "view w1 = \<lparr>v_inst = x, v_db = None, v_sec = None\<rparr>\<lparr>v_sec := Some sec\<rparr>"
      obtain w2 where w2: "cou_storeDBInstance E None new w1 = (Inr (OperationResultCreated, new), w2)"
        "view w2 = (view w1)\<lparr>v_db := Some new\<rparr>" using storesD(7) [OF assms(1), of None new w1] by auto
      then show "?R (Ret new) (?t\<lparr>world := w1, history := h\<rparr>)"
        using finish [OF _ _ n(1-3)] n(4) assms(9) by (simp add: instance_applied_def wp_simps ins_returnRequeue_def report_def)
    qed simp
    then show "wp (dbInstance_mutate E (i_instance ?s) (case None of None \<Rightarrow> fresh_db (i_inventory ?s) (i_instance ?s) | Some old \<Rightarrow> old))
      ?R ?t" by (simp add: kin_keys(2) [OF assms(7)])
  qed
qed

text \<open>Copying the status of an available DB instance makes the instance ready.\<close>

lemma wp_sync_available:
  assumes "stores E view req iv inst" "conditions_ok E" "kin inst x"
    and "desired_db inst old new" "db_spec db = db_spec new" "st_dbInstanceStatus (db_status db) = Some ''available''"
    and "i_instance t = x" "i_inventory t = iv" "i_phase t = []"
    and "view (world t) = \<lparr>v_inst = x, v_db = Some db, v_sec = Some sec\<rparr>"
  shows "wp (andThen (syncDBInstanceStatus E) (stop_with report_phase)) (reported E (\<lambda>f t. f = Stop \<and> r_err t = None \<and>
    \<not> r_requeue t \<and> (\<exists>y. view (world t) = \<lparr>v_inst = y, v_db = Some db, v_sec = Some sec\<rparr> \<and>
       ri_phase y = instancePhaseReady \<and> condition_true E (ri_conditions y) instanceConditionReady))) t"
    (is "wp _ (reported E ?P) _")
proof -
  obtain i where i: "sp_dbInstanceIdentifier (db_spec db) = Some i"
    using assms(4,5) by (auto simp: desired_db_def valid_params_def apply_params_def)
  let ?y = "copy_status E db i x"
  have ph: "ri_phase ?y = instancePhaseReady"
    using assms(6) by (simp add: copy_status_phase setDBInstancePhase_ready)
  have finish: "reported E ?P Stop (report_phase t)"
    if "i_instance t = ?y" "i_phase t = []" "view (world t) = \<lparr>v_inst = ?y, v_db = Some db, v_sec = Some sec\<rparr>" for t
  proof -
    have rp: "report_phase t = ins_returnReady t" using that ph by (simp add: report_phase_def)
    have "wp (updateInstanceReadyCondition E) (\<lambda>_. ?P Stop) (ins_returnReady t)"
      by (rule wp_stored_status [OF assms(1)])
        (use that ph assms(2) in \<open>auto simp: ins_returnReady_def report_def condition_true_ready\<close>)
    then show ?thesis by (simp add: rp reported_def)
  qed
  have get: "api_getDBInstance E (dbInstance_key iv x) (world t) = (Inr db, world t)"
    using storesD(5) [OF assms(1)] kin_keys(1) [OF assms(3)] assms(10) by simp
  obtain w1 where "api_statusUpdateInstance E ?y (world t) = (Inr ?y, w1)" "view w1 = (view (world t))\<lparr>v_inst := ?y\<rparr>"
    using storesD(4) [OF assms(1)] by blast
  then show ?thesis
    using finish assms(7-10) by (simp add: syncDBInstanceStatus_def wp_simps get i Let_def)
qed

text \<open>The third one, after the ACK controller has made it available, finds nothing to change.\<close>

lemma third_run:
  assumes "stores E view req iv inst" "inventory_ready E iv" "conditions_ok E" "ins_live inst"
    and "kin inst x" "ins_guarded E x" "view w = \<lparr>v_inst = x, v_db = Some db, v_sec = Some sec\<rparr>" "passworded sec"
    and "desired_db inst old new" "om_name (db_meta old) = om_name (ri_meta inst)"
    and "db_spec db = db_spec new" "om_name (db_meta db) = om_name (ri_meta inst)"
    and "SetOwnerAnnotations E (OwnerInstance x) (db_meta db) = Inr (db_meta db)"
    and "st_dbInstanceStatus (db_status db) = Some ''available''"
  shows "wp (Reconcile_instance E req) (\<lambda>f t. f = Stop \<and> r_err t = None \<and> \<not> r_requeue t \<and>
    (\<exists>y. view (world t) = \<lparr>v_inst = y, v_db = Some db, v_sec = Some sec\<rparr> \<and> ri_phase y = instancePhaseReady \<and>
       condition_true E (ri_conditions y) instanceConditionReady)) (init_ins w)"
    (is "wp _ ?P _")
proof (rule wp_guarded_run [OF assms(1,2,4-6)])
  let ?s = "loaded req iv x w"
  show "v_inst (view w) = x" by (simp add: assms(7))
  have sync: "wp (andThen (syncDBInstanceStatus E) (stop_with report_phase)) (reported E ?P) t"
    if "i_instance t = x" "i_inventory t = iv" "i_phase t = []" "view (world t) = view w" for t
    using wp_sync_available [OF assms(1,3,5)] that assms(7,9,11,14) by simp
  show "wp (createOrUpdateDBInstance E) (\<lambda>f t. if f = Continue
      then wp (andThen (syncDBInstanceStatus E) (stop_with report_phase)) (reported E ?P) t else reported E ?P f t) ?s"
    (is "wp _ ?K _")
    unfolding createOrUpdateDBInstance_def wp_bind wp_get Let_def
  proof (rule wp_CreateOrUpdate_stores)
    show "cou_fetchDBInstance E (fresh_db (i_inventory ?s) (i_instance ?s)) (world ?s) = (Inr (Some db), w)"
      by (simp add: storesD(6) [OF assms(1)] kin_keys(2) [OF assms(5)] assms(7))
    let ?t = "?s\<lparr>world := w, history := history ?s @ [EvFetchDBInstance (fresh_db (i_inventory ?s) (i_instance ?s)) (Inr (Some db))]\<rparr>"
    let ?R = "\<lambda>m t. \<exists>new r w'. m = Ret new \<and> cou_storeDBInstance E (Some db) new (world t) = (Inr r, w') \<and>
         wp (instance_applied (Ret r)) ?K (t\<lparr>world := w', history := history t @ [EvApplyDBInstance new (Inr r)]\<rparr>)"
    have "desired_db x old new" using assms(9) kin_keys(7) [OF assms(5)] by simp
    then have "wp (dbInstance_mutate E x db) ?R ?t"
    proof (rule wp_mutate_again [OF _ assms(11) _ assms(13)])
      show "om_name (db_meta db) = om_name (db_meta old)" by (simp add: assms(10,12))
      show "api_getSecret E (credentials_key inst) (world ?t) = (Inr sec, w)"
        by (simp add: storesD(8) [OF assms(1)] assms(7))
      show "credentials_key inst = \<lparr>k_namespace = om_namespace (ri_meta x), k_name = credentials_name (om_name (db_meta db))\<rparr>"
        using assms(5,12) by (simp add: credentials_key_def kin_def)
      obtain w' where "cou_storeDBInstance E (Some db) db w = (Inr (OperationResultNone, db), w')" "view w' = view w"
        using storesD(7) [OF assms(1), of "Some db" db w] assms(7) by auto
      then show "?R (Ret db) (?t\<lparr>world := w, history := history ?t @ [EvGetSecret (credentials_key inst) (Inr sec)]\<rparr>)"
        using sync by (simp add: instance_applied_def wp_simps)
    qed (rule assms(8))
    then show "wp (dbInstance_mutate E (i_instance ?s) (case Some db of None \<Rightarrow> fresh_db (i_inventory ?s) (i_instance ?s) | Some old \<Rightarrow> old))
      ?R ?t" by simp
  qed
qed

text \<open>What the ACK controller does in between: it describes the DB instance, and AWS has made it available.\<close>

definition ack_provisions :: "'n lib_scheme \<Rightarrow> cluster_view \<Rightarrow> cluster_view \<Rightarrow> bool" where
  "ack_provisions L v v' \<longleftrightarrow> v_inst v' = v_inst v \<and> v_sec v' = v_sec v \<and>
     (\<exists>db db'. v_db v = Some db \<and> v_db v' = Some db' \<and> db_spec db' = db_spec db \<and>
        om_name (db_meta db') = om_name (db_meta db) \<and>
        SetOwnerAnnotations L (OwnerInstance (v_inst v)) (db_meta db') = Inr (db_meta db') \<and>
        st_dbInstanceStatus (db_status db') = Some ''available'')"

section \<open>A cluster in memory\<close>

definition stateful :: "cluster_view env" where
  "stateful = idle\<lparr>
     api_getInstance := (\<lambda>k w. (Inr (v_inst w), w)),
     api_updateInstance := (\<lambda>x w. (Inr x, w\<lparr>v_inst := x\<rparr>)),
     api_statusUpdateInstance := (\<lambda>x w. (Inr x, w\<lparr>v_inst := x\<rparr>)),
     api_getDBInstance := (\<lambda>k w. (case v_db w of None \<Rightarrow> Inl not_found | Some db \<Rightarrow> Inr db, w)),
     cou_fetchDBInstance := (\<lambda>x w. (Inr (v_db w), w)),
     cou_storeDBInstance := (\<lambda>f x w. (Inr (if f = None then OperationResultCreated
        else if f = Some x then OperationResultNone else OperationResultUpdated, x), w\<lparr>v_db := Some x\<rparr>)),
     api_getSecret := (\<lambda>k w. (case v_sec w of None \<Rightarrow> Inl not_found | Some sec \<Rightarrow> Inr sec, w)),
     api_createSecret := (\<lambda>x w. (Inr x, w\<lparr>v_sec := Some x\<rparr>)),
     cou_fetchSecret := (\<lambda>x w. (Inr (v_sec w), w))\<rparr>"

text \<open>A fresh RDSInstance: the sample without its finalizer.\<close>

definition novice :: rds_instance where
  "novice = sample_instance\<lparr>ri_meta := sample_meta ''db1'' []\<rparr>"

lemma stateful_stores: "stores stateful (\<lambda>w. w) req sample_inventory inst"
  by (simp add: stores_def stateful_def idle_def)

lemma stateful_ok:
  "conditions_ok stateful" "finalizers_ok stateful" "rand_ok stateful" "accepts stateful inst"
  "inventory_ready stateful sample_inventory"
proof -
  have "conditions_ok stateful \<longleftrightarrow> conditions_ok sample" "finalizers_ok stateful \<longleftrightarrow> finalizers_ok sample"
    "inventory_ready stateful iv \<longleftrightarrow> inventory_ready sample iv" for iv
    by (simp_all add: conditions_ok_def finalizers_ok_def inventory_ready_def condition_true_def stateful_def sample_def idle_def)
  then show "conditions_ok stateful" "finalizers_ok stateful" "inventory_ready stateful sample_inventory"
    using sample_conditions_ok sample_finalizers_ok sample_ready by simp_all
  show "rand_ok stateful" by (simp add: rand_ok_def stateful_def idle_def)
  show "accepts stateful inst" by (simp add: accepts_def stateful_def idle_def set_owner_def set_controller_def)
qed

lemma stateful_creates:
  assumes "v_sec (world s) = None"
  shows "wp (setCredentials stateful db ns (Some ow) kind) (\<lambda>_ t. \<exists>sec r. EvCreateSecret sec r \<in> set (history t) \<and>
    v_sec (world t) = Some sec) s"
proof -
  have env: "api_getSecret stateful = (\<lambda>k w. (case v_sec w of None \<Rightarrow> Inl not_found | Some sec \<Rightarrow> Inr sec, w))"
    "api_createSecret stateful = (\<lambda>x w. (Inr x, w\<lparr>v_sec := Some x\<rparr>))" "SetControllerReference stateful = set_controller"
    by (simp_all add: stateful_def idle_def)
  show ?thesis
    unfolding setCredentials_def create_credentials_def Let_def env
    using assms
    by (auto simp: wp_simps set_controller_def empty_meta_def ensure_password_def not_found_def
        intro!: wp_new_password [OF stateful_stores stateful_ok(3)] split: option.splits)
qed

lemma novice_facts:
  "valid_params (ri_otherInstanceParams novice)" "ins_live novice" "\<not> ins_guarded stateful novice"
  using sample_valid
  by (simp_all add: novice_def sample_meta_def time_IsZero_def empty_meta_def stateful_def idle_def)

end
