(* ===== verification/Departure.thy ===== *)
theory Departure
  imports Convergence
begin

text \<open>
  The instance controller over the deletion of an RDSInstance whose inventory stays ready: however
  reconciliations interleave with the end of its DB instance, the RDSInstance stays until the DB
  instance is gone; then it goes with the next reconciliation, which reports an error for it.
\<close>

section \<open>A cluster that deletes\<close>

text \<open>
  What the API server holds of an RDSInstance that is being deleted. An update that leaves such an
  object without finalizers removes it; the status of a missing object cannot be updated.
  Only the keys of \<open>inst\<close> matter.
\<close>

record leaving_view =
  l_inst :: "rds_instance option"
  l_db :: "db_instance option"

definition deletes ::
  "('w, 'n) env_scheme \<Rightarrow> ('w \<Rightarrow> leaving_view) \<Rightarrow> error \<Rightarrow> key \<Rightarrow> rds_inventory \<Rightarrow> rds_instance \<Rightarrow> bool" where
  "deletes E view gone req iv inst \<longleftrightarrow> IsNotFound gone \<and> (\<forall>w.
     api_getInstance E req w = (case l_inst (view w) of None \<Rightarrow> Inl gone | Some i \<Rightarrow> Inr i, w) \<and>
     api_getInventory E (ri_inventoryRef inst) w = (Inr iv, w) \<and>
     (\<forall>x. \<exists>w'. api_updateInstance E x w = (Inr x, w') \<and>
        view w' = (view w)\<lparr>l_inst := if om_finalizers (ri_meta x) = [] then None else Some x\<rparr>) \<and>
     (\<forall>x. l_inst (view w) \<noteq> None \<longrightarrow>
        (\<exists>w'. api_statusUpdateInstance E x w = (Inr x, w') \<and> view w' = (view w)\<lparr>l_inst := Some x\<rparr>)) \<and>
     (\<forall>x. l_inst (view w) = None \<longrightarrow> (\<exists>w'. api_statusUpdateInstance E x w = (Inl gone, w') \<and> view w' = view w)) \<and>
     api_getDBInstance E (dbInstance_key iv inst) w =
       (case l_db (view w) of None \<Rightarrow> Inl not_found | Some db \<Rightarrow> Inr db, w) \<and>
     (\<forall>db. \<exists>w'. api_deleteDBInstance E db w = (None, w') \<and> l_inst (view w') = l_inst (view w)))"

lemma deletesD:
  assumes "deletes E view gone req iv inst"
  shows "IsNotFound gone" "api_getInstance E req w = (case l_inst (view w) of None \<Rightarrow> Inl gone | Some i \<Rightarrow> Inr i, w)"
    and "api_getInventory E (ri_inventoryRef inst) w = (Inr iv, w)"
    and "\<exists>w'. api_updateInstance E x w = (Inr x, w') \<and>
      view w' = (view w)\<lparr>l_inst := if om_finalizers (ri_meta x) = [] then None else Some x\<rparr>"
    and "l_inst (view w) \<noteq> None \<Longrightarrow>
      \<exists>w'. api_statusUpdateInstance E x w = (Inr x, w') \<and> view w' = (view w)\<lparr>l_inst := Some x\<rparr>"
    and "l_inst (view w) = None \<Longrightarrow> \<exists>w'. api_statusUpdateInstance E x w = (Inl gone, w') \<and> view w' = view w"
    and "api_getDBInstance E (dbInstance_key iv inst) w =
      (case l_db (view w) of None \<Rightarrow> Inl not_found | Some db \<Rightarrow> Inr db, w)"
    and "\<exists>w'. api_deleteDBInstance E db w = (None, w') \<and> l_inst (view w') = l_inst (view w)"
  using assms [unfolded deletes_def, THEN conjunct2, THEN spec, of w] assms unfolding deletes_def by blast+

text \<open>The finalizers as the list they are.\<close>

definition finalizer_list :: "'n lib_scheme \<Rightarrow> bool" where
  "finalizer_list L \<longleftrightarrow>
     (\<forall>m f. ContainsFinalizer L m f \<longleftrightarrow> f \<in> set (om_finalizers m)) \<and>
     (\<forall>m f. RemoveFinalizer L m f = m\<lparr>om_finalizers := removeAll f (om_finalizers m)\<rparr>)"

text \<open>A stored version of \<open>inst\<close> that is being deleted and only held by this controller's finalizer.\<close>

definition leaving :: "rds_instance \<Rightarrow> rds_instance \<Rightarrow> bool" where
  "leaving inst i \<longleftrightarrow> \<not> time_IsZero (om_deletionTimestamp (ri_meta i)) \<and>
     om_finalizers (ri_meta i) = [instanceFinalizer] \<and>
     object_key (ri_meta i) = object_key (ri_meta inst) \<and> ri_inventoryRef i = ri_inventoryRef inst"

lemma leaving_key: "leaving inst i \<Longrightarrow> dbInstance_key iv i = dbInstance_key iv inst"
  by (simp add: leaving_def dbInstance_key_def object_key_def)

section \<open>One reconciliation\<close>

text \<open>While the DB instance is there: it is deleted, and the reconciliation asks to be repeated.\<close>

lemma wp_leaving_with_db:
  assumes "deletes E view gone req iv inst" "finalizer_list E" "inventory_ready E iv"
    and "l_inst (view w) = Some i" "leaving inst i" "l_db (view w) = Some db"
  shows "wp (Reconcile_instance E req)
    (\<lambda>f t. f = Stop \<and> r_requeue t \<and> r_err t = None \<and> EvDeleteDBInstance db None \<in> set (history t) \<and>
       (\<exists>i'. l_inst (view (world t)) = Some i' \<and> leaving inst i' \<and> ri_phase i' = instancePhaseDeleting)) (init_ins w)"
proof -
  note D = deletesD [OF assms(1)]
  obtain w1 where w1: "api_deleteDBInstance E db w = (None, w1)" "l_inst (view w1) = Some i"
    using D(8) [of db w] assms(4) by auto
  have "\<exists>w'. api_statusUpdateInstance E x w1 = (Inr x, w') \<and> view w' = (view w1)\<lparr>l_inst := Some x\<rparr>" for x
    using D(5) w1(2) by simp
  then obtain g where g: "\<And>x. api_statusUpdateInstance E x w1 = (Inr x, g x)"
    "\<And>x. view (g x) = (view w1)\<lparr>l_inst := Some x\<rparr>" by metis
  show ?thesis
    using assms(2,3,5) w1(1)
    by (simp add: Reconcile_instance_def ins_body_def ins_work_def ins_checkFinalizer_def init_ins_def wp_simps Let_def
        D(2,3,7) assms(4,6) leaving_def leaving_key [OF assms(5)] finalizer_list_def g
        updateInstanceReadyCondition_def ins_returnUpdating_def report_def)
qed

text \<open>Once it is gone: the RDSInstance goes, and its status cannot be written any more.\<close>

lemma wp_leaving_without_db:
  assumes "deletes E view gone req iv inst" "finalizer_list E" "inventory_ready E iv"
    and "l_inst (view w) = Some i" "leaving inst i" "l_db (view w) = None"
  shows "wp (Reconcile_instance E req)
    (\<lambda>f t. f = Stop \<and> r_err t = Some gone \<and> view (world t) = (view w)\<lparr>l_inst := None\<rparr>) (init_ins w)"
proof -
  note D = deletesD [OF assms(1)]
  let ?x = "i\<lparr>ri_meta := (ri_meta i)\<lparr>om_finalizers := []\<rparr>\<rparr>"
  obtain w1 where w1: "api_updateInstance E ?x w = (Inr ?x, w1)" "view w1 = (view w)\<lparr>l_inst := None\<rparr>"
    using D(4) [of ?x w] by auto
  have "\<exists>w'. api_statusUpdateInstance E x w1 = (Inl gone, w') \<and> view w' = view w1" for x
    by (rule D(6)) (simp add: w1(2))
  then obtain g where g: "\<And>x. api_statusUpdateInstance E x w1 = (Inl gone, g x)" "\<And>x. view (g x) = view w1" by metis
  show ?thesis
    using assms(2,3,5) w1 D(1)
    by (simp add: Reconcile_instance_def ins_body_def ins_work_def ins_checkFinalizer_def init_ins_def wp_simps Let_def
        D(2,3,7) assms(4,6) leaving_def leaving_key [OF assms(5)] finalizer_list_def not_found_def g
        ins_removeFinalizer_def updateInstanceReadyCondition_def ins_returnNotReady_def after_status_update_def report_def)
qed

text \<open>Afterwards there is nothing to do.\<close>

lemma wp_gone:
  assumes "deletes E view gone req iv inst" "l_inst (view w) = None"
  shows "wp (Reconcile_instance E req) (\<lambda>f t. f = Stop \<and> r_err t = None \<and> \<not> r_requeue t \<and> world t = w) (init_ins w)"
  using deletesD(1,2) [OF assms(1)] assms(2) by (simp add: Reconcile_instance_def init_ins_def wp_simps)

section \<open>The whole deletion\<close>

text \<open>
  What can happen meanwhile: a reconciliation, or anything that leaves the RDSInstance alone and
  does not bring a DB instance back.
\<close>

inductive departs :: "('w, 'n) env_scheme \<Rightarrow> ('w \<Rightarrow> leaving_view) \<Rightarrow> key \<Rightarrow> 'w \<Rightarrow> 'w \<Rightarrow> bool"
  for E view req where
  reconciles: "run_state (Reconcile_instance E req) (init_ins w) = (f, t) \<Longrightarrow> departs E view req w (world t)"
| others: "l_inst (view w') = l_inst (view w) \<Longrightarrow> (l_db (view w) = None \<longrightarrow> l_db (view w') = None) \<Longrightarrow>
    departs E view req w w'"

definition departure :: "('w \<Rightarrow> leaving_view) \<Rightarrow> rds_instance \<Rightarrow> 'w \<Rightarrow> bool" where
  "departure view inst w \<longleftrightarrow>
     (case l_inst (view w) of None \<Rightarrow> l_db (view w) = None | Some i \<Rightarrow> leaving inst i)"

lemma departs_departure:
  assumes "deletes E view gone req iv inst" "finalizer_list E" "inventory_ready E iv"
    and "departs E view req w w'" "departure view inst w"
  shows "departure view inst w'"
  using assms(4,5)
proof cases
  case (reconciles f t)
  consider (gone) "l_inst (view w) = None" | (db) i db where "l_inst (view w) = Some i" "l_db (view w) = Some db"
    | (no_db) i where "l_inst (view w) = Some i" "l_db (view w) = None" by fastforce
  then show ?thesis
  proof cases
    case gone
    with wp_run [OF wp_gone [OF assms(1)] reconciles(2)] assms(5) reconciles(1) show ?thesis by simp
  next
    case db
    with assms(5) have "leaving inst i" by (simp add: departure_def)
    from wp_run [OF wp_leaving_with_db [OF assms(1-3) db(1) this db(2)] reconciles(2)] reconciles(1)
    show ?thesis by (auto simp: departure_def)
  next
    case no_db
    with assms(5) have "leaving inst i" by (simp add: departure_def)
    from wp_run [OF wp_leaving_without_db [OF assms(1-3) no_db(1) this no_db(2)] reconciles(2)] reconciles(1)
    show ?thesis by (simp add: departure_def no_db)
  qed
next
  case others
  then show ?thesis using assms(5) by (auto simp: departure_def split: option.splits)
qed

text \<open>
  C6: the deletion of an RDSInstance that only this controller's finalizer holds, while its inventory
  stays ready (else nothing at all happens) and the API server answers without errors, in any
  interleaving of reconciliations with events that leave the RDSInstance alone and do not bring
  back a DB instance that is gone. As long as the DB instance exists the RDSInstance keeps its
  finalizer, and each reconciliation asks for the DB instance's deletion and to be repeated; the
  first one after the DB instance is gone makes the RDSInstance go, and returns an error all the
  same, because it then writes the status of an object that is not there; every later one does
  nothing.
\<close>

theorem deletion_completes:
  assumes "deletes E view gone req iv inst" "finalizer_list E" "inventory_ready E iv"
    and "l_inst (view w0) = Some inst" "leaving inst inst" "(departs E view req)\<^sup>*\<^sup>* w0 w"
  shows "wp (Reconcile_instance E req)
    (\<lambda>f t. f = Stop \<and>
       (case l_inst (view w) of
          None \<Rightarrow> l_db (view w) = None \<and> r_err t = None \<and> \<not> r_requeue t \<and> world t = w
        | Some i \<Rightarrow> leaving inst i \<and>
            (case l_db (view w) of
               Some db \<Rightarrow> r_err t = None \<and> r_requeue t \<and> EvDeleteDBInstance db None \<in> set (history t) \<and>
                 l_inst (view (world t)) \<noteq> None
             | None \<Rightarrow> r_err t = Some gone \<and> l_inst (view (world t)) = None))) (init_ins w)"
proof -
  have inv: "departure view inst w"
    using assms(6)
    by (induction rule: rtranclp_induct)
      (use assms(4,5) departs_departure [OF assms(1-3)] in \<open>auto simp: departure_def [of view inst w0]\<close>)
  consider (gone) "l_inst (view w) = None" | (db) i db where "l_inst (view w) = Some i" "l_db (view w) = Some db"
    | (no_db) i where "l_inst (view w) = Some i" "l_db (view w) = None" by fastforce
  then show ?thesis
  proof cases
    case gone
    then show ?thesis using inv wp_gone [OF assms(1) gone] by (simp add: departure_def)
  next
    case db
    then have "leaving inst i" using inv by (simp add: departure_def)
    then show ?thesis using db
      by (auto intro!: wp_mono [OF wp_leaving_with_db [OF assms(1-3) db(1) _ db(2)]])
  next
    case no_db
    then have "leaving inst i" using inv by (simp add: departure_def)
    then show ?thesis using no_db
      by (auto intro!: wp_mono [OF wp_leaving_without_db [OF assms(1-3) no_db(1) _ no_db(2)]])
  qed
qed

section \<open>A cluster in memory\<close>

definition departing_env :: "leaving_view env" where
  "departing_env = idle\<lparr>
     api_getInstance := (\<lambda>k w. (case l_inst w of None \<Rightarrow> Inl not_found | Some i \<Rightarrow> Inr i, w)),
     api_updateInstance := (\<lambda>x w. (Inr x, w\<lparr>l_inst := if om_finalizers (ri_meta x) = [] then None else Some x\<rparr>)),
     api_statusUpdateInstance := (\<lambda>x w. if l_inst w = None then (Inl not_found, w) else (Inr x, w\<lparr>l_inst := Some x\<rparr>)),
     api_getDBInstance := (\<lambda>k w. (case l_db w of None \<Rightarrow> Inl not_found | Some db \<Rightarrow> Inr db, w)),
     api_deleteDBInstance := (\<lambda>db w. (None, w))\<rparr>"

definition leaver :: rds_instance where
  "leaver = sample_instance\<lparr>ri_meta := (sample_meta ''db1'' [instanceFinalizer])\<lparr>om_deletionTimestamp := Some 7\<rparr>\<rparr>"

lemma departing_env_facts:
  "deletes departing_env (\<lambda>w. w) not_found req sample_inventory leaver" "finalizer_list departing_env"
  "inventory_ready departing_env sample_inventory" "leaving leaver leaver"
proof -
  show "deletes departing_env (\<lambda>w. w) not_found req sample_inventory leaver"
    by (simp add: deletes_def departing_env_def idle_def not_found_def split: option.split)
  show "finalizer_list departing_env" by (simp add: finalizer_list_def departing_env_def idle_def)
  show "inventory_ready departing_env sample_inventory"
    using sample_ready by (simp add: inventory_ready_def condition_true_def departing_env_def sample_def idle_def)
  show "leaving leaver leaver" by (simp add: leaving_def leaver_def sample_meta_def time_IsZero_def)
qed

text \<open>With the DB instance gone meanwhile.\<close>

lemma deletion_completes_example:
  "wp (Reconcile_instance departing_env (sample_key ''db1''))
     (\<lambda>f t. r_err t = Some not_found \<and> l_inst (world t) = None) (init_ins \<lparr>l_inst = Some leaver, l_db = None\<rparr>)"
proof -
  have "departs departing_env (\<lambda>w. w) (sample_key ''db1'') \<lparr>l_inst = Some leaver, l_db = Some sample_db\<rparr>
      \<lparr>l_inst = Some leaver, l_db = None\<rparr>"
    by (rule departs.others) simp_all
  then have "(departs departing_env (\<lambda>w. w) (sample_key ''db1''))\<^sup>*\<^sup>* \<lparr>l_inst = Some leaver, l_db = Some sample_db\<rparr>
      \<lparr>l_inst = Some leaver, l_db = None\<rparr>" ..
  from deletion_completes [OF departing_env_facts(1-3) _ departing_env_facts(4) this]
  show ?thesis by (rule wp_mono) auto
qed

end
