(* ===== verification/InventoryDeparture.thy ===== *)
theory InventoryDeparture
  imports InventoryDeletion SampleInventory Departure
begin

text \<open>
  The inventory controller over the deletion of an RDSInventory: in which order reconciliations take
  down what belongs to it, however they interleave with what else happens, how many are still
  needed, and how the last ones end.
\<close>

section \<open>A cluster that deletes\<close>

record take_down_view =
  w_inv :: "rds_inventory option"
  w_adopted :: "adopted_resource list"
  w_dep :: deployment
  w_sec :: "secret option"
  w_cm :: "configmap option"

abbreviation ack_secret_key :: "string \<Rightarrow> key" where
  "ack_secret_key N \<equiv> \<lparr>k_namespace = N, k_name = secretName\<rparr>"
abbreviation ack_config_key :: "string \<Rightarrow> key" where
  "ack_config_key N \<equiv> \<lparr>k_namespace = N, k_name = configmapName\<rparr>"

text \<open>
  The API server during the deletion of the inventory \<open>orig\<close>. Deleting an adopted resource only
  begins its deletion, which the ACK controller completes; the secret and the config map go at
  once.
\<close>

definition takes_down ::
  "('w, 'n) env_scheme \<Rightarrow> ('w \<Rightarrow> take_down_view) \<Rightarrow> error \<Rightarrow> string \<Rightarrow> key \<Rightarrow> rds_inventory \<Rightarrow> bool" where
  "takes_down E view gone N req orig \<longleftrightarrow> IsNotFound gone \<and> (\<forall>w.
     api_getInventory E req w = (case w_inv (view w) of None \<Rightarrow> Inl gone | Some i \<Rightarrow> Inr i, w) \<and>
     api_listAdopted E (om_namespace (inv_meta orig)) w = (Inr (w_adopted (view w)), w) \<and>
     (\<forall>a. \<exists>w' ads. api_deleteAdopted E a w = (None, w') \<and> view w' = (view w)\<lparr>w_adopted := ads\<rparr>) \<and>
     api_getDeployment E (deployment_key N) w = (Inr (w_dep (view w)), w) \<and>
     (\<forall>d. \<exists>w'. api_updateDeployment E d w = (Inr d, w') \<and> view w' = (view w)\<lparr>w_dep := d\<rparr>) \<and>
     api_getSecret E (ack_secret_key N) w = (case w_sec (view w) of None \<Rightarrow> Inl gone | Some sec \<Rightarrow> Inr sec, w) \<and>
     (\<forall>sec. \<exists>w'. api_deleteSecret E sec w = (None, w') \<and> view w' = (view w)\<lparr>w_sec := None\<rparr>) \<and>
     api_getConfigMap E (ack_config_key N) w = (case w_cm (view w) of None \<Rightarrow> Inl gone | Some cm \<Rightarrow> Inr cm, w) \<and>
     (\<forall>cm. \<exists>w'. api_deleteConfigMap E cm w = (None, w') \<and> view w' = (view w)\<lparr>w_cm := None\<rparr>) \<and>
     (\<forall>x. \<exists>w'. api_updateInventory E x w = (Inr x, w') \<and>
        view w' = (view w)\<lparr>w_inv := if om_finalizers (inv_meta x) = [] then None else Some x\<rparr>) \<and>
     (\<forall>x. \<exists>w'. api_statusUpdateInventory E x w =
         (if w_inv (view w) = None then Inl gone else Inr x, w') \<and>
        view w' = (if w_inv (view w) = None then view w else (view w)\<lparr>w_inv := Some x\<rparr>)))"

lemma takes_downD:
  assumes "takes_down E view gone N req orig"
  shows "IsNotFound gone" "api_getInventory E req w = (case w_inv (view w) of None \<Rightarrow> Inl gone | Some i \<Rightarrow> Inr i, w)"
    and "api_listAdopted E (om_namespace (inv_meta orig)) w = (Inr (w_adopted (view w)), w)"
    and "\<exists>w' ads. api_deleteAdopted E a w = (None, w') \<and> view w' = (view w)\<lparr>w_adopted := ads\<rparr>"
    and "api_getDeployment E (deployment_key N) w = (Inr (w_dep (view w)), w)"
    and "\<exists>w'. api_updateDeployment E d w = (Inr d, w') \<and> view w' = (view w)\<lparr>w_dep := d\<rparr>"
    and "api_getSecret E (ack_secret_key N) w = (case w_sec (view w) of None \<Rightarrow> Inl gone | Some sec \<Rightarrow> Inr sec, w)"
    and "\<exists>w'. api_deleteSecret E sec w = (None, w') \<and> view w' = (view w)\<lparr>w_sec := None\<rparr>"
    and "api_getConfigMap E (ack_config_key N) w = (case w_cm (view w) of None \<Rightarrow> Inl gone | Some cm \<Rightarrow> Inr cm, w)"
    and "\<exists>w'. api_deleteConfigMap E cm w = (None, w') \<and> view w' = (view w)\<lparr>w_cm := None\<rparr>"
    and "\<exists>w'. api_updateInventory E x w = (Inr x, w') \<and>
      view w' = (view w)\<lparr>w_inv := if om_finalizers (inv_meta x) = [] then None else Some x\<rparr>"
    and "\<exists>w'. api_statusUpdateInventory E x w = (if w_inv (view w) = None then Inl gone else Inr x, w') \<and>
      view w' = (if w_inv (view w) = None then view w else (view w)\<lparr>w_inv := Some x\<rparr>)"
  using assms [unfolded takes_down_def, THEN conjunct2, THEN spec, of w] assms unfolding takes_down_def by blast+

definition leaving_inv :: "rds_inventory \<Rightarrow> rds_inventory \<Rightarrow> bool" where
  "leaving_inv orig i \<longleftrightarrow> \<not> time_IsZero (om_deletionTimestamp (inv_meta i)) \<and>
     om_finalizers (inv_meta i) = [inventoryFinalizer] \<and> object_key (inv_meta i) = object_key (inv_meta orig)"

lemma leaving_inv_same:
  assumes "leaving_inv orig i"
  shows "om_namespace (inv_meta i) = om_namespace (inv_meta orig)" "owned_adopted L i a = owned_adopted L orig a"
  using assms by (auto simp: leaving_inv_def object_key_def owned_adopted_def split: option.split)

abbreviation owns :: "'n lib_scheme \<Rightarrow> rds_inventory \<Rightarrow> take_down_view \<Rightarrow> bool" where
  "owns L orig v \<equiv> list_ex (owned_adopted L orig) (w_adopted v)"

text \<open>The adopted resources of the inventory that are not on their way out were asked to go.\<close>

definition deletes_asked :: "'n lib_scheme \<Rightarrow> rds_inventory \<Rightarrow> take_down_view \<Rightarrow> event list \<Rightarrow> bool" where
  "deletes_asked L orig v h \<longleftrightarrow>
     (\<forall>a \<in> set (w_adopted v). owned_adopted L orig a \<and> time_IsZero (om_deletionTimestamp (ad_meta a)) \<longrightarrow>
        EvDeleteAdopted a None \<in> set h)"

text \<open>What else is left to take down, one reconciliation each.\<close>

definition left :: "take_down_view \<Rightarrow> nat" where
  "left v = (if w_sec v = None then 0 else 1) + (if w_cm v = None then 0 else 1)"

text \<open>The inventory is still there.\<close>

definition remains :: "rds_inventory \<Rightarrow> take_down_view \<Rightarrow> bool" where
  "remains orig v \<longleftrightarrow> (\<exists>x. w_inv v = Some x \<and> leaving_inv orig x)"

section \<open>The steps\<close>

lemma wp_delete_none:
  "\<not> list_ex (owned_adopted E iv) items \<Longrightarrow> wp (for_each (delete_adopted E iv) items) Q s = Q Continue s"
  by (induction items) (simp_all add: wp_simps delete_adopted_def)

lemma adopted_refl [simp]: "\<exists>ads. v = v\<lparr>w_adopted := ads\<rparr>" for v :: take_down_view
  by (rule exI [of _ "w_adopted v"]) simp

text \<open>After the loop over \<open>items\<close> from \<open>s\<close>.\<close>

definition asked_to_go ::
  "'n lib_scheme \<Rightarrow> ('w \<Rightarrow> take_down_view) \<Rightarrow> rds_inventory \<Rightarrow> adopted_resource list \<Rightarrow> 'w inv_st \<Rightarrow> 'w inv_st \<Rightarrow> bool" where
  "asked_to_go L view iv items s t \<longleftrightarrow>
     iv_inventory t = iv_inventory s \<and> iv_deleting t = (iv_deleting s \<or> list_ex (owned_adopted L iv) items) \<and>
     (\<exists>ads. view (world t) = (view (world s))\<lparr>w_adopted := ads\<rparr>) \<and> set (history s) \<subseteq> set (history t) \<and>
     (\<forall>a \<in> set items. owned_adopted L iv a \<and> time_IsZero (om_deletionTimestamp (ad_meta a)) \<longrightarrow>
        EvDeleteAdopted a None \<in> set (history t))"

lemma asked_to_go_step:
  assumes "asked_to_go L view iv items s1 t"
    and "iv_inventory s1 = iv_inventory s" "iv_deleting s1 = (iv_deleting s \<or> owned_adopted L iv a)"
    and "view (world s1) = (view (world s))\<lparr>w_adopted := ads\<rparr>" "set (history s) \<subseteq> set (history s1)"
    and "owned_adopted L iv a \<Longrightarrow> time_IsZero (om_deletionTimestamp (ad_meta a)) \<Longrightarrow> EvDeleteAdopted a None \<in> set (history s1)"
  shows "asked_to_go L view iv (a # items) s t"
  using assms unfolding asked_to_go_def by fastforce

lemma wp_delete_owned:
  assumes "takes_down E view gone N req orig"
  shows "wp (for_each (delete_adopted E iv) items) (\<lambda>f t. f = Continue \<and> asked_to_go E view iv items s t) s"
proof (induction items arbitrary: s)
  case Nil
  show ?case by (simp add: wp_simps asked_to_go_def)
next
  case (Cons a items)
  obtain w1 ads where w1: "api_deleteAdopted E a (world s) = (None, w1)" "view w1 = (view (world s))\<lparr>w_adopted := ads\<rparr>"
    using takes_downD(4) [OF assms] by blast
  have "wp (delete_adopted E iv a) (\<lambda>f s1. f = Continue \<and> iv_inventory s1 = iv_inventory s \<and>
      iv_deleting s1 = (iv_deleting s \<or> owned_adopted E iv a) \<and>
      (\<exists>ads. view (world s1) = (view (world s))\<lparr>w_adopted := ads\<rparr>) \<and> set (history s) \<subseteq> set (history s1) \<and>
      (owned_adopted E iv a \<longrightarrow> time_IsZero (om_deletionTimestamp (ad_meta a)) \<longrightarrow> EvDeleteAdopted a None \<in> set (history s1))) s"
    using w1 by (auto simp: wp_simps delete_adopted_def)
  then show ?case
    unfolding for_each.simps wp_andThen
    by (rule wp_mono) (auto intro!: wp_mono [OF Cons] intro: asked_to_go_step)
qed

section \<open>One reconciliation\<close>

text \<open>Every reconciliation of an inventory that is being deleted is its finalizer check and the status update.\<close>

lemma wp_reconcile_leaving:
  assumes "takes_down E view gone N req orig" "w_inv (view w) = Some i" "\<not> inv_live i"
    and "wp (inv_checkFinalizer E N n) (\<lambda>f t. f = Stop \<and> wp (updateInventoryReadyCondition E) (\<lambda>_. Q f) t)
      ((init_inv w)\<lparr>history := [EvGetInventory req (Inr i)], iv_inventory := i\<rparr>)"
  shows "wp (Reconcile_inventory E N n req) Q (init_inv w)"
  unfolding Reconcile_inventory_def inv_body_def
  using assms(4)
  by (simp add: wp_simps takes_downD(2) [OF assms(1)] assms(2) init_inv_def) (erule wp_mono, simp)

text \<open>The status update of an inventory that is still there, and of one that is not.\<close>

lemma wp_inv_status_stored:
  assumes "takes_down E view gone N req orig" "w_inv (view (world t)) = Some j" "leaving_inv orig (iv_inventory t)"
    and "\<And>w h x. leaving_inv orig x \<Longrightarrow> view w = (view (world t))\<lparr>w_inv := Some x\<rparr> \<Longrightarrow>
      Q () (t\<lparr>world := w, history := history t @ h, iv_inventory := x\<rparr>)"
  shows "wp (updateInventoryReadyCondition E) Q t"
proof -
  obtain g where g: "\<And>x. api_statusUpdateInventory E x (world t) = (Inr x, g x)"
    "\<And>x. view (g x) = (view (world t))\<lparr>w_inv := Some x\<rparr>"
    using takes_downD(12) [OF assms(1), of _ "world t"] assms(2) by simp metis
  show ?thesis
    using assms(3) by (simp add: updateInventoryReadyCondition_def wp_simps Let_def g)
      (rule assms(4), simp_all add: leaving_inv_def g)
qed

lemma wp_inv_status_gone:
  assumes "takes_down E view gone N req orig" "w_inv (view (world t)) = None"
    and "\<And>w h x. view w = view (world t) \<Longrightarrow>
      Q () (after_status_update gone (t\<lparr>iv_inventory := x, world := w, history := h\<rparr>))"
  shows "wp (updateInventoryReadyCondition E) Q t"
proof -
  obtain g where g: "\<And>x. api_statusUpdateInventory E x (world t) = (Inl gone, g x)" "\<And>x. view (g x) = view (world t)"
    using takes_downD(12) [OF assms(1), of _ "world t"] assms(2) by simp metis
  show ?thesis
    by (simp add: updateInventoryReadyCondition_def wp_simps Let_def g) (rule assms(3), rule g(2))
qed

text \<open>While adopted resources of the inventory are there, they are asked to go.\<close>

lemma wp_leaving_owner:
  assumes "takes_down E view gone N req orig" "finalizer_list E" "w_inv (view w) = Some i" "leaving_inv orig i"
    and "owns E orig (view w)"
  shows "wp (Reconcile_inventory E N n req) (\<lambda>f t. f = Stop \<and> r_err t = None \<and> r_requeue t \<and>
     (\<exists>x ads. leaving_inv orig x \<and> view (world t) = (view w)\<lparr>w_inv := Some x, w_adopted := ads\<rparr>) \<and>
     deletes_asked E orig (view w) (history t)) (init_inv w)"
proof -
  have live: "\<not> inv_live i" "om_namespace (inv_meta i) = om_namespace (inv_meta orig)"
    "ContainsFinalizer E (inv_meta i) inventoryFinalizer"
    using assms(2,4) leaving_inv_same(1) by (auto simp: leaving_inv_def finalizer_list_def)
  have owned: "owned_adopted E i = owned_adopted E orig" by (rule ext) (rule leaving_inv_same(2) [OF assms(4)])
  let ?R = "\<lambda>t. iv_inventory t = i \<and> r_requeue t \<and> r_err t = None \<and>
      (\<exists>ads. view (world t) = (view w)\<lparr>w_adopted := ads\<rparr>) \<and>
      deletes_asked E orig (view w) (history t)"
  have "wp (inv_checkFinalizer E N n) (\<lambda>f t. f = Stop \<and> ?R t)
      ((init_inv w)\<lparr>history := [EvGetInventory req (Inr i)], iv_inventory := i\<rparr>)"
    using live(1) assms(5)
    by (simp add: inv_checkFinalizer_def delete_adopted_resources_def wp_simps Let_def live takes_downD(3) [OF assms(1)]
        init_inv_def)
      (rule wp_mono [OF wp_delete_owned [OF assms(1)]],
        auto simp: asked_to_go_def deletes_asked_def owned inv_returnUpdating_def report_def)
  then have "wp (inv_checkFinalizer E N n) (\<lambda>f t. f = Stop \<and> wp (updateInventoryReadyCondition E) (\<lambda>_ t. f = Stop \<and>
      r_err t = None \<and> r_requeue t \<and>
      (\<exists>x ads. leaving_inv orig x \<and> view (world t) = (view w)\<lparr>w_inv := Some x, w_adopted := ads\<rparr>) \<and>
      deletes_asked E orig (view w) (history t)) t)
      ((init_inv w)\<lparr>history := [EvGetInventory req (Inr i)], iv_inventory := i\<rparr>)"
  proof (rule wp_mono, elim conjE exE, intro conjI)
    fix f ads and t :: "'a inv_st"
    assume t: "f = Stop" "iv_inventory t = i" "r_requeue t" "r_err t = None" "view (world t) = (view w)\<lparr>w_adopted := ads\<rparr>"
      "deletes_asked E orig (view w) (history t)"
    then show "f = Stop" by simp
    show "wp (updateInventoryReadyCondition E) (\<lambda>_ t. f = Stop \<and> r_err t = None \<and> r_requeue t \<and>
      (\<exists>x ads. leaving_inv orig x \<and> view (world t) = (view w)\<lparr>w_inv := Some x, w_adopted := ads\<rparr>) \<and>
      deletes_asked E orig (view w) (history t)) t"
    proof (rule wp_inv_status_stored [OF assms(1), of t i])
      fix w1 h x
      assume "leaving_inv orig x" "view w1 = (view (world t))\<lparr>w_inv := Some x\<rparr>"
      moreover from this t(5) have "view w1 = (view w)\<lparr>w_inv := Some x, w_adopted := ads\<rparr>" by simp
      ultimately show "f = Stop \<and> r_err (t\<lparr>world := w1, history := history t @ h, iv_inventory := x\<rparr>) = None \<and>
        r_requeue (t\<lparr>world := w1, history := history t @ h, iv_inventory := x\<rparr>) \<and>
        (\<exists>y ads. leaving_inv orig y \<and> view (world (t\<lparr>world := w1, history := history t @ h, iv_inventory := x\<rparr>)) =
          (view w)\<lparr>w_inv := Some y, w_adopted := ads\<rparr>) \<and>
        deletes_asked E orig (view w) (history (t\<lparr>world := w1, history := history t @ h, iv_inventory := x\<rparr>))"
        using t by (auto simp: deletes_asked_def)
    qed (use t assms(3,4) in auto)
  qed
  then show ?thesis by (rule wp_reconcile_leaving [OF assms(1,3) live(1)])
qed

text \<open>When they are gone, the ACK controller is stopped and the rest of the check goes on.\<close>

lemma wp_stopped:
  assumes "takes_down E view gone N req orig"
    and "\<And>w h d. scaled_down d \<Longrightarrow> view w = (view (world s))\<lparr>w_dep := d\<rparr> \<Longrightarrow> Q Continue (s\<lparr>world := w, history := h\<rparr>)"
  shows "wp (uninstall_controller E N (Suc n)) Q s"
proof -
  let ?d = "w_dep (view (world s))"
  obtain w1 where w1: "api_updateDeployment E (?d\<lparr>dep_replicas := Some 0\<rparr>) (world s) = (Inr (?d\<lparr>dep_replicas := Some 0\<rparr>), w1)"
    "view w1 = (view (world s))\<lparr>w_dep := ?d\<lparr>dep_replicas := Some 0\<rparr>\<rparr>"
    using takes_downD(6) [OF assms(1)] by blast
  have "Q Continue (s\<lparr>world := w1, history := h\<rparr>)" for h
    by (rule assms(2) [OF _ w1(2)]) (simp add: scaled_down_def)
  moreover have "Q Continue (s\<lparr>history := h\<rparr>)" if "scaled_down ?d" for h
    using assms(2) [OF that, of "world s" h] by simp
  moreover have "scaled_down ?d \<longleftrightarrow> \<not> (case dep_replicas ?d of None \<Rightarrow> True | Some i \<Rightarrow> 0 <s i)"
    by (simp add: scaled_down_def split: option.split)
  ultimately show ?thesis
    using w1(1)
    by (auto simp: uninstall_controller_def stopRDSController_def scale_deployment_def wp_simps takes_downD(5) [OF assms(1)])
qed

lemma wp_take_down:
  assumes "takes_down E view gone N req orig" "finalizer_list E" "leaving_inv orig (iv_inventory s)"
    and "\<not> owns E orig (view (world s))"
    and "\<And>w h d. scaled_down d \<Longrightarrow> view w = (view (world s))\<lparr>w_dep := d\<rparr> \<Longrightarrow>
      wp (andThen (delete_ack_secret E N) (andThen (delete_ack_configmap E N) (inv_removeFinalizer E))) Q
        (s\<lparr>iv_deleting := False, world := w, history := h\<rparr>)"
  shows "wp (inv_checkFinalizer E N (Suc n)) Q s"
proof -
  have here: "\<not> inv_live (iv_inventory s)" "ContainsFinalizer E (inv_meta (iv_inventory s)) inventoryFinalizer"
    using assms(2,3) by (auto simp: leaving_inv_def finalizer_list_def)
  have none: "\<not> list_ex (owned_adopted E (iv_inventory s)) (w_adopted (view (world s)))"
    using assms(4) leaving_inv_same(2) [OF assms(3), of E] by (simp add: list_ex_iff)
  show ?thesis
    using here
    by (simp add: inv_checkFinalizer_def delete_adopted_resources_def wp_simps Let_def leaving_inv_same(1) [OF assms(3)]
        takes_downD(3) [OF assms(1)] wp_delete_none [OF none] split del: if_split)
      (rule wp_stopped [OF assms(1)], use assms(5) in \<open>simp add: wp_andThen split del: if_split\<close>)
qed

lemma wp_leaving_takes_down:
  assumes "takes_down E view gone N req orig" "finalizer_list E" "w_inv (view w) = Some i" "leaving_inv orig i"
    and "\<not> owns E orig (view w)"
    and "\<And>w1 h d. scaled_down d \<Longrightarrow> view w1 = (view w)\<lparr>w_dep := d\<rparr> \<Longrightarrow>
      wp (andThen (delete_ack_secret E N) (andThen (delete_ack_configmap E N) (inv_removeFinalizer E)))
        (\<lambda>f t. f = Stop \<and> wp (updateInventoryReadyCondition E) (\<lambda>_. Q f) t)
        ((init_inv w)\<lparr>iv_inventory := i, world := w1, history := h\<rparr>)"
  shows "wp (Reconcile_inventory E N (Suc n) req) Q (init_inv w)"
proof (rule wp_reconcile_leaving [OF assms(1,3)])
  show "\<not> inv_live i" using assms(4) by (simp add: leaving_inv_def)
  show "wp (inv_checkFinalizer E N (Suc n)) (\<lambda>f t. f = Stop \<and> wp (updateInventoryReadyCondition E) (\<lambda>_. Q f) t)
      ((init_inv w)\<lparr>history := [EvGetInventory req (Inr i)], iv_inventory := i\<rparr>)"
    by (rule wp_take_down [OF assms(1,2)]) (use assms(4-6) in \<open>simp_all add: init_inv_def\<close>)
qed

text \<open>The secret goes first, then the config map, each with a reconciliation of its own.\<close>

lemma wp_leaving_secret:
  assumes "takes_down E view gone N req orig" "finalizer_list E" "w_inv (view w) = Some i" "leaving_inv orig i"
    and "\<not> owns E orig (view w)" "w_sec (view w) = Some sec"
  shows "wp (Reconcile_inventory E N (Suc n) req) (\<lambda>f t. f = Stop \<and> r_err t = None \<and> r_requeue t \<and>
     (\<exists>x d. leaving_inv orig x \<and> scaled_down d \<and>
       view (world t) = (view w)\<lparr>w_inv := Some x, w_dep := d, w_sec := None\<rparr>)) (init_inv w)"
proof (rule wp_leaving_takes_down [OF assms(1-5)])
  fix w1 h d
  assume w1: "view w1 = (view w)\<lparr>w_dep := d\<rparr>" "scaled_down d"
  obtain w2 where w2: "api_deleteSecret E sec w1 = (None, w2)" "view w2 = (view w1)\<lparr>w_sec := None\<rparr>"
    using takes_downD(8) [OF assms(1)] by blast
  show "wp (andThen (delete_ack_secret E N) (andThen (delete_ack_configmap E N) (inv_removeFinalizer E)))
      (\<lambda>f t. f = Stop \<and> wp (updateInventoryReadyCondition E) (\<lambda>_ t. f = Stop \<and> r_err t = None \<and> r_requeue t \<and>
         (\<exists>x d. leaving_inv orig x \<and> scaled_down d \<and>
           view (world t) = (view w)\<lparr>w_inv := Some x, w_dep := d, w_sec := None\<rparr>)) t)
      ((init_inv w)\<lparr>iv_inventory := i, world := w1, history := h\<rparr>)"
    using w1 w2 assms(3,4,6)
    by (auto simp: delete_ack_secret_def wp_simps takes_downD(7) [OF assms(1)] init_inv_def inv_returnUpdating_def report_def
        intro!: wp_inv_status_stored [OF assms(1)] exI [of _ d])
qed

lemma wp_leaving_configmap:
  assumes "takes_down E view gone N req orig" "finalizer_list E" "w_inv (view w) = Some i" "leaving_inv orig i"
    and "\<not> owns E orig (view w)" "w_sec (view w) = None" "w_cm (view w) = Some cm"
  shows "wp (Reconcile_inventory E N (Suc n) req) (\<lambda>f t. f = Stop \<and> r_err t = None \<and> r_requeue t \<and>
     (\<exists>x d. leaving_inv orig x \<and> scaled_down d \<and>
       view (world t) = (view w)\<lparr>w_inv := Some x, w_dep := d, w_cm := None\<rparr>)) (init_inv w)"
proof (rule wp_leaving_takes_down [OF assms(1-5)])
  fix w1 h d
  assume w1: "view w1 = (view w)\<lparr>w_dep := d\<rparr>" "scaled_down d"
  obtain w2 where w2: "api_deleteConfigMap E cm w1 = (None, w2)" "view w2 = (view w1)\<lparr>w_cm := None\<rparr>"
    using takes_downD(10) [OF assms(1)] by blast
  show "wp (andThen (delete_ack_secret E N) (andThen (delete_ack_configmap E N) (inv_removeFinalizer E)))
      (\<lambda>f t. f = Stop \<and> wp (updateInventoryReadyCondition E) (\<lambda>_ t. f = Stop \<and> r_err t = None \<and> r_requeue t \<and>
         (\<exists>x d. leaving_inv orig x \<and> scaled_down d \<and>
           view (world t) = (view w)\<lparr>w_inv := Some x, w_dep := d, w_cm := None\<rparr>)) t)
      ((init_inv w)\<lparr>iv_inventory := i, world := w1, history := h\<rparr>)"
    using w1 w2 assms(3,4,6,7) takes_downD(1) [OF assms(1)]
    by (auto simp: delete_ack_secret_def delete_ack_configmap_def wp_simps takes_downD(7,9) [OF assms(1)] init_inv_def
        inv_returnUpdating_def report_def intro!: wp_inv_status_stored [OF assms(1)] exI [of _ d])
qed

text \<open>With everything gone, the inventory goes, and its status cannot be written any more.\<close>

lemma wp_leaving_last:
  assumes "takes_down E view gone N req orig" "finalizer_list E" "w_inv (view w) = Some i" "leaving_inv orig i"
    and "\<not> owns E orig (view w)" "w_sec (view w) = None" "w_cm (view w) = None"
  shows "wp (Reconcile_inventory E N (Suc n) req) (\<lambda>f t. f = Stop \<and> r_err t = Some gone \<and>
     (\<exists>d. scaled_down d \<and> view (world t) = (view w)\<lparr>w_inv := None, w_dep := d\<rparr>)) (init_inv w)"
proof (rule wp_leaving_takes_down [OF assms(1-5)])
  fix w1 h d
  assume w1: "view w1 = (view w)\<lparr>w_dep := d\<rparr>" "scaled_down d"
  let ?x = "i\<lparr>inv_meta := (inv_meta i)\<lparr>om_finalizers := []\<rparr>\<rparr>"
  obtain w2 where w2: "api_updateInventory E ?x w1 = (Inr ?x, w2)" "view w2 = (view w1)\<lparr>w_inv := None\<rparr>"
    using takes_downD(11) [OF assms(1), of ?x w1] by auto
  have "RemoveFinalizer E (inv_meta i) inventoryFinalizer = (inv_meta i)\<lparr>om_finalizers := []\<rparr>"
    using assms(2,4) by (simp add: finalizer_list_def leaving_inv_def)
  then show "wp (andThen (delete_ack_secret E N) (andThen (delete_ack_configmap E N) (inv_removeFinalizer E)))
      (\<lambda>f t. f = Stop \<and> wp (updateInventoryReadyCondition E) (\<lambda>_ t. f = Stop \<and> r_err t = Some gone \<and>
         (\<exists>d. scaled_down d \<and> view (world t) = (view w)\<lparr>w_inv := None, w_dep := d\<rparr>)) t)
      ((init_inv w)\<lparr>iv_inventory := i, world := w1, history := h\<rparr>)"
    using w1 w2 assms(6,7) takes_downD(1) [OF assms(1)]
    by (auto simp: delete_ack_secret_def delete_ack_configmap_def inv_removeFinalizer_def wp_simps
        takes_downD(7,9) [OF assms(1)] init_inv_def inv_returnNotReady_def report_def after_status_update_def
        intro!: wp_inv_status_gone [OF assms(1)] exI [of _ d])
qed

lemma wp_inventory_gone:
  assumes "takes_down E view gone N req orig" "w_inv (view w) = None"
  shows "wp (Reconcile_inventory E N n req) (\<lambda>f t. f = Stop \<and> r_err t = None \<and> \<not> r_requeue t \<and> world t = w) (init_inv w)"
  using takes_downD(1,2) [OF assms(1)] assms(2) by (simp add: Reconcile_inventory_def init_inv_def wp_simps)

section \<open>The whole deletion\<close>

text \<open>
  What can happen meanwhile: a reconciliation, or anything that leaves the RDSInventory alone and
  does not bring back an adopted resource of it, the secret or the config map.
\<close>

inductive dismantles ::
  "('w, 'n) env_scheme \<Rightarrow> ('w \<Rightarrow> take_down_view) \<Rightarrow> string \<Rightarrow> nat \<Rightarrow> key \<Rightarrow> rds_inventory \<Rightarrow> 'w \<Rightarrow> 'w \<Rightarrow> bool"
  for E view N n req orig where
  reconciles: "run_state (Reconcile_inventory E N n req) (init_inv w) = (f, t) \<Longrightarrow>
    dismantles E view N n req orig w (world t)"
| others: "w_inv (view w') = w_inv (view w) \<Longrightarrow> (owns E orig (view w') \<longrightarrow> owns E orig (view w)) \<Longrightarrow>
    (w_sec (view w) = None \<longrightarrow> w_sec (view w') = None) \<Longrightarrow> (w_cm (view w) = None \<longrightarrow> w_cm (view w') = None) \<Longrightarrow>
    dismantles E view N n req orig w w'"

definition dismantling :: "'n lib_scheme \<Rightarrow> rds_inventory \<Rightarrow> take_down_view \<Rightarrow> bool" where
  "dismantling L orig v \<longleftrightarrow> remains orig v \<or> (w_inv v = None \<and> \<not> owns L orig v \<and> left v = 0)"

text \<open>What one reconciliation does, by what it finds.\<close>

definition dismantled ::
  "('w, 'n) env_scheme \<Rightarrow> ('w \<Rightarrow> take_down_view) \<Rightarrow> error \<Rightarrow> rds_inventory \<Rightarrow> 'w \<Rightarrow> 'w inv_st \<Rightarrow> bool" where
  "dismantled E view gone orig w t \<longleftrightarrow>
     (if w_inv (view w) = None
      then r_err t = None \<and> \<not> r_requeue t \<and> world t = w \<and> \<not> owns E orig (view w) \<and> left (view w) = 0
      else if owns E orig (view w)
      then r_err t = None \<and> r_requeue t \<and> deletes_asked E orig (view w) (history t) \<and>
        (\<exists>x ads. leaving_inv orig x \<and> view (world t) = (view w)\<lparr>w_inv := Some x, w_adopted := ads\<rparr>)
      else if w_sec (view w) \<noteq> None
      then r_err t = None \<and> r_requeue t \<and> (\<exists>x d. leaving_inv orig x \<and> scaled_down d \<and>
        view (world t) = (view w)\<lparr>w_inv := Some x, w_dep := d, w_sec := None\<rparr>)
      else if w_cm (view w) \<noteq> None
      then r_err t = None \<and> r_requeue t \<and> (\<exists>x d. leaving_inv orig x \<and> scaled_down d \<and>
        view (world t) = (view w)\<lparr>w_inv := Some x, w_dep := d, w_cm := None\<rparr>)
      else r_err t = Some gone \<and>
        (\<exists>d. scaled_down d \<and> view (world t) = (view w)\<lparr>w_inv := None, w_dep := d\<rparr>))"

lemma wp_dismantled:
  assumes "takes_down E view gone N req orig" "finalizer_list E" "dismantling E orig (view w)"
  shows "wp (Reconcile_inventory E N (Suc n) req) (\<lambda>f t. f = Stop \<and> dismantled E view gone orig w t) (init_inv w)"
proof (cases "w_inv (view w)")
  case None
  then show ?thesis using assms(3)
    by (auto simp: dismantling_def remains_def dismantled_def intro!: wp_mono [OF wp_inventory_gone [OF assms(1)]])
next
  case (Some i)
  with assms(3) have l: "leaving_inv orig i" by (auto simp: dismantling_def remains_def)
  note here = assms(1,2) Some l
  consider (owner) "owns E orig (view w)"
    | (sec) sec where "\<not> owns E orig (view w)" "w_sec (view w) = Some sec"
    | (cm) cm where "\<not> owns E orig (view w)" "w_sec (view w) = None" "w_cm (view w) = Some cm"
    | (last) "\<not> owns E orig (view w)" "w_sec (view w) = None" "w_cm (view w) = None" by fastforce
  then show ?thesis
  proof cases
    case owner
    show ?thesis by (rule wp_mono [OF wp_leaving_owner [OF here owner]]) (simp add: dismantled_def Some owner)
  next
    case sec
    show ?thesis by (rule wp_mono [OF wp_leaving_secret [OF here sec]]) (simp add: dismantled_def Some sec)
  next
    case cm
    show ?thesis by (rule wp_mono [OF wp_leaving_configmap [OF here cm]]) (simp add: dismantled_def Some cm)
  next
    case last
    show ?thesis by (rule wp_mono [OF wp_leaving_last [OF here last]]) (simp add: dismantled_def Some last)
  qed
qed

lemma dismantles_dismantling:
  assumes "takes_down E view gone N req orig" "finalizer_list E"
    and "dismantles E view N (Suc n) req orig w w'" "dismantling E orig (view w)"
  shows "dismantling E orig (view w')"
  using assms(3,4)
proof cases
  case (reconciles f t)
  from wp_run [OF wp_dismantled [OF assms(1,2,4)] reconciles(2)] reconciles(1) assms(4) show ?thesis
    by (auto simp: dismantled_def dismantling_def remains_def left_def split: if_splits)
next
  case others
  then show ?thesis using assms(4) by (auto simp: dismantling_def remains_def left_def split: if_splits)
qed

text \<open>The world after a reconciliation; without adopted resources, few of them in a row are enough.\<close>

definition reconciled ::
  "('w, 'n) env_scheme \<Rightarrow> string \<Rightarrow> nat \<Rightarrow> key \<Rightarrow> 'w \<Rightarrow> 'w" where
  "reconciled E N n req w = world (snd (run_state (Reconcile_inventory E N n req) (init_inv w)))"

lemma reconciled_departs:
  assumes "takes_down E view gone N req orig" "finalizer_list E"
    and "dismantling E orig (view w)" "\<not> owns E orig (view w)" "w_inv (view w) = None \<or> left (view w) < k"
  shows "w_inv (view ((reconciled E N (Suc n) req ^^ k) w)) = None"
  using assms(3-5)
proof (induction k arbitrary: w)
  case (Suc k)
  obtain f t where run: "run_state (Reconcile_inventory E N (Suc n) req) (init_inv w) = (f, t)" by fastforce
  then have t: "reconciled E N (Suc n) req w = world t" by (simp add: reconciled_def)
  have "dismantled E view gone orig w t" using wp_run [OF wp_dismantled [OF assms(1,2) Suc.prems(1)] run] by simp
  then have "\<not> owns E orig (view (world t))" "w_inv (view (world t)) = None \<or> left (view (world t)) < k"
    using Suc.prems by (auto simp: dismantled_def left_def split: if_splits)
  moreover have "dismantling E orig (view (world t))"
    by (rule dismantles_dismantling [OF assms(1,2) dismantles.reconciles [OF run] Suc.prems(1)])
  ultimately show ?case by (simp add: funpow_swap1 [symmetric] t Suc.IH del: funpow.simps add: funpow_Suc_right)
qed simp

text \<open>
  C7: the deletion of an RDSInventory that only this controller's finalizer holds, with an API server
  that answers without errors and an ACK deployment that exists, in any interleaving of
  reconciliations with events that leave the inventory alone and bring back neither an adopted
  resource of it nor the ACK controller's secret or config map. While adopted resources of the
  inventory are there, each reconciliation asks all of them that are not going yet to go, asks to
  be repeated, and changes nothing else but the inventory's status: deployment, secret and config
  map stay. Afterwards each one scales the deployment down and takes down first the secret, then
  the config map, until a last one, with the deployment scaled down, lets the inventory go, and
  returns an error all the same for the status it can no longer write; then nothing is left and
  nothing is done. So three reconciliations in a row, once no adopted resource is left, are enough.
\<close>

theorem inventory_deletion_completes:
  assumes "takes_down E view gone N req orig" "finalizer_list E" "w_inv (view w0) = Some orig" "leaving_inv orig orig"
    and "(dismantles E view N (Suc n) req orig)\<^sup>*\<^sup>* w0 w"
  shows "wp (Reconcile_inventory E N (Suc n) req) (\<lambda>f t. f = Stop \<and> dismantled E view gone orig w t) (init_inv w) \<and>
    (\<not> owns E orig (view w) \<longrightarrow> w_inv (view ((reconciled E N (Suc n) req ^^ 3) w)) = None)"
proof -
  have "dismantling E orig (view w)"
    using assms(5)
    by (induction rule: rtranclp_induct)
      (use assms(3,4) dismantles_dismantling [OF assms(1,2)] in \<open>auto simp: dismantling_def [of E orig "view w0"] remains_def\<close>)
  moreover have "left (view w) < 3" by (simp add: left_def)
  ultimately show ?thesis using wp_dismantled [OF assms(1,2)] reconciled_departs [OF assms(1,2)] by blast
qed

section \<open>A cluster in memory\<close>

definition dismantling_env :: "take_down_view env" where
  "dismantling_env = idle\<lparr>
     api_getInventory := (\<lambda>k w. (case w_inv w of None \<Rightarrow> Inl not_found | Some i \<Rightarrow> Inr i, w)),
     api_listAdopted := (\<lambda>ns w. (Inr (w_adopted w), w)),
     api_getDeployment := (\<lambda>k w. (Inr (w_dep w), w)),
     api_updateDeployment := (\<lambda>d w. (Inr d, w\<lparr>w_dep := d\<rparr>)),
     api_getSecret := (\<lambda>k w. (case w_sec w of None \<Rightarrow> Inl not_found | Some sec \<Rightarrow> Inr sec, w)),
     api_deleteSecret := (\<lambda>sec w. (None, w\<lparr>w_sec := None\<rparr>)),
     api_getConfigMap := (\<lambda>k w. (case w_cm w of None \<Rightarrow> Inl not_found | Some cm \<Rightarrow> Inr cm, w)),
     api_deleteConfigMap := (\<lambda>cm w. (None, w\<lparr>w_cm := None\<rparr>)),
     api_updateInventory := (\<lambda>x w. (Inr x, w\<lparr>w_inv := if om_finalizers (inv_meta x) = [] then None else Some x\<rparr>)),
     api_statusUpdateInventory := (\<lambda>x w. if w_inv w = None then (Inl not_found, w) else (Inr x, w\<lparr>w_inv := Some x\<rparr>))\<rparr>"

definition leaving_sample :: rds_inventory where
  "leaving_sample = sample_inventory\<lparr>inv_meta := (sample_meta ''inventory'' [inventoryFinalizer])\<lparr>om_deletionTimestamp := Some 7\<rparr>\<rparr>"

definition last_state :: "nat \<Rightarrow> take_down_view" where
  "last_state r = \<lparr>w_inv = Some leaving_sample, w_adopted = [],
     w_dep = \<lparr>dep_meta = empty_meta, dep_replicas = Some (of_nat r), dep_readyReplicas = 0\<rparr>, w_sec = None, w_cm = None\<rparr>"

lemma dismantling_env_facts:
  "takes_down dismantling_env (\<lambda>w. w) not_found N req leaving_sample" "finalizer_list dismantling_env"
  "leaving_inv leaving_sample leaving_sample"
proof -
  show "takes_down dismantling_env (\<lambda>w. w) not_found N req leaving_sample"
    by (simp add: takes_down_def dismantling_env_def idle_def not_found_def split: option.split)
  show "finalizer_list dismantling_env" by (simp add: finalizer_list_def dismantling_env_def idle_def)
  show "leaving_inv leaving_sample leaving_sample"
    by (simp add: leaving_inv_def leaving_sample_def sample_meta_def time_IsZero_def)
qed

text \<open>The last reconciliation, after someone scaled the deployment up again.\<close>

lemma inventory_deletion_completes_example:
  "wp (Reconcile_inventory dismantling_env ''ack-system'' 1 (sample_key ''inventory''))
     (\<lambda>f t. r_err t = Some not_found \<and> w_inv (world t) = None) (init_inv (last_state 1))"
proof -
  have "dismantles dismantling_env (\<lambda>w. w) ''ack-system'' (Suc 0) (sample_key ''inventory'') leaving_sample
      (last_state 0) (last_state 1)"
    by (rule dismantles.others) (simp_all add: last_state_def)
  then have "(dismantles dismantling_env (\<lambda>w. w) ''ack-system'' (Suc 0) (sample_key ''inventory'') leaving_sample)\<^sup>*\<^sup>*
      (last_state 0) (last_state 1)" ..
  from inventory_deletion_completes [OF dismantling_env_facts(1,2) _ dismantling_env_facts(3) this]
  have "wp (Reconcile_inventory dismantling_env ''ack-system'' (Suc 0) (sample_key ''inventory''))
      (\<lambda>f t. f = Stop \<and> dismantled dismantling_env (\<lambda>w. w) not_found leaving_sample (last_state 1) t) (init_inv (last_state 1))"
    by (simp add: last_state_def)
  from this [unfolded One_nat_def] show ?thesis
    unfolding One_nat_def by (rule wp_mono) (auto simp: dismantled_def last_state_def)
qed

end
