(* ===== verification/DeepCopy.thy ===== *)
theory DeepCopy
  imports "HOL-Library.Monad_Syntax" Main
begin

text \<open>
  The deep-copy methods of the three resources and their lists
  (\<open>api/v1alpha1/zz_generated.deepcopy.go\<close>), over an explicit store: the client hands out objects
  of a shared cache, and a controller that changes one relies on having its own copy.

  A struct of another module (metadata, specification, status) is a value of a type \<open>'v\<close> with
  references into the store; its own \<open>DeepCopyInto\<close> is a parameter.
\<close>

section \<open>The store\<close>

type_synonym addr = nat

record type_meta =
  tm_kind :: string
  tm_apiVersion :: string

text \<open>\<open>RDSConnection\<close>, \<open>RDSInstance\<close> and \<open>RDSInventory\<close> have the same four fields, and so have their lists.\<close>

record 'v resource =
  TypeMeta :: type_meta
  ObjectMeta :: 'v
  Spec :: 'v
  Status :: 'v

text \<open>A slice is nil, or the address of its array; the generated code slices whole arrays only.\<close>

record 'v resource_list =
  TypeMeta_list :: type_meta
  ListMeta :: 'v
  Items :: "addr option"

text \<open>What a cell holds: an object, a list object, the array of a slice, or data of another module.\<close>

datatype ('v, 'o) cell =
    Object "'v resource"
  | ListObject "'v resource_list"
  | Array "'v resource list"
  | Foreign 'o

record ('v, 'o) store =
  cells :: "addr \<Rightarrow> ('v, 'o) cell option"
  lim :: addr

abbreviation used :: "('v, 'o) store \<Rightarrow> addr set" where "used h \<equiv> dom (cells h)"

definition wf_store :: "('v, 'o) store \<Rightarrow> bool" where
  "wf_store h \<longleftrightarrow> (\<forall>a \<in> used h. a < lim h)"

definition alloc :: "('v, 'o) cell \<Rightarrow> ('v, 'o) store \<Rightarrow> addr \<times> ('v, 'o) store" where
  "alloc c h = (lim h, h\<lparr>cells := (cells h)(lim h \<mapsto> c), lim := Suc (lim h)\<rparr>)"

definition write_cell :: "addr \<Rightarrow> ('v, 'o) cell \<Rightarrow> ('v, 'o) store \<Rightarrow> ('v, 'o) store" where
  "write_cell a c h = h\<lparr>cells := (cells h)(a \<mapsto> c)\<rparr>"

text \<open>
  A pointer to a resource points to an object or to an element of an array. Reading or writing
  through a pointer that is not one is a panic, \<open>None\<close>.
\<close>

datatype pointer = To addr | Elem addr nat

fun load :: "('v, 'o) store \<Rightarrow> pointer \<Rightarrow> 'v resource option" where
  "load h (To a) = (case cells h a of Some (Object r) \<Rightarrow> Some r | _ \<Rightarrow> None)"
| "load h (Elem a i) =
     (case cells h a of Some (Array rs) \<Rightarrow> if i < length rs then Some (rs ! i) else None | _ \<Rightarrow> None)"

fun assign :: "pointer \<Rightarrow> 'v resource \<Rightarrow> ('v, 'o) store \<Rightarrow> ('v, 'o) store option" where
  "assign (To a) r h = (case cells h a of Some (Object _) \<Rightarrow> Some (write_cell a (Object r) h) | _ \<Rightarrow> None)"
| "assign (Elem a i) r h =
     (case cells h a of
        Some (Array rs) \<Rightarrow> if i < length rs then Some (write_cell a (Array (rs[i := r])) h) else None
      | _ \<Rightarrow> None)"

definition load_list :: "('v, 'o) store \<Rightarrow> addr \<Rightarrow> 'v resource_list option" where
  "load_list h a = (case cells h a of Some (ListObject l) \<Rightarrow> Some l | _ \<Rightarrow> None)"

definition assign_list :: "addr \<Rightarrow> 'v resource_list \<Rightarrow> ('v, 'o) store \<Rightarrow> ('v, 'o) store option" where
  "assign_list a l h = (case cells h a of Some (ListObject _) \<Rightarrow> Some (write_cell a (ListObject l) h) | _ \<Rightarrow> None)"

definition load_array :: "('v, 'o) store \<Rightarrow> addr \<Rightarrow> 'v resource list option" where
  "load_array h a = (case cells h a of Some (Array rs) \<Rightarrow> Some rs | _ \<Rightarrow> None)"

section \<open>The generated methods\<close>

type_synonym ('v, 'o) copier = "'v \<Rightarrow> ('v, 'o) store \<Rightarrow> 'v \<times> ('v, 'o) store"

text \<open>The \<open>DeepCopyInto\<close> methods of the other modules, and the zero values of the structs.\<close>

record ('v, 'o) copiers =
  copy_ObjectMeta :: "('v, 'o) copier"
  copy_ListMeta :: "('v, 'o) copier"
  copy_DBaaSConnectionStatus :: "('v, 'o) copier"
  copy_DBaaSInstanceSpec :: "('v, 'o) copier"
  copy_DBaaSInstanceStatus :: "('v, 'o) copier"
  copy_DBaaSInventorySpec :: "('v, 'o) copier"
  copy_DBaaSInventoryStatus :: "('v, 'o) copier"
  zero_resource :: "'v resource"
  zero_list :: "'v resource_list"

text \<open>\<open>out.F = in.F\<close>, and \<open>in.F.DeepCopyInto(&out.F)\<close>.\<close>

definition set_field ::
  "('v resource \<Rightarrow> 'v resource \<Rightarrow> 'v resource) \<Rightarrow> pointer \<Rightarrow> pointer \<Rightarrow> ('v, 'o) store \<Rightarrow> ('v, 'o) store option" where
  "set_field f inp out h = do { r \<leftarrow> load h inp; old \<leftarrow> load h out; assign out (f r old) h }"

definition copy_field ::
  "('v, 'o) copier \<Rightarrow> ('v resource \<Rightarrow> 'v) \<Rightarrow> ('v \<Rightarrow> 'v resource \<Rightarrow> 'v resource) \<Rightarrow>
   pointer \<Rightarrow> pointer \<Rightarrow> ('v, 'o) store \<Rightarrow> ('v, 'o) store option" where
  "copy_field copy get upd inp out h = do {
     r \<leftarrow> load h inp;
     (case copy (get r) h of (v, h1) \<Rightarrow> do { old \<leftarrow> load h1 out; assign out (upd v old) h1 })
   }"

definition set_all :: "pointer \<Rightarrow> pointer \<Rightarrow> ('v, 'o) store \<Rightarrow> ('v, 'o) store option" where
  "set_all = set_field (\<lambda>r _. r)"

definition set_TypeMeta :: "pointer \<Rightarrow> pointer \<Rightarrow> ('v, 'o) store \<Rightarrow> ('v, 'o) store option" where
  "set_TypeMeta = set_field (\<lambda>r old. old\<lparr>TypeMeta := TypeMeta r\<rparr>)"

abbreviation set_ObjectMeta :: "'v \<Rightarrow> 'v resource \<Rightarrow> 'v resource" where "set_ObjectMeta v r \<equiv> r\<lparr>ObjectMeta := v\<rparr>"
abbreviation set_Spec :: "'v \<Rightarrow> 'v resource \<Rightarrow> 'v resource" where "set_Spec v r \<equiv> r\<lparr>Spec := v\<rparr>"
abbreviation set_Status :: "'v \<Rightarrow> 'v resource \<Rightarrow> 'v resource" where "set_Status v r \<equiv> r\<lparr>Status := v\<rparr>"

definition RDSConnection_DeepCopyInto ::
  "('v, 'o) copiers \<Rightarrow> pointer \<Rightarrow> pointer \<Rightarrow> ('v, 'o) store \<Rightarrow> ('v, 'o) store option" where
  "RDSConnection_DeepCopyInto C inp out h = do {
     h \<leftarrow> set_all inp out h;
     h \<leftarrow> set_TypeMeta inp out h;
     h \<leftarrow> copy_field (copy_ObjectMeta C) ObjectMeta set_ObjectMeta inp out h;
     h \<leftarrow> set_field (\<lambda>r old. old\<lparr>Spec := Spec r\<rparr>) inp out h;
     copy_field (copy_DBaaSConnectionStatus C) Status set_Status inp out h
   }"

definition RDSInstance_DeepCopyInto ::
  "('v, 'o) copiers \<Rightarrow> pointer \<Rightarrow> pointer \<Rightarrow> ('v, 'o) store \<Rightarrow> ('v, 'o) store option" where
  "RDSInstance_DeepCopyInto C inp out h = do {
     h \<leftarrow> set_all inp out h;
     h \<leftarrow> set_TypeMeta inp out h;
     h \<leftarrow> copy_field (copy_ObjectMeta C) ObjectMeta set_ObjectMeta inp out h;
     h \<leftarrow> copy_field (copy_DBaaSInstanceSpec C) Spec set_Spec inp out h;
     copy_field (copy_DBaaSInstanceStatus C) Status set_Status inp out h
   }"

definition RDSInventory_DeepCopyInto ::
  "('v, 'o) copiers \<Rightarrow> pointer \<Rightarrow> pointer \<Rightarrow> ('v, 'o) store \<Rightarrow> ('v, 'o) store option" where
  "RDSInventory_DeepCopyInto C inp out h = do {
     h \<leftarrow> set_all inp out h;
     h \<leftarrow> set_TypeMeta inp out h;
     h \<leftarrow> copy_field (copy_ObjectMeta C) ObjectMeta set_ObjectMeta inp out h;
     h \<leftarrow> copy_field (copy_DBaaSInventorySpec C) Spec set_Spec inp out h;
     copy_field (copy_DBaaSInventoryStatus C) Status set_Status inp out h
   }"

text \<open>
  The generator writes the other methods from one pattern each: \<open>DeepCopy\<close> of a pointer that may
  be nil, the same as an interface value, and the three methods of a list.
\<close>

type_synonym ('v, 'o) into = "pointer \<Rightarrow> pointer \<Rightarrow> ('v, 'o) store \<Rightarrow> ('v, 'o) store option"

definition new_copy ::
  "('v, 'o) into \<Rightarrow> ('v, 'o) copiers \<Rightarrow> pointer option \<Rightarrow> ('v, 'o) store \<Rightarrow> (pointer option \<times> ('v, 'o) store) option" where
  "new_copy into C inp h =
     (case inp of
        None \<Rightarrow> Some (None, h)
      | Some p \<Rightarrow>
          (case alloc (Object (zero_resource C)) h of
             (out, h) \<Rightarrow> do { h \<leftarrow> into p (To out) h; Some (Some (To out), h) }))"

text \<open>An interface value that is nil, or holds a pointer.\<close>

definition as_object :: "('p option \<times> 's) option \<Rightarrow> ('p option \<times> 's) option" where
  "as_object res = do { (c, h) \<leftarrow> res; (case c of Some p \<Rightarrow> Some (Some p, h) | None \<Rightarrow> Some (None, h)) }"

primrec copy_elements ::
  "('v, 'o) into \<Rightarrow> addr \<Rightarrow> addr \<Rightarrow> nat \<Rightarrow> nat \<Rightarrow> ('v, 'o) store \<Rightarrow> ('v, 'o) store option" where
  "copy_elements into a b i 0 h = Some h"
| "copy_elements into a b i (Suc n) h = do { h \<leftarrow> into (Elem a i) (Elem b i) h; copy_elements into a b (Suc i) n h }"

text \<open>\<open>out.Items = make([]T, len(in.Items))\<close> and the loop.\<close>

definition copy_items ::
  "('v, 'o) into \<Rightarrow> ('v, 'o) copiers \<Rightarrow> addr \<Rightarrow> addr \<Rightarrow> ('v, 'o) store \<Rightarrow> ('v, 'o) store option" where
  "copy_items into C a out h = do {
     rs \<leftarrow> load_array h a;
     (case alloc (Array (replicate (length rs) (zero_resource C))) h of (b, h) \<Rightarrow> do {
        old \<leftarrow> load_list h out;
        h \<leftarrow> assign_list out (old\<lparr>Items := Some b\<rparr>) h;
        copy_elements into a b 0 (length rs) h })
   }"

definition list_into ::
  "('v, 'o) into \<Rightarrow> ('v, 'o) copiers \<Rightarrow> addr \<Rightarrow> addr \<Rightarrow> ('v, 'o) store \<Rightarrow> ('v, 'o) store option" where
  "list_into into C inp out h = do {
     l \<leftarrow> load_list h inp;
     h \<leftarrow> assign_list out l h;
     l \<leftarrow> load_list h inp;
     old \<leftarrow> load_list h out;
     h \<leftarrow> assign_list out (old\<lparr>TypeMeta_list := TypeMeta_list l\<rparr>) h;
     l \<leftarrow> load_list h inp;
     (case copy_ListMeta C (ListMeta l) h of (v, h) \<Rightarrow> do {
        old \<leftarrow> load_list h out;
        h \<leftarrow> assign_list out (old\<lparr>ListMeta := v\<rparr>) h;
        l \<leftarrow> load_list h inp;
        (case Items l of None \<Rightarrow> Some h | Some a \<Rightarrow> copy_items into C a out h) })
   }"

definition new_list_copy ::
  "(addr \<Rightarrow> addr \<Rightarrow> ('v, 'o) store \<Rightarrow> ('v, 'o) store option) \<Rightarrow> ('v, 'o) copiers \<Rightarrow> addr option \<Rightarrow>
   ('v, 'o) store \<Rightarrow> (addr option \<times> ('v, 'o) store) option" where
  "new_list_copy into C inp h =
     (case inp of
        None \<Rightarrow> Some (None, h)
      | Some p \<Rightarrow>
          (case alloc (ListObject (zero_list C)) h of
             (out, h) \<Rightarrow> do { h \<leftarrow> into p out h; Some (Some out, h) }))"

definition RDSConnection_DeepCopy where
  "RDSConnection_DeepCopy C = new_copy (RDSConnection_DeepCopyInto C) C"
definition RDSConnection_DeepCopyObject where
  "RDSConnection_DeepCopyObject C inp h = as_object (RDSConnection_DeepCopy C inp h)"
definition RDSConnectionList_DeepCopyInto where
  "RDSConnectionList_DeepCopyInto C = list_into (RDSConnection_DeepCopyInto C) C"
definition RDSConnectionList_DeepCopy where
  "RDSConnectionList_DeepCopy C = new_list_copy (RDSConnectionList_DeepCopyInto C) C"
definition RDSConnectionList_DeepCopyObject where
  "RDSConnectionList_DeepCopyObject C inp h = as_object (RDSConnectionList_DeepCopy C inp h)"

definition RDSInstance_DeepCopy where
  "RDSInstance_DeepCopy C = new_copy (RDSInstance_DeepCopyInto C) C"
definition RDSInstance_DeepCopyObject where
  "RDSInstance_DeepCopyObject C inp h = as_object (RDSInstance_DeepCopy C inp h)"
definition RDSInstanceList_DeepCopyInto where
  "RDSInstanceList_DeepCopyInto C = list_into (RDSInstance_DeepCopyInto C) C"
definition RDSInstanceList_DeepCopy where
  "RDSInstanceList_DeepCopy C = new_list_copy (RDSInstanceList_DeepCopyInto C) C"
definition RDSInstanceList_DeepCopyObject where
  "RDSInstanceList_DeepCopyObject C inp h = as_object (RDSInstanceList_DeepCopy C inp h)"

definition RDSInventory_DeepCopy where
  "RDSInventory_DeepCopy C = new_copy (RDSInventory_DeepCopyInto C) C"
definition RDSInventory_DeepCopyObject where
  "RDSInventory_DeepCopyObject C inp h = as_object (RDSInventory_DeepCopy C inp h)"
definition RDSInventoryList_DeepCopyInto where
  "RDSInventoryList_DeepCopyInto C = list_into (RDSInventory_DeepCopyInto C) C"
definition RDSInventoryList_DeepCopy where
  "RDSInventoryList_DeepCopy C = new_list_copy (RDSInventoryList_DeepCopyInto C) C"
definition RDSInventoryList_DeepCopyObject where
  "RDSInventoryList_DeepCopyObject C inp h = as_object (RDSInventoryList_DeepCopy C inp h)"

end
