(* ===== verification/DeepCopyFacts.thy ===== *)
theory DeepCopyFacts
  imports DeepCopy
begin

text \<open>
  A deep copy is the same value and shares no cell with what was there before: first for one field,
  then for a resource, an array and a list, under the contract \<open>deep_copier\<close> that the
  \<open>DeepCopyInto\<close> of each kind meets.
\<close>

section \<open>Values and cells\<close>

text \<open>
  What a value of another module stands for (\<open>deep\<close>) and which cells it uses (\<open>reach\<close>) are
  parameters, as is its copier. \<open>readings_ok\<close>: both depend on those cells only. \<open>copies\<close>: a copier
  allocates, leaves the cells there were alone, and gives an equal value in new cells.
\<close>

definition agree :: "addr set \<Rightarrow> ('v, 'o) store \<Rightarrow> ('v, 'o) store \<Rightarrow> bool" where
  "agree A h h' \<longleftrightarrow> (\<forall>a \<in> A. cells h' a = cells h a)"

lemma agreeD: "agree A h h' \<Longrightarrow> a \<in> A \<Longrightarrow> cells h' a = cells h a"
  by (simp add: agree_def)

lemma agree_mono: "agree A h h' \<Longrightarrow> B \<subseteq> A \<Longrightarrow> agree B h h'"
  by (auto simp: agree_def)

lemma agree_trans: "agree A h h' \<Longrightarrow> agree A h' h'' \<Longrightarrow> agree A h h''"
  by (simp add: agree_def)

definition readings_ok :: "(('v, 'o) store \<Rightarrow> 'v \<Rightarrow> 'a) \<Rightarrow> (('v, 'o) store \<Rightarrow> 'v \<Rightarrow> addr set) \<Rightarrow> bool" where
  "readings_ok deep reach \<longleftrightarrow> (\<forall>h h' v. agree (reach h v) h h' \<longrightarrow> deep h' v = deep h v \<and> reach h' v = reach h v)"

definition copies ::
  "(('v, 'o) store \<Rightarrow> 'v \<Rightarrow> 'a) \<Rightarrow> (('v, 'o) store \<Rightarrow> 'v \<Rightarrow> addr set) \<Rightarrow> ('v, 'o) copier \<Rightarrow> bool" where
  "copies deep reach copy \<longleftrightarrow> (\<forall>h v. wf_store h \<longrightarrow> reach h v \<subseteq> used h \<longrightarrow>
     (case copy v h of (v', h') \<Rightarrow> wf_store h' \<and> agree (used h) h h' \<and> deep h' v' = deep h v \<and>
        reach h' v' \<subseteq> used h' - used h))"

definition copiers_ok ::
  "('v, 'o) copiers \<Rightarrow> (('v, 'o) store \<Rightarrow> 'v \<Rightarrow> 'a) \<Rightarrow> (('v, 'o) store \<Rightarrow> 'v \<Rightarrow> addr set) \<Rightarrow> bool" where
  "copiers_ok C deep reach \<longleftrightarrow> readings_ok deep reach \<and> copies deep reach (copy_ObjectMeta C) \<and>
     copies deep reach (copy_ListMeta C) \<and> copies deep reach (copy_DBaaSConnectionStatus C) \<and>
     copies deep reach (copy_DBaaSInstanceSpec C) \<and> copies deep reach (copy_DBaaSInstanceStatus C) \<and>
     copies deep reach (copy_DBaaSInventorySpec C) \<and> copies deep reach (copy_DBaaSInventoryStatus C)"

text \<open>The value of a resource, and the cells it uses beside the one it is in.\<close>

definition deep_resource :: "(('v, 'o) store \<Rightarrow> 'v \<Rightarrow> 'a) \<Rightarrow> ('v, 'o) store \<Rightarrow> 'v resource \<Rightarrow> 'a resource" where
  "deep_resource deep h r = \<lparr>TypeMeta = TypeMeta r, ObjectMeta = deep h (ObjectMeta r), Spec = deep h (Spec r),
     Status = deep h (Status r)\<rparr>"

definition reach_resource :: "(('v, 'o) store \<Rightarrow> 'v \<Rightarrow> addr set) \<Rightarrow> ('v, 'o) store \<Rightarrow> 'v resource \<Rightarrow> addr set" where
  "reach_resource reach h r = reach h (ObjectMeta r) \<union> reach h (Spec r) \<union> reach h (Status r)"

definition items_of :: "('v, 'o) store \<Rightarrow> 'v resource_list \<Rightarrow> 'v resource list option" where
  "items_of h l = (case Items l of None \<Rightarrow> None | Some a \<Rightarrow> load_array h a)"

definition deep_list ::
  "(('v, 'o) store \<Rightarrow> 'v \<Rightarrow> 'a) \<Rightarrow> ('v, 'o) store \<Rightarrow> 'v resource_list \<Rightarrow> type_meta \<times> 'a \<times> 'a resource list option" where
  "deep_list deep h l = (TypeMeta_list l, deep h (ListMeta l), map_option (map (deep_resource deep h)) (items_of h l))"

definition reach_list :: "(('v, 'o) store \<Rightarrow> 'v \<Rightarrow> addr set) \<Rightarrow> ('v, 'o) store \<Rightarrow> 'v resource_list \<Rightarrow> addr set" where
  "reach_list reach h l = reach h (ListMeta l) \<union> set_option (Items l) \<union>
     (case items_of h l of None \<Rightarrow> {} | Some rs \<Rightarrow> (\<Union>r \<in> set rs. reach_resource reach h r))"

text \<open>A slice that is not nil has its array.\<close>

definition valid_items :: "('v, 'o) store \<Rightarrow> 'v resource_list \<Rightarrow> bool" where
  "valid_items h l \<longleftrightarrow> (Items l = None) = (items_of h l = None)"

text \<open>
  The specification of a connection has no references, which is why the generator assigns it: a
  hypothesis where connections are copied.
\<close>

definition flat_spec :: "(('v, 'o) store \<Rightarrow> 'v \<Rightarrow> addr set) \<Rightarrow> ('v, 'o) store \<Rightarrow> 'v resource \<Rightarrow> bool" where
  "flat_spec reach h r \<longleftrightarrow> reach h (Spec r) = {}"

definition any_spec :: "(('v, 'o) store \<Rightarrow> 'v \<Rightarrow> addr set) \<Rightarrow> ('v, 'o) store \<Rightarrow> 'v resource \<Rightarrow> bool" where
  "any_spec reach h r \<longleftrightarrow> True"

lemma lim_fresh: "wf_store h \<Longrightarrow> lim h \<notin> used h"
  by (auto simp: wf_store_def)

text \<open>A list object gets a new array.\<close>

lemma new_array:
  fixes y bs
  assumes "wf_store h" "cells h out = Some (ListObject x)"
  defines "h' \<equiv> write_cell out (ListObject y) (snd (alloc (Array bs) h))"
  shows "wf_store h'" "agree (used h - {out}) h h'" "used h' = insert (lim h) (used h)"
    "cells h' (lim h) = Some (Array bs)" "cells h' out = Some (ListObject y)"
proof -
  have out: "out \<in> used h" "out \<noteq> lim h" using assms(2) lim_fresh [OF assms(1)] by auto
  have c: "cells h' = (cells h)(lim h \<mapsto> Array bs, out \<mapsto> ListObject y)" "lim h' = Suc (lim h)"
    by (simp_all add: h'_def write_cell_def alloc_def)
  show u: "used h' = insert (lim h) (used h)" using out(1) by (auto simp: c(1))
  show "wf_store h'" using assms(1) unfolding wf_store_def u c(2) by (auto intro: less_SucI)
  show "agree (used h - {out}) h h'" using lim_fresh [OF assms(1)] by (auto simp: agree_def c(1))
  show "cells h' (lim h) = Some (Array bs)" "cells h' out = Some (ListObject y)" using out(2) by (simp_all add: c(1))
qed

section \<open>Copying a field\<close>

fun cell_of :: "pointer \<Rightarrow> addr" where
  "cell_of (To a) = a"
| "cell_of (Elem a i) = a"

text \<open>The target holds \<open>r\<close>: the cell is as it was in \<open>h0\<close> but for what the pointer points to.\<close>

definition holds :: "('v, 'o) store \<Rightarrow> pointer \<Rightarrow> 'v resource \<Rightarrow> ('v, 'o) store \<Rightarrow> bool" where
  "holds h0 out r h \<longleftrightarrow> (\<exists>h1. assign out r h0 = Some h1 \<and> cells h (cell_of out) = cells h1 (cell_of out))"

text \<open>From \<open>h0\<close> to \<open>h\<close> only the target was written and cells were added.\<close>

definition only_target :: "pointer \<Rightarrow> ('v, 'o) store \<Rightarrow> ('v, 'o) store \<Rightarrow> bool" where
  "only_target out h0 h \<longleftrightarrow> wf_store h \<and> agree (used h0 - {cell_of out}) h0 h \<and> used h0 \<subseteq> used h"

definition copied ::
  "(('v, 'o) store \<Rightarrow> 'v \<Rightarrow> 'a) \<Rightarrow> (('v, 'o) store \<Rightarrow> 'v \<Rightarrow> addr set) \<Rightarrow> ('v, 'o) store \<Rightarrow> ('v, 'o) store \<Rightarrow> 'v \<Rightarrow> 'v \<Rightarrow> bool" where
  "copied deep reach h0 h w v \<longleftrightarrow> deep h v = deep h0 w \<and> reach h v \<subseteq> used h - used h0"

lemma holds_load [simp]: "holds h0 out r h \<Longrightarrow> load h out = Some r"
  by (cases out) (auto simp: holds_def write_cell_def split: option.splits cell.splits if_splits)

lemma assign_frame:
  assumes "assign out r h = Some h'"
  shows "agree (used h - {cell_of out}) h h'" "used h' = used h" "lim h' = lim h"
  using assms
  by (cases out; auto simp: agree_def write_cell_def dom_def split: option.splits cell.splits if_splits)+

lemma holds_again:
  assumes "holds h0 out r h"
  shows "\<exists>h'. assign out r' h = Some h' \<and> holds h0 out r' h'"
  using assms
  by (cases out) (auto simp: holds_def write_cell_def split: option.splits cell.splits if_splits)

lemma holds_assign:
  assumes "holds h0 out r h" "only_target out h0 h"
  shows "\<exists>h'. assign out r' h = Some h' \<and> holds h0 out r' h' \<and> only_target out h0 h' \<and>
    agree (used h - {cell_of out}) h h' \<and> used h' = used h"
proof -
  obtain h' where h': "assign out r' h = Some h'" "holds h0 out r' h'" using holds_again [OF assms(1)] by blast
  note frame = assign_frame [OF h'(1)]
  have "wf_store h'" using assms(2) frame(2,3) by (simp add: only_target_def wf_store_def)
  moreover have "agree (used h0 - {cell_of out}) h0 h'"
    by (rule agree_trans [OF _ agree_mono [OF frame(1)]]) (use assms(2) in \<open>unfold only_target_def, blast+\<close>)
  moreover have "used h0 \<subseteq> used h'" using assms(2) frame(2) by (simp add: only_target_def)
  ultimately have "only_target out h0 h'" by (simp add: only_target_def)
  then show ?thesis using h' frame(1,2) by blast
qed

lemma load_other:
  assumes "load h0 inp = Some r" "cell_of inp \<noteq> cell_of out" "only_target out h0 h"
  shows "load h inp = Some r"
proof -
  have "cell_of inp \<in> used h0" using assms(1) by (cases inp) (auto split: option.splits)
  then have "cells h (cell_of inp) = cells h0 (cell_of inp)"
    using assms(2,3) by (auto simp: only_target_def intro: agreeD)
  then show ?thesis using assms(1) by (cases inp) simp_all
qed

lemma holds_used: "holds h0 out r h \<Longrightarrow> cell_of out \<in> used h0"
  by (cases out) (auto simp: holds_def split: option.splits)

lemma copied_later:
  assumes "readings_ok deep reach" "copied deep reach h0 h w v" "c \<in> used h0" "agree (used h - {c}) h h'" "used h \<subseteq> used h'"
  shows "copied deep reach h0 h' w v"
proof -
  have "agree (reach h v) h h'" using assms(2,3) by (intro agree_mono [OF assms(4)]) (auto simp: copied_def)
  then have "deep h' v = deep h v \<and> reach h' v = reach h v" using assms(1) unfolding readings_ok_def by blast
  then show ?thesis using assms(2,5) by (simp add: copied_def) blast
qed

lemma copied_base:
  "copied deep reach h1 h' w v \<Longrightarrow> used h \<subseteq> used h1 \<Longrightarrow> deep h1 w = deep h w \<Longrightarrow> copied deep reach h h' w v"
  by (simp add: copied_def) blast

lemma copy_field_step:
  assumes ok: "readings_ok deep reach" "copies deep reach copy"
    and inp: "load h0 inp = Some r" "cell_of inp \<noteq> cell_of out" "reach h0 (get r) \<subseteq> used h0 - {cell_of out}"
    and out: "holds h0 out old h" "only_target out h0 h"
  shows "\<exists>v h'. copy_field copy get upd inp out h = Some h' \<and> holds h0 out (upd v old) h' \<and> only_target out h0 h' \<and>
    copied deep reach h0 h' (get r) v \<and> agree (used h - {cell_of out}) h h' \<and> used h \<subseteq> used h'"
proof -
  obtain v h1 where c: "copy (get r) h = (v, h1)" by fastforce
  have "agree (reach h0 (get r)) h0 h" using out(2) inp(3) agree_mono unfolding only_target_def by blast
  then have same: "deep h (get r) = deep h0 (get r)" "reach h (get r) = reach h0 (get r)"
    using ok(1) unfolding readings_ok_def by blast+
  have "wf_store h" "reach h (get r) \<subseteq> used h" using same(2) inp(3) out(2) unfolding only_target_def by blast+
  then have "wf_store h1 \<and> agree (used h) h h1 \<and> deep h1 v = deep h (get r) \<and> reach h1 v \<subseteq> used h1 - used h"
    using ok(2) [unfolded copies_def, THEN spec, THEN spec, of h "get r"] c by simp
  then have h1: "wf_store h1" "agree (used h) h h1" "deep h1 v = deep h0 (get r)" "reach h1 v \<subseteq> used h1 - used h"
    using same(1) by simp_all
  have grow: "used h \<subseteq> used h1" using agreeD [OF h1(2)] by (auto simp: domIff)
  have at: "cell_of out \<in> used h0" by (rule holds_used [OF out(1)])
  have "agree (used h0 - {cell_of out}) h h1" "agree (used h0 - {cell_of out}) h0 h" "used h0 \<subseteq> used h"
    using out(2) agree_mono [OF h1(2), of "used h0 - {cell_of out}"] by (auto simp: only_target_def)
  then have "only_target out h0 h1" using h1(1) grow agree_trans by (auto simp: only_target_def)
  moreover have "holds h0 out old h1"
  proof -
    have "cell_of out \<in> used h" using at out(2) unfolding only_target_def by blast
    then show ?thesis using out(1) agreeD [OF h1(2)] by (simp add: holds_def)
  qed
  ultimately obtain h' where h': "assign out (upd v old) h1 = Some h'" "holds h0 out (upd v old) h'" "only_target out h0 h'"
    "agree (used h1 - {cell_of out}) h1 h'" "used h' = used h1" and old: "load h1 out = Some old"
    using holds_assign [of h0 out old h1 "upd v old"] by auto
  have "copied deep reach h0 h1 (get r) v"
    using h1(3,4) out(2) unfolding copied_def only_target_def by blast
  then have "copied deep reach h0 h' (get r) v"
    by (rule copied_later [OF ok(1) _ at h'(4)]) (simp add: h'(5))
  moreover have "agree (used h - {cell_of out}) h h'"
    by (rule agree_trans [OF agree_mono [OF h1(2)] agree_mono [OF h'(4)]]) (use grow in auto)
  moreover have "copy_field copy get upd inp out h = Some h'"
    by (simp add: copy_field_def load_other [OF inp(1,2) out(2)] c old h'(1))
  ultimately show ?thesis using h'(2,3,5) grow by blast
qed

lemma set_field_step:
  assumes "load h0 inp = Some r" "cell_of inp \<noteq> cell_of out" "holds h0 out old h" "only_target out h0 h"
  shows "\<exists>h'. set_field f inp out h = Some h' \<and> holds h0 out (f r old) h' \<and> only_target out h0 h' \<and>
    agree (used h - {cell_of out}) h h' \<and> used h' = used h"
  using holds_assign [OF assms(3,4), of "f r old"] assms(3)
  by (auto simp: set_field_def load_other [OF assms(1,2,4)])

section \<open>Copying a resource\<close>

definition copied_resource ::
  "(('v, 'o) store \<Rightarrow> 'v \<Rightarrow> 'a) \<Rightarrow> (('v, 'o) store \<Rightarrow> 'v \<Rightarrow> addr set) \<Rightarrow>
   ('v, 'o) store \<Rightarrow> ('v, 'o) store \<Rightarrow> 'v resource \<Rightarrow> 'v resource \<Rightarrow> bool" where
  "copied_resource deep reach h0 h r new \<longleftrightarrow> TypeMeta new = TypeMeta r \<and>
     copied deep reach h0 h (ObjectMeta r) (ObjectMeta new) \<and> copied deep reach h0 h (Spec r) (Spec new) \<and>
     copied deep reach h0 h (Status r) (Status new)"

lemma copied_resource_later:
  assumes "readings_ok deep reach" "copied_resource deep reach h0 h r new" "c \<in> used h0" "agree (used h - {c}) h h'" "used h \<subseteq> used h'"
  shows "copied_resource deep reach h0 h' r new"
  using assms(2) copied_later [OF assms(1) _ assms(3-5)] by (simp add: copied_resource_def)

lemma copied_resource_value:
  assumes "copied_resource deep reach h0 h r new"
  shows "deep_resource deep h new = deep_resource deep h0 r" "reach_resource reach h new \<subseteq> used h - used h0"
  using assms by (auto simp: copied_resource_def copied_def deep_resource_def reach_resource_def)

text \<open>A specification without references is copied by assignment.\<close>

lemma copied_flat: "readings_ok deep reach \<Longrightarrow> reach h0 v = {} \<Longrightarrow> copied deep reach h0 h v v"
  unfolding readings_ok_def copied_def agree_def by blast

lemma holds_start:
  assumes "load h out = Some r"
  shows "holds h out r h"
  using assms
  by (cases out) (auto simp: holds_def write_cell_def split: option.splits cell.splits if_splits)

lemma only_target_start: "wf_store h \<Longrightarrow> only_target out h h"
  by (simp add: only_target_def agree_def)

text \<open>What every \<open>DeepCopyInto\<close> of a resource promises.\<close>

definition copies_into ::
  "(('v, 'o) store \<Rightarrow> 'v \<Rightarrow> 'a) \<Rightarrow> (('v, 'o) store \<Rightarrow> 'v \<Rightarrow> addr set) \<Rightarrow>
   (('v, 'o) store \<Rightarrow> 'v resource \<Rightarrow> bool) \<Rightarrow> ('v, 'o) into \<Rightarrow> bool" where
  "copies_into deep reach fit into \<longleftrightarrow> (\<forall>h0 inp out r old. wf_store h0 \<longrightarrow> load h0 inp = Some r \<longrightarrow>
     load h0 out = Some old \<longrightarrow> cell_of inp \<noteq> cell_of out \<longrightarrow> reach_resource reach h0 r \<subseteq> used h0 - {cell_of out} \<longrightarrow>
     fit h0 r \<longrightarrow> (\<exists>new h. into inp out h0 = Some h \<and> holds h0 out new h \<and> only_target out h0 h \<and>
        copied_resource deep reach h0 h r new))"

lemma copies_intoD:
  assumes "copies_into deep reach fit into" "wf_store h0" "load h0 inp = Some r" "load h0 out = Some old"
    "cell_of inp \<noteq> cell_of out" "reach_resource reach h0 r \<subseteq> used h0 - {cell_of out}" "fit h0 r"
  shows "\<exists>new h. into inp out h0 = Some h \<and> holds h0 out new h \<and> only_target out h0 h \<and>
        copied_resource deep reach h0 h r new"
  using assms unfolding copies_into_def by blast

text \<open>The specification's step is what differs between the kinds.\<close>

definition copies_spec where
  "copies_spec deep reach inp out r h0 step \<longleftrightarrow> (\<forall>old h. holds h0 out old h \<longrightarrow> only_target out h0 h \<longrightarrow>
     (\<exists>p h'. step h = Some h' \<and> holds h0 out (old\<lparr>Spec := p\<rparr>) h' \<and> only_target out h0 h' \<and>
        copied deep reach h0 h' (Spec r) p \<and> agree (used h - {cell_of out}) h h' \<and> used h \<subseteq> used h'))"

lemma copy_fields:
  assumes ok: "readings_ok deep reach" "copies deep reach cm" "copies deep reach ct"
    and s: "wf_store h0" "load h0 inp = Some r" "load h0 out = Some old" "cell_of inp \<noteq> cell_of out"
    and fits: "reach_resource reach h0 r \<subseteq> used h0 - {cell_of out}"
    and spec: "copies_spec deep reach inp out r h0 step"
  shows "\<exists>new h. do {
       h \<leftarrow> set_all inp out h0;
       h \<leftarrow> set_TypeMeta inp out h;
       h \<leftarrow> copy_field cm ObjectMeta set_ObjectMeta inp out h;
       h \<leftarrow> step h;
       copy_field ct Status set_Status inp out h
     } = Some h \<and> holds h0 out new h \<and> only_target out h0 h \<and> copied_resource deep reach h0 h r new"
proof -
  have fit: "reach h0 (ObjectMeta r) \<subseteq> used h0 - {cell_of out}" "reach h0 (Status r) \<subseteq> used h0 - {cell_of out}"
    using fits by (auto simp: reach_resource_def)
  note at = holds_used [OF holds_start [OF s(3)]]
  obtain h1 where h1: "set_all inp out h0 = Some h1" "holds h0 out r h1" "only_target out h0 h1"
    using set_field_step [OF s(2,4) holds_start [OF s(3)] only_target_start [OF s(1)], of "\<lambda>r _. r"]
    by (auto simp: set_all_def)
  obtain h2 where h2: "set_TypeMeta inp out h1 = Some h2" "holds h0 out r h2" "only_target out h0 h2"
    using set_field_step [OF s(2,4) h1(2,3), of "\<lambda>r old. old\<lparr>TypeMeta := TypeMeta r\<rparr>"] by (auto simp: set_TypeMeta_def)
  obtain m h3 where h3: "copy_field cm ObjectMeta set_ObjectMeta inp out h2 = Some h3" "holds h0 out (r\<lparr>ObjectMeta := m\<rparr>) h3"
    "only_target out h0 h3" "copied deep reach h0 h3 (ObjectMeta r) m"
    using copy_field_step [where get = ObjectMeta and upd = set_ObjectMeta, OF ok(1,2) s(2,4) fit(1) h2(2,3)] by blast
  obtain p h4 where h4: "step h3 = Some h4" "holds h0 out (r\<lparr>ObjectMeta := m, Spec := p\<rparr>) h4"
    "only_target out h0 h4" "copied deep reach h0 h4 (Spec r) p" "agree (used h3 - {cell_of out}) h3 h4" "used h3 \<subseteq> used h4"
    using spec h3(2,3) unfolding copies_spec_def by blast
  obtain t h5 where h5: "copy_field ct Status set_Status inp out h4 = Some h5"
    "holds h0 out (r\<lparr>ObjectMeta := m, Spec := p, Status := t\<rparr>) h5"
    "only_target out h0 h5" "copied deep reach h0 h5 (Status r) t" "agree (used h4 - {cell_of out}) h4 h5" "used h4 \<subseteq> used h5"
    using copy_field_step [where get = Status and upd = set_Status, OF ok(1,3) s(2,4) fit(2) h4(2,3)] by blast
  note later = copied_later [OF ok(1) _ at]
  have "copied deep reach h0 h5 (ObjectMeta r) m" "copied deep reach h0 h5 (Spec r) p"
    using later [OF later [OF h3(4) h4(5,6)] h5(5,6)] later [OF h4(4) h5(5,6)] by auto
  then show ?thesis
    using h1(1) h2(1) h3(1) h4(1) h5 by (auto simp: copied_resource_def)
qed

lemma copies_spec_deeply:
  assumes "readings_ok deep reach" "copies deep reach cs" "load h0 inp = Some r" "cell_of inp \<noteq> cell_of out"
    and "reach_resource reach h0 r \<subseteq> used h0 - {cell_of out}"
  shows "copies_spec deep reach inp out r h0 (copy_field cs Spec set_Spec inp out)"
  unfolding copies_spec_def
  by (intro allI impI copy_field_step [where get = Spec, OF assms(1-4)])
    (use assms(5) in \<open>auto simp: reach_resource_def\<close>)

lemma copies_spec_flat:
  assumes "readings_ok deep reach" "load h0 inp = Some r" "cell_of inp \<noteq> cell_of out" "flat_spec reach h0 r"
  shows "copies_spec deep reach inp out r h0 (set_field (\<lambda>r old. old\<lparr>Spec := Spec r\<rparr>) inp out)"
proof -
  have "copied deep reach h0 h (Spec r) (Spec r)" for h
    using assms(4) copied_flat [OF assms(1)] by (simp add: flat_spec_def)
  then show ?thesis
    using set_field_step [OF assms(2,3), of _ _ "\<lambda>r old. old\<lparr>Spec := Spec r\<rparr>"]
    unfolding copies_spec_def by (metis subset_refl)
qed

lemma RDSConnection_copies:
  assumes "copiers_ok C deep reach"
  shows "copies_into deep reach (flat_spec reach) (RDSConnection_DeepCopyInto C)"
  using assms unfolding copies_into_def RDSConnection_DeepCopyInto_def copiers_ok_def
  by (intro allI impI copy_fields copies_spec_flat) auto

lemma RDSInstance_copies:
  assumes "copiers_ok C deep reach"
  shows "copies_into deep reach (any_spec reach) (RDSInstance_DeepCopyInto C)"
  using assms unfolding copies_into_def RDSInstance_DeepCopyInto_def copiers_ok_def
  by (intro allI impI copy_fields copies_spec_deeply) auto

lemma RDSInventory_copies:
  assumes "copiers_ok C deep reach"
  shows "copies_into deep reach (any_spec reach) (RDSInventory_DeepCopyInto C)"
  using assms unfolding copies_into_def RDSInventory_DeepCopyInto_def copiers_ok_def
  by (intro allI impI copy_fields copies_spec_deeply) auto

section \<open>Copying lists\<close>

lemma readings_field:
  assumes "readings_ok deep reach" "agree (reach_resource reach h r) h h'" "v \<in> {ObjectMeta r, Spec r, Status r}"
  shows "deep h' v = deep h v \<and> reach h' v = reach h v"
proof -
  have "reach h v \<subseteq> reach_resource reach h r" using assms(3) by (auto simp: reach_resource_def)
  then show ?thesis using assms(1) agree_mono [OF assms(2)] unfolding readings_ok_def by blast
qed

lemma readings_resource:
  assumes "readings_ok deep reach" "agree (reach_resource reach h r) h h'"
  shows "deep_resource deep h' r = deep_resource deep h r" "reach_resource reach h' r = reach_resource reach h r"
    "flat_spec reach h' r = flat_spec reach h r"
  using readings_field [OF assms] by (simp_all add: deep_resource_def reach_resource_def flat_spec_def)

lemma holds_Elem:
  assumes "holds h (Elem b i) new h1" "cells h b = Some (Array bs)"
  shows "cells h1 b = Some (Array (bs[i := new]))" "i < length bs"
  using assms by (auto simp: holds_def write_cell_def split: if_splits)

lemma readings_list:
  assumes "readings_ok deep reach" "agree (reach_list reach h l) h h'"
  shows "deep_list deep h' l = deep_list deep h l"
proof -
  have "agree (reach h (ListMeta l)) h h'" by (rule agree_mono [OF assms(2)]) (simp add: reach_list_def Un_assoc)
  then have meta: "deep h' (ListMeta l) = deep h (ListMeta l)" using assms(1) unfolding readings_ok_def by blast
  have items: "items_of h' l = items_of h l"
    using agreeD [OF assms(2)] by (auto simp: items_of_def load_array_def reach_list_def split: option.split)
  have "deep_resource deep h' r = deep_resource deep h r" if "items_of h l = Some rs" "r \<in> set rs" for rs r
    by (rule readings_resource(1) [OF assms(1) agree_mono [OF assms(2)]]) (use that in \<open>auto simp: reach_list_def\<close>)
  then show ?thesis by (cases "items_of h l") (simp_all add: deep_list_def meta items)
qed

text \<open>What is read through a pointer, and a pointer to something complete.\<close>

definition reads_resource where
  "reads_resource deep h p = map_option (deep_resource deep h) (load h p)"

definition reads_list where
  "reads_list deep h p = map_option (deep_list deep h) (load_list h p)"

definition resource_at where
  "resource_at reach h p r \<longleftrightarrow> wf_store h \<and> load h p = Some r \<and> reach_resource reach h r \<subseteq> used h"

definition list_at where
  "list_at reach h p l \<longleftrightarrow> wf_store h \<and> load_list h p = Some l \<and> reach_list reach h l \<subseteq> used h \<and> valid_items h l"

text \<open>
  A copy \<open>q\<close> in \<open>h'\<close> of \<open>p\<close> in \<open>h\<close>: whatever happens later to other cells than those of the original
  (the copy's among them), the original reads as before, and whatever happens to the cells that
  were there before, the copy reads as the original did.
\<close>

definition independent_copy where
  "independent_copy reads h p q h' \<longleftrightarrow>
     (\<forall>h''. agree (used h) h' h'' \<longrightarrow> reads h'' p = reads h p) \<and>
     (\<forall>h''. agree (used h' - used h) h' h'' \<longrightarrow> reads h'' q = reads h p)"

lemma load_agree: "load h p = Some r \<Longrightarrow> cells h' (cell_of p) = cells h (cell_of p) \<Longrightarrow> load h' p = Some r"
  by (cases p) simp_all

lemma load_used: "load h p = Some r \<Longrightarrow> cell_of p \<in> used h"
  by (cases p) (auto split: option.splits)

lemma load_list_agree: "load_list h p = Some l \<Longrightarrow> cells h' p = cells h p \<Longrightarrow> load_list h' p = Some l"
  by (simp add: load_list_def)

lemma load_list_used: "load_list h p = Some l \<Longrightarrow> p \<in> used h"
  by (auto simp: load_list_def split: option.splits)

lemma independent_resource:
  assumes "readings_ok deep reach" "resource_at reach h p r" "agree (used h) h h'"
    and "load h' q = Some new" "deep_resource deep h' new = deep_resource deep h r"
    and "insert (cell_of q) (reach_resource reach h' new) \<subseteq> used h' - used h"
  shows "independent_copy (reads_resource deep) h p q h'"
  unfolding independent_copy_def
proof (intro conjI allI impI)
  have p: "load h p = Some r" "reach_resource reach h r \<subseteq> used h" using assms(2) by (simp_all add: resource_at_def)
  fix h'' assume "agree (used h) h' h''"
  with assms(3) have ag: "agree (used h) h h''" by (rule agree_trans)
  show "reads_resource deep h'' p = reads_resource deep h p"
    using load_agree [OF p(1) agreeD [OF ag load_used [OF p(1)]]] p(1) readings_resource(1) [OF assms(1) agree_mono [OF ag p(2)]]
    by (simp add: reads_resource_def)
next
  fix h'' assume ag: "agree (used h' - used h) h' h''"
  have q: "cell_of q \<in> used h' - used h" "reach_resource reach h' new \<subseteq> used h' - used h" using assms(6) by blast+
  show "reads_resource deep h'' q = reads_resource deep h p"
    using load_agree [OF assms(4) agreeD [OF ag q(1)]] assms(2,5) readings_resource(1) [OF assms(1) agree_mono [OF ag q(2)]]
    by (simp add: reads_resource_def resource_at_def)
qed

lemma independent_list:
  assumes "readings_ok deep reach" "list_at reach h p l" "agree (used h) h h'"
    and "load_list h' q = Some new" "deep_list deep h' new = deep_list deep h l"
    and "insert q (reach_list reach h' new) \<subseteq> used h' - used h"
  shows "independent_copy (reads_list deep) h p q h'"
  unfolding independent_copy_def
proof (intro conjI allI impI)
  have p: "load_list h p = Some l" "reach_list reach h l \<subseteq> used h" using assms(2) by (simp_all add: list_at_def)
  fix h'' assume "agree (used h) h' h''"
  with assms(3) have ag: "agree (used h) h h''" by (rule agree_trans)
  show "reads_list deep h'' p = reads_list deep h p"
    using load_list_agree [OF p(1) agreeD [OF ag load_list_used [OF p(1)]]] p(1) readings_list [OF assms(1) agree_mono [OF ag p(2)]]
    by (simp add: reads_list_def)
next
  fix h'' assume ag: "agree (used h' - used h) h' h''"
  have q: "q \<in> used h' - used h" "reach_list reach h' new \<subseteq> used h' - used h" using assms(6) by blast+
  show "reads_list deep h'' q = reads_list deep h p"
    using load_list_agree [OF assms(4) agreeD [OF ag q(1)]] assms(2,5) readings_list [OF assms(1) agree_mono [OF ag q(2)]]
    by (simp add: reads_list_def list_at_def)
qed

lemma alloc_frame:
  assumes "wf_store h" "alloc c h = (a, h')"
  shows "wf_store h'" "agree (used h) h h'" "used h' = insert a (used h)" "a \<notin> used h" "cells h' a = Some c"
proof -
  have c: "a = lim h" "cells h' = (cells h)(lim h \<mapsto> c)" "lim h' = Suc (lim h)" using assms(2) by (auto simp: alloc_def)
  show "a \<notin> used h" "cells h' a = Some c" "used h' = insert a (used h)" using lim_fresh [OF assms(1)] by (simp_all add: c)
  then show "wf_store h'" using assms(1) unfolding wf_store_def c(1,3) by (auto intro: less_SucI)
  show "agree (used h) h h'" using lim_fresh [OF assms(1)] unfolding agree_def c(2) by (metis fun_upd_other)
qed

text \<open>
  The contract of a kind's \<open>DeepCopyInto\<close>; \<open>fit\<close> is what the kind asks of the resources it copies.
\<close>

locale deep_copier =
  fixes C :: "('v, 'o) copiers"
    and deep :: "('v, 'o) store \<Rightarrow> 'v \<Rightarrow> 'a"
    and reach :: "('v, 'o) store \<Rightarrow> 'v \<Rightarrow> addr set"
    and fit :: "('v, 'o) store \<Rightarrow> 'v resource \<Rightarrow> bool"
    and into :: "('v, 'o) into"
  assumes into_copies: "copiers_ok C deep reach \<Longrightarrow> copies_into deep reach fit into"
    and fit_reads: "readings_ok deep reach \<Longrightarrow> agree (reach_resource reach h r) h h' \<Longrightarrow> fit h' r = fit h r"
begin

definition copyable :: "('v, 'o) store \<Rightarrow> addr \<Rightarrow> 'v resource \<Rightarrow> bool" where
  "copyable h b r \<longleftrightarrow> reach_resource reach h r \<subseteq> used h - {b} \<and> fit h r"

lemma copyable_later:
  assumes "readings_ok deep reach" "copyable h b r" "agree (used h - {b}) h h'" "used h \<subseteq> used h'"
  shows "copyable h' b r" "deep_resource deep h' r = deep_resource deep h r"
proof -
  have a: "agree (reach_resource reach h r) h h'"
    using assms(2) agree_mono [OF assms(3)] by (simp add: copyable_def)
  note same = readings_resource [OF assms(1) a]
  show "deep_resource deep h' r = deep_resource deep h r" by (rule same(1))
  show "copyable h' b r"
    using assms(2,4) fit_reads [OF assms(1) a] unfolding copyable_def same(2) by blast
qed

lemma copied_resource_earlier:
  assumes "readings_ok deep reach" "copied_resource deep reach h1 h' r new" "copyable h b r"
    "agree (used h - {b}) h h1" "used h \<subseteq> used h1"
  shows "copied_resource deep reach h h' r new"
proof -
  have a: "agree (reach_resource reach h r) h h1"
    using assms(3) agree_mono [OF assms(4)] by (simp add: copyable_def)
  show ?thesis
    using assms(2) readings_field [OF assms(1) a] by (auto simp: copied_resource_def intro: copied_base [OF _ assms(5)])
qed

lemma copy_elements_copies:
  assumes ok: "copiers_ok C deep reach"
    and "wf_store h" "cells h a = Some (Array rs)" "cells h b = Some (Array bs)" "a \<noteq> b"
    and "i + n = length rs" "length bs = length rs" "\<forall>r \<in> set rs. copyable h b r"
  shows "\<exists>new h'. copy_elements into a b i n h = Some h' \<and> only_target (To b) h h' \<and>
    cells h' b = Some (Array (take i bs @ new)) \<and> list_all2 (copied_resource deep reach h h') (drop i rs) new"
  using assms(2-)
proof (induction n arbitrary: i bs h)
  case 0
  then show ?case by (simp add: only_target_start)
next
  case (Suc n)
  have ro: "readings_ok deep reach" using ok by (simp add: copiers_ok_def)
  have i: "i < length rs" using Suc.prems(5) by simp
  have r: "copyable h b (rs ! i)" using Suc.prems(7) i by simp
  obtain x h1 where h1: "into (Elem a i) (Elem b i) h = Some h1" "holds h (Elem b i) x h1" "only_target (Elem b i) h h1"
    "copied_resource deep reach h h1 (rs ! i) x"
    using copies_intoD [OF into_copies [OF ok], of h "Elem a i" "rs ! i" "Elem b i" "bs ! i"] Suc.prems i r
    by (auto simp: copyable_def)
  have o1: "wf_store h1" "agree (used h - {b}) h h1" "used h \<subseteq> used h1" using h1(3) by (simp_all add: only_target_def)
  have arr: "cells h1 a = Some (Array rs)" "cells h1 b = Some (Array (bs[i := x]))"
    using Suc.prems(2,4) agreeD [OF o1(2), of a] holds_Elem [OF h1(2) Suc.prems(3)] by auto
  have "\<forall>r \<in> set rs. copyable h1 b r" using Suc.prems(7) copyable_later(1) [OF ro _ o1(2,3)] by blast
  then obtain new h' where h': "copy_elements into a b (Suc i) n h1 = Some h'" "only_target (To b) h1 h'"
    "cells h' b = Some (Array (take (Suc i) (bs[i := x]) @ new))"
    "list_all2 (copied_resource deep reach h1 h') (drop (Suc i) rs) new"
    using Suc.IH [of h1 "bs[i := x]" "Suc i"] Suc.prems(4-6) o1(1) arr by auto
  have o2: "wf_store h'" "agree (used h1 - {b}) h1 h'" "used h1 \<subseteq> used h'" using h'(2) by (simp_all add: only_target_def)
  have "agree (used h - {b}) h h'"
    by (rule agree_trans [OF o1(2) agree_mono [OF o2(2)]]) (use o1(3) in blast)
  then have "only_target (To b) h h'" using o1(3) o2(1,3) unfolding only_target_def by auto
  moreover have "copied_resource deep reach h h' (rs ! i) x"
    using copied_resource_later [OF ro h1(4) _ o2(2,3)] Suc.prems(3) by blast
  moreover have "list_all2 (copied_resource deep reach h h') (drop (Suc i) rs) new"
    by (rule list.rel_mono_strong [OF h'(4)])
      (use Suc.prems(7) in \<open>blast dest: in_set_dropD intro: copied_resource_earlier [OF ro _ _ o1(2,3)]\<close>)
  moreover have "take (Suc i) (bs[i := x]) @ new = take i bs @ x # new"
    using i Suc.prems(6) by (simp add: take_Suc_conv_app_nth)
  moreover have "drop i rs = rs ! i # drop (Suc i) rs" using i by (simp add: Cons_nth_drop_Suc)
  ultimately show ?case using h1(1) h'(1,3) by (auto intro!: exI [of _ "x # new"])
qed

lemma copy_items_copies:
  assumes ok: "copiers_ok C deep reach" and h2: "only_target (To out) h h2" "cells h2 out = Some (ListObject x)" "out \<in> used h"
    and a: "cells h a = Some (Array rs)" "a \<noteq> out" "\<forall>r \<in> set rs. copyable h out r"
  shows "\<exists>b new h4. copy_items into C a out h2 = Some h4 \<and> only_target (To out) h h4 \<and>
    agree (used h2 - {out}) h2 h4 \<and> used h2 \<subseteq> used h4 \<and> cells h4 out = Some (ListObject (x\<lparr>Items := Some b\<rparr>)) \<and>
    b \<in> used h4 - used h \<and> cells h4 b = Some (Array new) \<and>
    list_all2 (\<lambda>r y. deep_resource deep h4 y = deep_resource deep h r \<and> reach_resource reach h4 y \<subseteq> used h4 - used h) rs new"
proof -
  have ro: "readings_ok deep reach" using ok by (simp add: copiers_ok_def)
  have o2: "wf_store h2" "agree (used h - {out}) h h2" "used h \<subseteq> used h2" using h2(1) by (simp_all add: only_target_def)
  let ?b = "lim h2" and ?bs = "replicate (length rs) (zero_resource C)"
  define h3 where "h3 = write_cell out (ListObject (x\<lparr>Items := Some ?b\<rparr>)) (snd (alloc (Array ?bs) h2))"
  note h3 = new_array [OF o2(1) h2(2), of "x\<lparr>Items := Some ?b\<rparr>" ?bs, folded h3_def]
  have b: "?b \<notin> used h2" "?b \<noteq> out" "?b \<noteq> a" using lim_fresh [OF o2(1)] h2(3) a(1) o2(3) by auto
  have a2: "cells h2 a = Some (Array rs)" "a \<in> used h2" using agreeD [OF o2(2), of a] a o2(3) by auto
  then have a3: "cells h3 a = Some (Array rs)" using agreeD [OF h3(2), of a] a(2) by simp
  have o3: "agree (used h - {out}) h h3" "used h \<subseteq> used h3"
    using agree_trans [OF o2(2) agree_mono [OF h3(2)]] o2(3) h3(3) by blast+
  have fit3: "copyable h3 ?b r" "deep_resource deep h3 r = deep_resource deep h r" if "r \<in> set rs" for r
  proof -
    have "copyable h out r" using a(3) that by blast
    then have ag: "agree (reach_resource reach h r) h h3" "reach_resource reach h r \<subseteq> used h" "fit h r"
      using agree_mono [OF o3(1)] by (auto simp: copyable_def)
    note same = readings_resource [OF ro ag(1)]
    show "deep_resource deep h3 r = deep_resource deep h r" by (rule same(1))
    show "copyable h3 ?b r"
      using ag(2,3) fit_reads [OF ro ag(1)] o2(3) b(1) o3(2) unfolding copyable_def same(2) by blast
  qed
  obtain new h4 where h4: "copy_elements into a ?b 0 (length rs) h3 = Some h4" "only_target (To ?b) h3 h4"
    "cells h4 ?b = Some (Array new)" "list_all2 (copied_resource deep reach h3 h4) rs new"
    using copy_elements_copies [OF ok h3(1) a3 h3(4), of 0 "length rs"] b(3) fit3(1) by auto
  have o4: "wf_store h4" "agree (used h3 - {?b}) h3 h4" "used h3 \<subseteq> used h4" using h4(2) by (simp_all add: only_target_def)
  have "agree (used h2 - {out}) h3 h4" by (rule agree_mono [OF o4(2)]) (use h3(3) b(1) in blast)
  then have 24: "agree (used h2 - {out}) h2 h4" using agree_trans [OF h3(2)] by blast
  have "agree (used h - {out}) h h4" by (rule agree_trans [OF o2(2) agree_mono [OF 24]]) (use o2(3) in blast)
  moreover have "used h2 \<subseteq> used h4" using h3(3) o4(3) by blast
  moreover have "used h \<subseteq> used h4" using o2(3) calculation(2) by blast
  moreover have "cells h4 out = Some (ListObject (x\<lparr>Items := Some ?b\<rparr>))"
    using agreeD [OF o4(2), of out] h3(5) b(2) by (simp add: domI)
  moreover have "copy_items into C a out h2 = Some h4"
    using a2(1) h2(2) b(2) h4(1) h3_def
    by (simp add: copy_items_def load_array_def load_list_def assign_list_def alloc_def write_cell_def)
  moreover have "list_all2 (\<lambda>r y. deep_resource deep h4 y = deep_resource deep h r \<and>
      reach_resource reach h4 y \<subseteq> used h4 - used h) rs new"
    by (rule list.rel_mono_strong [OF h4(4)]) (use copied_resource_value fit3(2) o3(2) in fastforce)
  moreover have "?b \<in> used h4 - used h" using h4(3) b(1) o2(3) by blast
  ultimately show ?thesis using 24 o4(1) h4(3) by (auto simp: only_target_def)
qed

lemma list_head_copies:
  assumes ok: "copiers_ok C deep reach" and wf: "wf_store h"
    and l: "load_list h inp = Some l" "load_list h out = Some old" "inp \<noteq> out" "reach h (ListMeta l) \<subseteq> used h - {out}"
  shows "\<exists>v h2. list_into into C inp out h = (case Items l of None \<Rightarrow> Some h2 | Some a \<Rightarrow> copy_items into C a out h2) \<and>
    cells h2 out = Some (ListObject (l\<lparr>ListMeta := v\<rparr>)) \<and> only_target (To out) h h2 \<and> copied deep reach h h2 (ListMeta l) v"
proof -
  have ro: "readings_ok deep reach" "copies deep reach (copy_ListMeta C)" using ok by (simp_all add: copiers_ok_def)
  have c: "cells h inp = Some (ListObject l)" "cells h out = Some (ListObject old)"
    using l(1,2) by (auto simp: load_list_def split: option.splits cell.splits)
  define w where "w = write_cell out (ListObject l) h"
  have cw: "cells w = (cells h)(out \<mapsto> ListObject l)" "lim w = lim h" by (simp_all add: w_def write_cell_def)
  have w: "used w = used h" "wf_store w" using c(2) wf by (auto simp: cw wf_store_def)
  have "agree (reach h (ListMeta l)) h w" using l(4) by (auto simp: agree_def cw)
  then have same: "deep w (ListMeta l) = deep h (ListMeta l)" "reach w (ListMeta l) = reach h (ListMeta l)"
    using ro(1) unfolding readings_ok_def by blast+
  have reach_w: "reach w (ListMeta l) \<subseteq> used w" using l(4) w(1) same(2) by blast
  obtain v h1 where v: "copy_ListMeta C (ListMeta l) w = (v, h1)" by fastforce
  have h1: "wf_store h1" "agree (used h) w h1" "deep h1 v = deep h (ListMeta l)" "reach h1 v \<subseteq> used h1 - used h"
    using ro(2) [unfolded copies_def, THEN spec, THEN spec, of w "ListMeta l"] v w same reach_w by simp_all
  have at1: "cells h1 out = Some (ListObject l)" "\<And>a. a \<in> used h - {out} \<Longrightarrow> cells h1 a = cells h a"
    using agreeD [OF h1(2), of out] agreeD [OF h1(2)] c(2) by (simp_all add: cw domI)
  have grow: "used h \<subseteq> used h1" using agreeD [OF h1(2)] w(1) by (metis domIff subsetI)
  define h2 where "h2 = write_cell out (ListObject (l\<lparr>ListMeta := v\<rparr>)) h1"
  have c2: "cells h2 = (cells h1)(out \<mapsto> ListObject (l\<lparr>ListMeta := v\<rparr>))" "lim h2 = lim h1"
    by (simp_all add: h2_def write_cell_def)
  have u2: "used h2 = used h1" using at1(1) by (auto simp: c2)
  have "only_target (To out) h h2"
    using h1(1) at1(2) grow u2 by (auto simp: only_target_def wf_store_def agree_def c2)
  moreover have "copied deep reach h h2 (ListMeta l) v"
    by (rule copied_later [OF ro(1), of _ h1 _ _ out])
      (use h1(3,4) c(2) u2 in \<open>auto simp: copied_def agree_def c2\<close>)
  moreover have "list_into into C inp out h = (case Items l of None \<Rightarrow> Some h2 | Some a \<Rightarrow> copy_items into C a out h2)"
  proof -
    have "cells h1 inp = Some (ListObject l)" using at1(2) [of inp] c(1) l(3) by auto
    then show ?thesis
      using c l(3) v at1(1) h2_def w_def
      by (simp add: list_into_def load_list_def assign_list_def write_cell_def split: option.split)
  qed
  moreover have "cells h2 out = Some (ListObject (l\<lparr>ListMeta := v\<rparr>))" by (simp add: c2)
  ultimately show ?thesis by blast
qed

lemma list_into_copies:
  assumes ok: "copiers_ok C deep reach" and wf: "wf_store h"
    and inp: "load_list h inp = Some l" and out: "load_list h out = Some old" "inp \<noteq> out"
    and fits: "reach_list reach h l \<subseteq> used h - {out}" "valid_items h l" "\<forall>rs. items_of h l = Some rs \<longrightarrow> (\<forall>r \<in> set rs. fit h r)"
  shows "\<exists>l' h'. list_into into C inp out h = Some h' \<and> load_list h' out = Some l' \<and> only_target (To out) h h' \<and>
    deep_list deep h' l' = deep_list deep h l \<and> reach_list reach h' l' \<subseteq> used h' - used h"
proof -
  have ro: "readings_ok deep reach" using ok by (simp add: copiers_ok_def)
  have at: "out \<in> used h" using out(1) by (auto simp: load_list_def split: option.splits)
  have "reach h (ListMeta l) \<subseteq> used h - {out}" using fits(1) unfolding reach_list_def by blast
  then obtain v h2 where run: "list_into into C inp out h = (case Items l of None \<Rightarrow> Some h2 | Some a \<Rightarrow> copy_items into C a out h2)"
    and h2: "cells h2 out = Some (ListObject (l\<lparr>ListMeta := v\<rparr>))" "only_target (To out) h h2" "copied deep reach h h2 (ListMeta l) v"
    using list_head_copies [OF ok wf inp out] by blast
  show ?thesis
  proof (cases "Items l")
    case None
    then show ?thesis
      using run h2 by (auto simp: load_list_def deep_list_def reach_list_def items_of_def copied_def)
  next
    case (Some a)
    obtain rs where rs: "items_of h l = Some rs" "cells h a = Some (Array rs)"
      using fits(2) Some by (auto simp: valid_items_def items_of_def load_array_def split: option.splits cell.splits)
    have a: "a \<noteq> out" "\<forall>r \<in> set rs. copyable h out r"
      using fits(1,3) rs(1) Some unfolding reach_list_def copyable_def by auto
    obtain b new h4 where h4: "copy_items into C a out h2 = Some h4" "only_target (To out) h h4"
      "agree (used h2 - {out}) h2 h4" "used h2 \<subseteq> used h4"
      and l4: "cells h4 out = Some (ListObject (l\<lparr>ListMeta := v, Items := Some b\<rparr>))" "b \<in> used h4 - used h" "cells h4 b = Some (Array new)"
      and new: "list_all2 (\<lambda>r y. deep_resource deep h4 y = deep_resource deep h r \<and> reach_resource reach h4 y \<subseteq> used h4 - used h) rs new"
      using copy_items_copies [OF ok h2(2,1) at rs(2) a] by blast
    let ?l = "l\<lparr>ListMeta := v, Items := Some b\<rparr>"
    have v4: "copied deep reach h h4 (ListMeta l) v" by (rule copied_later [OF ro h2(3) at h4(3,4)])
    have items: "items_of h4 ?l = Some new" using l4(3) by (simp add: items_of_def load_array_def)
    have "map (deep_resource deep h4) new = map (deep_resource deep h) rs \<and>
        (\<forall>y \<in> set new. reach_resource reach h4 y \<subseteq> used h4 - used h)"
      using new by (induction rule: list_all2_induct) auto
    then have "deep_list deep h4 ?l = deep_list deep h l" "reach_list reach h4 ?l \<subseteq> used h4 - used h"
      using v4 items rs(1) l4(2) by (auto simp: deep_list_def reach_list_def copied_def)
    then show ?thesis using run Some h4(1,2) l4(1) by (auto simp: load_list_def)
  qed
qed

text \<open>From the target's only change to the whole store: the target itself is new.\<close>

lemma new_target:
  assumes "agree (used h) h h1" "used h1 = insert a (used h)" "a \<notin> used h" "only_target out h1 h2" "cell_of out = a"
  shows "agree (used h) h h2" "used h \<subseteq> used h2" "a \<in> used h2"
proof -
  have t: "agree (used h1 - {a}) h1 h2" "used h1 \<subseteq> used h2" using assms(4,5) by (simp_all add: only_target_def)
  show "agree (used h) h h2" by (rule agree_trans [OF assms(1) agree_mono [OF t(1)]]) (use assms(2,3) in blast)
  show "used h \<subseteq> used h2" "a \<in> used h2" using t(2) assms(2) by blast+
qed

lemma new_copy_copies:
  assumes ok: "copiers_ok C deep reach" and at: "resource_at reach h p r" and fits: "fit h r"
  shows "\<exists>q h'. as_object (new_copy into C (Some p) h) = Some (Some q, h') \<and> independent_copy (reads_resource deep) h p q h'"
proof -
  have ro: "readings_ok deep reach" using ok by (simp add: copiers_ok_def)
  have r: "wf_store h" "load h p = Some r" "reach_resource reach h r \<subseteq> used h" using at by (simp_all add: resource_at_def)
  obtain a h1 where a: "alloc (Object (zero_resource C)) h = (a, h1)" by fastforce
  note h1 = alloc_frame [OF r(1) a]
  have p: "cell_of p \<noteq> a" using load_used [OF r(2)] h1(4) by blast
  have "load h1 p = Some r" by (rule load_agree [OF r(2) agreeD [OF h1(2) load_used [OF r(2)]]])
  moreover have ag: "agree (reach_resource reach h r) h h1" by (rule agree_mono [OF h1(2) r(3)])
  ultimately obtain new h2 where h2: "into p (To a) h1 = Some h2" "holds h1 (To a) new h2" "only_target (To a) h1 h2"
    "copied_resource deep reach h1 h2 r new"
    using copies_intoD [OF into_copies [OF ok] h1(1), of p r "To a" "zero_resource C"] p r(3) h1(3-5) fits
      fit_reads [OF ro ag] readings_resource(2) [OF ro ag] by auto
  note t = new_target [OF h1(2,3,4) h2(3) cell_of.simps(1)]
  note new = copied_resource_value [OF h2(4)]
  have "deep_resource deep h2 new = deep_resource deep h r"
    using new(1) readings_resource(1) [OF ro ag] by simp
  moreover have "insert (cell_of (To a)) (reach_resource reach h2 new) \<subseteq> used h2 - used h"
    using new(2) h1(3,4) t(3) by auto
  ultimately have "independent_copy (reads_resource deep) h p (To a) h2"
    using independent_resource [OF ro at t(1) holds_load [OF h2(2)]] by blast
  then show ?thesis using a h2(1) by (simp add: new_copy_def as_object_def)
qed

lemma new_list_copy_copies:
  assumes ok: "copiers_ok C deep reach" and at: "list_at reach h p l"
    and fits: "\<forall>rs. items_of h l = Some rs \<longrightarrow> (\<forall>r \<in> set rs. fit h r)"
  shows "\<exists>q h'. as_object (new_list_copy (list_into into C) C (Some p) h) = Some (Some q, h') \<and>
    independent_copy (reads_list deep) h p q h'"
proof -
  have ro: "readings_ok deep reach" using ok by (simp add: copiers_ok_def)
  have l: "wf_store h" "load_list h p = Some l" "reach_list reach h l \<subseteq> used h" "valid_items h l"
    using at by (simp_all add: list_at_def)
  obtain a h1 where a: "alloc (ListObject (zero_list C)) h = (a, h1)" by fastforce
  note h1 = alloc_frame [OF l(1) a]
  have p: "p \<noteq> a" using load_list_used [OF l(2)] h1(4) by blast
  have p1: "load_list h1 p = Some l" by (rule load_list_agree [OF l(2) agreeD [OF h1(2) load_list_used [OF l(2)]]])
  have a1: "load_list h1 a = Some (zero_list C)" by (simp add: load_list_def h1(5))
  note ag = agree_mono [OF h1(2) l(3)]
  have same: "items_of h1 l = items_of h l"
    using agreeD [OF ag] by (auto simp: items_of_def load_array_def reach_list_def split: option.split)
  have fit1: "fit h1 r" "reach_resource reach h1 r = reach_resource reach h r" if "items_of h l = Some rs" "r \<in> set rs" for rs r
  proof -
    have "agree (reach_resource reach h r) h h1" by (rule agree_mono [OF ag]) (use that in \<open>auto simp: reach_list_def\<close>)
    then show "fit h1 r" "reach_resource reach h1 r = reach_resource reach h r"
      using fit_reads [OF ro] readings_resource(2) [OF ro] fits that by blast+
  qed
  have "agree (reach h (ListMeta l)) h h1" by (rule agree_mono [OF ag]) (simp add: reach_list_def Un_assoc)
  then have "reach h1 (ListMeta l) = reach h (ListMeta l)" using ro unfolding readings_ok_def by blast
  then have reach1: "reach_list reach h1 l = reach_list reach h l"
    using fit1(2) by (auto simp: reach_list_def same split: option.split)
  obtain new h2 where h2: "list_into into C p a h1 = Some h2" "load_list h2 a = Some new" "only_target (To a) h1 h2"
    "deep_list deep h2 new = deep_list deep h1 l" "reach_list reach h2 new \<subseteq> used h2 - used h1"
    using list_into_copies [OF ok h1(1) p1 a1 p] l(3,4) h1(3,4) same reach1 fit1(1) unfolding valid_items_def by auto
  note t = new_target [OF h1(2,3,4) h2(3) cell_of.simps(1)]
  have "deep_list deep h2 new = deep_list deep h l" using h2(4) readings_list [OF ro ag] by simp
  moreover have "insert a (reach_list reach h2 new) \<subseteq> used h2 - used h" using h2(5) h1(3,4) t(3) by auto
  ultimately have "independent_copy (reads_list deep) h p a h2"
    using independent_list [OF ro at t(1) h2(2)] by blast
  then show ?thesis using a h2(1) by (simp add: new_list_copy_def as_object_def)
qed

end

section \<open>The three kinds\<close>

interpretation con_copier: deep_copier C deep reach "flat_spec reach" "RDSConnection_DeepCopyInto C" for C deep reach
  by unfold_locales (simp_all add: RDSConnection_copies readings_resource)

interpretation ins_copier: deep_copier C deep reach "any_spec reach" "RDSInstance_DeepCopyInto C" for C deep reach
  by unfold_locales (simp_all add: RDSInstance_copies any_spec_def)

interpretation inv_copier: deep_copier C deep reach "any_spec reach" "RDSInventory_DeepCopyInto C" for C deep reach
  by unfold_locales (simp_all add: RDSInventory_copies any_spec_def)

text \<open>
  C16: a deep copy is a value of its own. For each of the three resources, \<open>DeepCopyObject\<close> of a
  pointer to a complete object returns a new pointer that reads the same, and whatever later
  happens through the one, the other still reads as the original did; a connection's
  specification may be assigned because it has no references.
\<close>

theorem resources_are_copied_deeply:
  assumes "copiers_ok C deep reach" "resource_at reach h p r"
  shows "(flat_spec reach h r \<longrightarrow> (\<exists>q h'. RDSConnection_DeepCopyObject C (Some p) h = Some (Some q, h') \<and>
      independent_copy (reads_resource deep) h p q h')) \<and>
    (\<exists>q h'. RDSInstance_DeepCopyObject C (Some p) h = Some (Some q, h') \<and> independent_copy (reads_resource deep) h p q h') \<and>
    (\<exists>q h'. RDSInventory_DeepCopyObject C (Some p) h = Some (Some q, h') \<and> independent_copy (reads_resource deep) h p q h')"
  using con_copier.new_copy_copies [OF assms] ins_copier.new_copy_copies [OF assms] inv_copier.new_copy_copies [OF assms]
  by (simp add: any_spec_def RDSConnection_DeepCopyObject_def RDSConnection_DeepCopy_def RDSInstance_DeepCopyObject_def
      RDSInstance_DeepCopy_def RDSInventory_DeepCopyObject_def RDSInventory_DeepCopy_def)

text \<open>
  C17: a deep copy of a list is a list of its own: with a nil slice or an array of any length, the
  copy reads the same, and later changes of the list, of its array, or of any item through the one
  are not seen through the other.
\<close>

theorem lists_are_copied_deeply:
  assumes "copiers_ok C deep reach" "list_at reach h p l"
  shows "((\<forall>rs. items_of h l = Some rs \<longrightarrow> (\<forall>r \<in> set rs. flat_spec reach h r)) \<longrightarrow>
      (\<exists>q h'. RDSConnectionList_DeepCopyObject C (Some p) h = Some (Some q, h') \<and> independent_copy (reads_list deep) h p q h')) \<and>
    (\<exists>q h'. RDSInstanceList_DeepCopyObject C (Some p) h = Some (Some q, h') \<and> independent_copy (reads_list deep) h p q h') \<and>
    (\<exists>q h'. RDSInventoryList_DeepCopyObject C (Some p) h = Some (Some q, h') \<and> independent_copy (reads_list deep) h p q h')"
  using con_copier.new_list_copy_copies [OF assms] ins_copier.new_list_copy_copies [OF assms] inv_copier.new_list_copy_copies [OF assms]
  by (simp add: any_spec_def RDSConnectionList_DeepCopyObject_def RDSConnectionList_DeepCopy_def RDSConnectionList_DeepCopyInto_def
      RDSInstanceList_DeepCopyObject_def RDSInstanceList_DeepCopy_def RDSInstanceList_DeepCopyInto_def
      RDSInventoryList_DeepCopyObject_def RDSInventoryList_DeepCopy_def RDSInventoryList_DeepCopyInto_def)

section \<open>A store with text in cells\<close>

text \<open>The data of the other modules are texts here: in the struct itself, or in a cell it refers to.\<close>

datatype data = Plain string | Boxed addr

fun boxed :: "(data, string) store \<Rightarrow> addr \<Rightarrow> string" where
  "boxed h a = (case cells h a of Some (Foreign t) \<Rightarrow> t | _ \<Rightarrow> [])"

fun text_of :: "(data, string) store \<Rightarrow> data \<Rightarrow> string" where
  "text_of h (Plain t) = t"
| "text_of h (Boxed a) = boxed h a"

fun boxes_of :: "(data, string) store \<Rightarrow> data \<Rightarrow> addr set" where
  "boxes_of h (Plain t) = {}"
| "boxes_of h (Boxed a) = {a}"

fun copy_data :: "(data, string) copier" where
  "copy_data (Plain t) h = (Plain t, h)"
| "copy_data (Boxed a) h = (case alloc (Foreign (boxed h a)) h of (b, h') \<Rightarrow> (Boxed b, h'))"

definition no_resource :: "data resource" where
  "no_resource = \<lparr>TypeMeta = \<lparr>tm_kind = [], tm_apiVersion = []\<rparr>, ObjectMeta = Plain [], Spec = Plain [], Status = Plain []\<rparr>"

definition text_copiers :: "(data, string) copiers" where
  "text_copiers = \<lparr>copy_ObjectMeta = copy_data, copy_ListMeta = copy_data, copy_DBaaSConnectionStatus = copy_data,
     copy_DBaaSInstanceSpec = copy_data, copy_DBaaSInstanceStatus = copy_data, copy_DBaaSInventorySpec = copy_data,
     copy_DBaaSInventoryStatus = copy_data, zero_resource = no_resource,
     zero_list = \<lparr>TypeMeta_list = \<lparr>tm_kind = [], tm_apiVersion = []\<rparr>, ListMeta = Plain [], Items = None\<rparr>\<rparr>"

lemma text_copiers_ok: "copiers_ok text_copiers text_of boxes_of"
proof -
  have "text_of h' v = text_of h v \<and> boxes_of h' v = boxes_of h v" if "agree (boxes_of h v) h h'" for h h' v
    using that by (cases v) (simp_all add: agree_def)
  then have "readings_ok text_of boxes_of" by (simp add: readings_ok_def)
  moreover have "case copy_data v h of (v', h') \<Rightarrow> wf_store h' \<and> agree (used h) h h' \<and> text_of h' v' = text_of h v \<and>
      boxes_of h' v' \<subseteq> used h' - used h" if "wf_store h" for h v
  proof (cases v)
    case (Boxed a)
    obtain b h' where b: "alloc (Foreign (boxed h a)) h = (b, h')" by fastforce
    then show ?thesis using alloc_frame [OF that b] by (simp add: Boxed)
  qed (simp add: that agree_def)
  then have "copies text_of boxes_of copy_data" by (simp add: copies_def)
  ultimately show ?thesis by (simp add: copiers_ok_def text_copiers_def)
qed

definition some_resource :: "addr \<Rightarrow> data resource" where
  "some_resource a = \<lparr>TypeMeta = \<lparr>tm_kind = ''RDSConnection'', tm_apiVersion = ''v1alpha1''\<rparr>,
     ObjectMeta = Boxed a, Spec = Plain ''orders'', Status = Boxed (Suc a)\<rparr>"

definition some_list :: "data resource_list" where
  "some_list = \<lparr>TypeMeta_list = \<lparr>tm_kind = ''RDSConnectionList'', tm_apiVersion = ''v1alpha1''\<rparr>,
     ListMeta = Plain ''7'', Items = Some 1\<rparr>"

text \<open>A list of two resources, and a resource by itself.\<close>

definition some_store :: "(data, string) store" where
  "some_store = \<lparr>cells = [0 \<mapsto> ListObject some_list, 1 \<mapsto> Array [some_resource 2, some_resource 4], 2 \<mapsto> Foreign ''a'',
     3 \<mapsto> Foreign ''b'', 4 \<mapsto> Foreign ''c'', 5 \<mapsto> Foreign ''d'', 6 \<mapsto> Object (some_resource 4)], lim = 7\<rparr>"

lemma some_store_used: "used some_store = {0, 1, 2, 3, 4, 5, 6}" "wf_store some_store"
proof -
  show u: "used some_store = {0, 1, 2, 3, 4, 5, 6}" by (simp add: some_store_def) blast
  show "wf_store some_store" unfolding wf_store_def u by (simp add: some_store_def)
qed

lemma resources_are_copied_deeply_example:
  "\<exists>q h'. RDSConnection_DeepCopyObject text_copiers (Some (To 6)) some_store = Some (Some q, h') \<and>
     independent_copy (reads_resource text_of) some_store (To 6) q h'"
proof -
  have "resource_at boxes_of some_store (To 6) (some_resource 4)" "flat_spec boxes_of some_store (some_resource 4)"
    by (simp_all add: resource_at_def some_store_used reach_resource_def some_resource_def flat_spec_def)
      (simp add: some_store_def some_resource_def)
  then show ?thesis using resources_are_copied_deeply [OF text_copiers_ok] by blast
qed

lemma lists_are_copied_deeply_example:
  "\<exists>q h'. RDSConnectionList_DeepCopyObject text_copiers (Some 0) some_store = Some (Some q, h') \<and>
     independent_copy (reads_list text_of) some_store 0 q h'"
proof -
  have i: "items_of some_store some_list = Some [some_resource 2, some_resource 4]"
    by (simp add: items_of_def load_array_def some_store_def some_list_def)
  have "list_at boxes_of some_store 0 some_list"
    by (simp add: list_at_def i reach_list_def valid_items_def some_store_used load_list_def reach_resource_def)
      (simp add: some_store_def some_list_def some_resource_def)
  moreover have "flat_spec boxes_of some_store (some_resource a)" for a by (simp add: flat_spec_def some_resource_def)
  ultimately show ?thesis using lists_are_copied_deeply [OF text_copiers_ok] i by auto
qed

end
