(* ===== verification/ProviderController.thy ===== *)
theory ProviderController
  imports InventoryFacts
begin

text \<open>
  The DBaaSProvider controller (\<open>controllers/dbaasprovider_controller.go\<close>): when the operator's
  own deployment is first seen it registers the operator with the DBaaS platform, by a cluster-scoped
  DBaaSProvider that describes the forms for credentials and instance parameters and that is owned
  by the operator's ClusterRole.
\<close>

section \<open>The resource\<close>

abbreviation providerKind :: string where "providerKind \<equiv> ''DBaaSProvider''"
abbreviation providerCRName :: string where "providerCRName \<equiv> ''rds-registration''"

record owner_reference =
  or_apiVersion :: string
  or_kind :: string
  or_uid :: string
  or_name :: string
  or_controller :: "bool option"
  or_blockOwnerDeletion :: "bool option"

record credential_field =
  cf_key :: string
  cf_displayName :: string
  cf_type :: string
  cf_required :: bool

record parameter_spec =
  ps_name :: string
  ps_displayName :: string
  ps_type :: string
  ps_required :: bool
  ps_defaultValue :: string

record provider =
  pr_name :: string
  pr_ownerReferences :: "owner_reference list"
  pr_labels :: smap
  pr_provider :: string
  pr_displayName :: string
  pr_displayDescription :: string
  pr_iconData :: string
  pr_iconMediaType :: string
  pr_inventoryKind :: string
  pr_connectionKind :: string
  pr_instanceKind :: string
  pr_credentialFields :: "credential_field list"
  pr_allowsFreeTrial :: bool
  pr_externalProvisionURL :: string
  pr_externalProvisionDescription :: string
  pr_instanceParameterSpecs :: "parameter_spec list"

record cluster_role =
  cr_uid :: string
  cr_name :: string

abbreviation inventoryKind :: string where "inventoryKind \<equiv> ''RDSInventory''"
abbreviation connectionKind :: string where "connectionKind \<equiv> ''RDSConnection''"
abbreviation instanceKind :: string where "instanceKind \<equiv> ''RDSInstance''"
abbreviation relatedToLabelName :: string where "relatedToLabelName \<equiv> ''related-to''"
abbreviation relatedToLabelValue :: string where "relatedToLabelValue \<equiv> ''dbaas-operator''"
abbreviation typeLabelName :: string where "typeLabelName \<equiv> ''type''"
abbreviation typeLabelValue :: string where "typeLabelValue \<equiv> ''dbaas-provider-registration''"
abbreviation provisionDocURL :: string where "provisionDocURL \<equiv> ''https://docs.aws.amazon.com/AmazonRDS/latest/UserGuide/''"
abbreviation providerTitle :: string where "providerTitle \<equiv> ''Red Hat DBaaS / Amazon Relational Database Service''"
abbreviation displayName :: string where "displayName \<equiv> ''Amazon Relational Database Service''"
abbreviation iconData :: string where "iconData \<equiv> []"
abbreviation mediaType :: string where "mediaType \<equiv> ''image/png''"

definition provider_labels :: smap where
  "provider_labels = [relatedToLabelName \<mapsto> relatedToLabelValue, typeLabelName \<mapsto> typeLabelValue]"

definition provisionDescription :: string where
  "provisionDescription = ''Amazon Relational Database Service (Amazon RDS) is a web service that makes it easier to set up, operate, and scale a relational database in the AWS Cloud. It provides cost-efficient, resizable capacity for an industry-standard relational database and manages common database administration tasks.''"

definition displayDescription :: string where
  "displayDescription = ''Amazon Relational Database Service (RDS) is a collection of managed services that makes it simple to set up, operate, and scale databases in the cloud.''"

definition credential_fields :: "credential_field list" where
  "credential_fields =
     [\<lparr>cf_key = awsAccessKeyID, cf_displayName = ''AWS Access Key ID'', cf_type = ''maskedstring'', cf_required = True\<rparr>,
      \<lparr>cf_key = awsSecretAccessKey, cf_displayName = ''AWS Secret Access Key'', cf_type = ''maskedstring'', cf_required = True\<rparr>,
      \<lparr>cf_key = awsRegion, cf_displayName = ''AWS Region'', cf_type = ''string'', cf_required = True\<rparr>,
      \<lparr>cf_key = ackResourceTags, cf_displayName = ''ACK Resource Tags'', cf_type = ''string'', cf_required = False\<rparr>,
      \<lparr>cf_key = ackLogLevel, cf_displayName = ''ACK Log Level'', cf_type = ''string'', cf_required = False\<rparr>]"

definition parameter_specs :: "parameter_spec list" where
  "parameter_specs =
     [\<lparr>ps_name = engine_key, ps_displayName = ''Engine Type'', ps_type = ''string'', ps_required = True, ps_defaultValue = []\<rparr>,
      \<lparr>ps_name = engineVersion_key, ps_displayName = ''Engine Version'', ps_type = ''string'', ps_required = False, ps_defaultValue = []\<rparr>,
      \<lparr>ps_name = dbInstanceIdentifier_key, ps_displayName = ''DB instance identifier'', ps_type = ''string'', ps_required = True, ps_defaultValue = []\<rparr>,
      \<lparr>ps_name = dbInstanceClass_key, ps_displayName = ''DB instance class'', ps_type = ''string'', ps_required = True, ps_defaultValue = []\<rparr>,
      \<lparr>ps_name = storageType_key, ps_displayName = ''Storage type'', ps_type = ''string'', ps_required = False, ps_defaultValue = ''gp2''\<rparr>,
      \<lparr>ps_name = allocatedStorage_key, ps_displayName = ''Allocated storage'', ps_type = ''int'', ps_required = True, ps_defaultValue = ''20''\<rparr>,
      \<lparr>ps_name = iops_key, ps_displayName = ''Provisioned IOPS'', ps_type = ''int'', ps_required = False, ps_defaultValue = []\<rparr>,
      \<lparr>ps_name = maxAllocatedStorage_key, ps_displayName = ''Maximum storage threshold'', ps_type = ''int'', ps_required = False, ps_defaultValue = []\<rparr>,
      \<lparr>ps_name = dbSubnetGroupName_key, ps_displayName = ''Subnet group'', ps_type = ''string'', ps_required = False, ps_defaultValue = []\<rparr>,
      \<lparr>ps_name = publiclyAccessible_key, ps_displayName = ''Public access'', ps_type = ''bool'', ps_required = False, ps_defaultValue = []\<rparr>,
      \<lparr>ps_name = vpcSecurityGroupIDs_key, ps_displayName = ''VPC security groups'', ps_type = ''string'', ps_required = False, ps_defaultValue = []\<rparr>,
      \<lparr>ps_name = licenseModel_key, ps_displayName = ''License Model'', ps_type = ''string'', ps_required = False, ps_defaultValue = []\<rparr>]"

text \<open>Made for the first ClusterRole of the list; an empty list is an index out of range (\<open>None\<close>).\<close>

definition bridgeProviderCR :: "cluster_role list \<Rightarrow> provider option" where
  "bridgeProviderCR clusterRoleList =
     (case clusterRoleList of
        [] \<Rightarrow> None
      | role # _ \<Rightarrow> Some
         \<lparr>pr_name = providerCRName,
          pr_ownerReferences = [\<lparr>or_apiVersion = ''rbac.authorization.k8s.io/v1'', or_kind = ''ClusterRole'',
            or_uid = cr_uid role, or_name = cr_name role, or_controller = Some True,
            or_blockOwnerDeletion = Some False\<rparr>],
          pr_labels = provider_labels,
          pr_provider = providerTitle,
          pr_displayName = displayName,
          pr_displayDescription = displayDescription,
          pr_iconData = iconData, pr_iconMediaType = mediaType,
          pr_inventoryKind = inventoryKind, pr_connectionKind = connectionKind, pr_instanceKind = instanceKind,
          pr_credentialFields = credential_fields,
          pr_allowsFreeTrial = False,
          pr_externalProvisionURL = provisionDocURL,
          pr_externalProvisionDescription = provisionDescription,
          pr_instanceParameterSpecs = parameter_specs\<rparr>)"

section \<open>The client\<close>

text \<open>
  What the controller calls: the cached client, the discovery client (the kinds a group version
  has), and the group version of the dbaas-operator module.
\<close>

record 'w provider_env =
  pv_groupVersion :: string
  pv_getDeployment :: "key \<Rightarrow> 'w \<Rightarrow> (error + deployment) \<times> 'w"
  pv_serverResources :: "string \<Rightarrow> 'w \<Rightarrow> (error + string list) \<times> 'w"
  pv_getProvider :: "string \<Rightarrow> 'w \<Rightarrow> (error + provider) \<times> 'w"
  pv_listClusterRoles :: "smap \<Rightarrow> 'w \<Rightarrow> (error + cluster_role list) \<times> 'w"
  pv_createProvider :: "provider \<Rightarrow> 'w \<Rightarrow> (error + provider) \<times> 'w"

datatype provider_event =
    PvGetDeployment key "error + deployment"
  | PvServerResources string "error + string list"
  | PvGetProvider string "error + provider"
  | PvListClusterRoles smap "error + cluster_role list"
  | PvCreateProvider provider "error + provider"

section \<open>Reconcile\<close>

definition checkCrdInstalled ::
  "'w provider_env \<Rightarrow> string \<Rightarrow> string \<Rightarrow> (('w, provider_event, 'm) gst_scheme, error + bool) state" where
  "checkCrdInstalled P groupVersion kind = do {
     r \<leftarrow> api_call (pv_serverResources P groupVersion) (PvServerResources groupVersion);
     State_Monad.return (case r of
        Inl e \<Rightarrow> if IsNotFound e then Inr False else Inl e
      | Inr kinds \<Rightarrow> Inr (list_ex (\<lambda>k. k = kind) kinds))
   }"

definition cluster_role_selector :: "string \<Rightarrow> smap" where
  "cluster_role_selector operatorNameVersion =
     [''olm.owner'' \<mapsto> operatorNameVersion, ''olm.owner.kind'' \<mapsto> ''ClusterServiceVersion'']"

definition no_cluster_role :: error where
  "no_cluster_role = StatusError ReasonNotFound ''ClusterRole.rbac.authorization.k8s.io \"potentialOwner\" not found''"

text \<open>The results: whether to requeue, and the error.\<close>

type_synonym 'm reconcile_result = "(('m, provider_event) gst, (bool \<times> error option) outcome) state"

definition register_provider :: "'w provider_env \<Rightarrow> string \<Rightarrow> 'w reconcile_result" where
  "register_provider P nameVersion = do {
     r \<leftarrow> api_call (pv_listClusterRoles P (cluster_role_selector nameVersion))
            (PvListClusterRoles (cluster_role_selector nameVersion));
     (case r of
        Inl e \<Rightarrow> State_Monad.return (Ret (False, Some e))
      | Inr items \<Rightarrow>
          if length items < 1 then State_Monad.return (Ret (False, Some no_cluster_role))
          else (case bridgeProviderCR items of
             None \<Rightarrow> State_Monad.return Panics
           | Some p \<Rightarrow> do {
               c \<leftarrow> api_call (pv_createProvider P p) (PvCreateProvider p);
               State_Monad.return (Ret (False, case c of Inl e \<Rightarrow> Some e | Inr _ \<Rightarrow> None)) }))
   }"

definition Reconcile_provider :: "'w provider_env \<Rightarrow> string \<Rightarrow> key \<Rightarrow> 'w reconcile_result" where
  "Reconcile_provider P nameVersion req = do {
     d \<leftarrow> api_call (pv_getDeployment P req) (PvGetDeployment req);
     (case d of
        Inl e \<Rightarrow> State_Monad.return (Ret (False, if IsNotFound e then None else Some e))
      | Inr _ \<Rightarrow> do {
          i \<leftarrow> checkCrdInstalled P (pv_groupVersion P) providerKind;
          (case i of
             Inl e \<Rightarrow> State_Monad.return (Ret (False, Some e))
           | Inr isCrdInstalled \<Rightarrow>
               if \<not> isCrdInstalled then State_Monad.return (Ret (True, None))
               else do {
                 g \<leftarrow> api_call (pv_getProvider P providerCRName) (PvGetProvider providerCRName);
                 (case g of
                    Inl e \<Rightarrow> if IsNotFound e then register_provider P nameVersion
                             else State_Monad.return (Ret (False, Some e))
                  | Inr _ \<Rightarrow> State_Monad.return (Ret (False, None))) }) })
   }"

section \<open>Set-up and events\<close>

text \<open>
  \<open>SetupWithManager\<close> takes the install namespace and the operator's name and version from the
  environment, and fails without them.
\<close>

definition provider_setup :: "(string \<Rightarrow> string option) \<Rightarrow> error + string \<times> string" where
  "provider_setup env =
     (case env ''INSTALL_NAMESPACE'' of
        None \<Rightarrow> Inl (PlainError ''INSTALL_NAMESPACE must be set'')
      | Some ns \<Rightarrow>
          (case env ''OPERATOR_CONDITION_NAME'' of
             None \<Rightarrow> Inl (PlainError ''OPERATOR_CONDITION_NAME must be set'')
           | Some nv \<Rightarrow> Inr (ns, nv)))"

datatype watch_event = CreateEvent object_meta | UpdateEvent object_meta | DeleteEvent object_meta | GenericEvent object_meta

definition evaluatePredicateObject :: "string \<Rightarrow> string \<Rightarrow> object_meta \<Rightarrow> bool" where
  "evaluatePredicateObject installNamespace nameVersion m \<longleftrightarrow>
     om_namespace m = installNamespace \<and>
     (case om_labels m ''olm.owner.kind'' of
        None \<Rightarrow> False
      | Some v \<Rightarrow> v = ''ClusterServiceVersion'' \<and>
          (case om_labels m ''olm.owner'' of None \<Rightarrow> False | Some w \<Rightarrow> w = nameVersion))"

fun ignoreOtherDeployments :: "string \<Rightarrow> string \<Rightarrow> watch_event \<Rightarrow> bool" where
  "ignoreOtherDeployments ns nv (CreateEvent m) = evaluatePredicateObject ns nv m"
| "ignoreOtherDeployments ns nv (DeleteEvent m) = False"
| "ignoreOtherDeployments ns nv (UpdateEvent m) = False"
| "ignoreOtherDeployments ns nv (GenericEvent m) = False"

section \<open>The forms\<close>

text \<open>What a form that obeys the parameter specifications contains.\<close>

definition well_typed :: "string \<Rightarrow> string \<Rightarrow> bool" where
  "well_typed ty v \<longleftrightarrow>
     (if ty = ''int'' then ParseInt v \<noteq> None else if ty = ''bool'' then ParseBool v \<noteq> None else True)"

definition form_ok :: "parameter_spec list \<Rightarrow> smap \<Rightarrow> bool" where
  "form_ok specs p \<longleftrightarrow>
     list_all (\<lambda>ps. case p (ps_name ps) of None \<Rightarrow> \<not> ps_required ps | Some v \<Rightarrow> well_typed (ps_type ps) v) specs"

definition credentials_ok :: "credential_field list \<Rightarrow> smap option \<Rightarrow> bool" where
  "credentials_ok cfs d \<longleftrightarrow>
     list_all (\<lambda>cf. cf_required cf \<longrightarrow> data_get d (cf_key cf) \<notin> {None, Some []}) cfs"

lemma form_ok_valid: "form_ok parameter_specs p \<longleftrightarrow> valid_params p"
  by (auto simp: form_ok_def parameter_specs_def valid_params_def well_typed_def split: option.splits)

text \<open>
  C27: the forms the operator registers agree with what its controllers accept. For any ClusterRole
  found, the provider's parameter specifications are met by a set of instance parameters exactly
  when the instance controller can apply them, and its required credential fields are filled
  exactly when the inventory controller's credentials check goes on.
\<close>

theorem provider_form_matches:
  "\<exists>p. bridgeProviderCR (role # roles) = Some p \<and>
     (form_ok (pr_instanceParameterSpecs p) ps \<longleftrightarrow> (\<exists>sp'. run_steps param_steps ps sp = Inr sp')) \<and>
     wp require_credentials
       (\<lambda>f _. f = Continue \<longleftrightarrow> credentials_ok (pr_credentialFields p) (sec_data (iv_credentialsRef s))) s"
  by (auto simp: bridgeProviderCR_def form_ok_valid run_param_steps credentials_ok_def credential_fields_def
      require_credentials_def require_credential_def wp_simps split: option.split)

text \<open>
  C25: the provider is created only when it should be, and then once: after the operator's deployment
  was found, the DBaaSProvider kind is served, the registration was not found and a ClusterRole of
  the operator's version was listed, and it is the provider for that role. Every other
  reconciliation creates nothing; the outcome of the creation is its result.
\<close>

theorem provider_created_when_missing:
  assumes "run_state (Reconcile_provider P nv req) \<lparr>world = w, history = []\<rparr> = (res, t)"
    and "PvCreateProvider p r \<in> set (history t)"
  shows "\<exists>d kinds e role roles. history t =
      [PvGetDeployment req (Inr d), PvServerResources (pv_groupVersion P) (Inr kinds),
       PvGetProvider providerCRName (Inl e), PvListClusterRoles (cluster_role_selector nv) (Inr (role # roles)),
       PvCreateProvider p r] \<and>
    providerKind \<in> set kinds \<and> IsNotFound e \<and> bridgeProviderCR (role # roles) = Some p \<and>
    res = Ret (False, case r of Inl e \<Rightarrow> Some e | Inr _ \<Rightarrow> None)"
proof -
  define Q where "Q res t \<longleftrightarrow> (PvCreateProvider p r \<in> set (history t) \<longrightarrow> (\<exists>d kinds e role roles. history t =
      [PvGetDeployment req (Inr d), PvServerResources (pv_groupVersion P) (Inr kinds),
       PvGetProvider providerCRName (Inl e), PvListClusterRoles (cluster_role_selector nv) (Inr (role # roles)),
       PvCreateProvider p r] \<and>
    providerKind \<in> set kinds \<and> IsNotFound e \<and> bridgeProviderCR (role # roles) = Some p \<and>
    res = Ret (False, case r of Inl e \<Rightarrow> Some e | Inr _ \<Rightarrow> None)))"
    for res and t :: "('a, provider_event) gst"
  have none: "Q res t" if "PvCreateProvider p r \<notin> set (history t)" for res t
    using that by (simp add: Q_def)
  have register: "wp (register_provider P nv) Q \<lparr>world = w, history = h\<rparr>"
    if "h = [PvGetDeployment req (Inr d), PvServerResources (pv_groupVersion P) (Inr kinds),
      PvGetProvider providerCRName (Inl e)]" "providerKind \<in> set kinds" "IsNotFound e" for w h d kinds e
    unfolding register_provider_def wp_bind
  proof (rule wp_api_any)
    fix x w'
    let ?t = "\<lparr>world = w, history = h\<rparr>\<lparr>world := w', history := history \<lparr>world = w, history = h\<rparr> @
      [PvListClusterRoles (cluster_role_selector nv) x]\<rparr>"
    show "wp (case x of Inl e \<Rightarrow> State_Monad.return (Ret (False, Some e))
      | Inr items \<Rightarrow>
          if length items < 1 then State_Monad.return (Ret (False, Some no_cluster_role))
          else (case bridgeProviderCR items of
             None \<Rightarrow> State_Monad.return Panics
           | Some p \<Rightarrow> do {
               c \<leftarrow> api_call (pv_createProvider P p) (PvCreateProvider p);
               State_Monad.return (Ret (False, case c of Inl e \<Rightarrow> Some e | Inr _ \<Rightarrow> None)) })) Q ?t"
    proof (cases x)
      case (Inr items)
      then show ?thesis
        using that by (cases items) (auto simp: wp_simps bridgeProviderCR_def Q_def split: prod.split)
    qed (use that in \<open>simp add: wp_simps none\<close>)
  qed
  have "wp (Reconcile_provider P nv req) Q \<lparr>world = w, history = []\<rparr>"
    unfolding Reconcile_provider_def checkCrdInstalled_def wp_bind wp_case_sum
    by (auto simp: wp_if wp_return wp_bind wp_api_call wp_case_sum list_ex_iff intro!: register none
        split: sum.split prod.split)
  from wp_run [OF this assms(1)] assms(2) show ?thesis unfolding Q_def by blast
qed

text \<open>A cluster in which the operator is not registered yet.\<close>

definition sample_provider :: "nat provider_env" where
  "sample_provider = \<lparr>pv_groupVersion = ''dbaas.redhat.com/v1alpha1'',
     pv_getDeployment = (\<lambda>k. Pair (Inr \<lparr>dep_meta = empty_meta, dep_replicas = Some 1, dep_readyReplicas = 1\<rparr>)),
     pv_serverResources = (\<lambda>gv. Pair (Inr [''DBaaSInventory'', ''DBaaSProvider''])),
     pv_getProvider = (\<lambda>n. Pair (Inl (StatusError ReasonNotFound ''not found''))),
     pv_listClusterRoles = (\<lambda>l. Pair (Inr [\<lparr>cr_uid = ''u1'', cr_name = ''rds-role''\<rparr>])),
     pv_createProvider = (\<lambda>p. Pair (Inr p))\<rparr>"

lemma provider_created_when_missing_example:
  "\<exists>p roles. bridgeProviderCR roles = Some p \<and> PvCreateProvider p (Inr p) \<in>
     set (history (snd (run_state (Reconcile_provider sample_provider ''v1'' \<lparr>k_namespace = ''operators'', k_name = ''rds''\<rparr>) \<lparr>world = 0, history = []\<rparr>)))"
proof -
  obtain res t where run: "run_state (Reconcile_provider sample_provider ''v1'' \<lparr>k_namespace = ''operators'', k_name = ''rds''\<rparr>) \<lparr>world = 0, history = []\<rparr> = (res, t)"
    by fastforce
  have "wp (Reconcile_provider sample_provider ''v1'' \<lparr>k_namespace = ''operators'', k_name = ''rds''\<rparr>) (\<lambda>_ t. \<exists>p. PvCreateProvider p (Inr p) \<in> set (history t))
      \<lparr>world = 0, history = []\<rparr>"
    by (simp add: Reconcile_provider_def checkCrdInstalled_def register_provider_def bridgeProviderCR_def
        sample_provider_def wp_simps)
  then obtain p where p: "PvCreateProvider p (Inr p) \<in> set (history t)" using wp_run [OF _ run] by blast
  from provider_created_when_missing [OF run p] p run show ?thesis by auto
qed

end
