(* ===== verification/FilePath.thy ===== *)
theory FilePath
  imports KubeTypes
begin

text \<open>
  Where the CRD files are read from: \<open>filepath.Clean\<close> and \<open>filepath.Join\<close> of the standard library, on
  Unix paths, and \<open>readCRDFile\<close> (\<open>controllers/rdsinventory_controller.go\<close>).
\<close>

section \<open>Paths\<close>

text \<open>The elements of a path, the last one first, without \<open>.\<close> and with \<open>..\<close> resolved where that is possible.\<close>

fun clean_elems :: "bool \<Rightarrow> string list \<Rightarrow> string list \<Rightarrow> string list" where
  "clean_elems rooted out [] = out"
| "clean_elems rooted out (x # xs) =
     (if x = [] \<or> x = ''.'' then clean_elems rooted out xs
      else if x \<noteq> ''..'' then clean_elems rooted (x # out) xs
      else case out of
        [] \<Rightarrow> clean_elems rooted (if rooted then [] else [''..'']) xs
      | y # ys \<Rightarrow> clean_elems rooted (if y = ''..'' then ''..'' # out else ys) xs)"

definition slashed :: "bool \<Rightarrow> string list \<Rightarrow> string" where
  "slashed rooted xs =
     (if rooted then CHR ''/'' # Join (CHR ''/'') xs else if xs = [] then ''.'' else Join (CHR ''/'') xs)"

definition filepath_Clean :: "string \<Rightarrow> string" where
  "filepath_Clean p =
     (if p = [] then ''.''
      else let rooted = (hd p = CHR ''/'') in slashed rooted (rev (clean_elems rooted [] (Split (CHR ''/'') p))))"

definition filepath_Join :: "string \<Rightarrow> string \<Rightarrow> string" where
  "filepath_Join dir f =
     (if dir \<noteq> [] then filepath_Clean (dir @ ''/'' @ f) else if f \<noteq> [] then filepath_Clean f else [])"

section \<open>Reading a CRD\<close>

text \<open>The file system and the decoders of other modules.\<close>

record ('b, 'j) crd_reader =
  ReadFile :: "string \<Rightarrow> error + 'b"
  ToJSON :: "'b \<Rightarrow> error + 'j"
  UnmarshalCRD :: "'j \<Rightarrow> error + crd"

definition readCRDFile :: "('b, 'j) crd_reader \<Rightarrow> string \<Rightarrow> error + crd" where
  "readCRDFile R file =
     (case ReadFile R (filepath_Clean file) of
        Inl e \<Rightarrow> Inl e
      | Inr d \<Rightarrow> (case ToJSON R d of Inl e \<Rightarrow> Inl e | Inr jsonData \<Rightarrow> UnmarshalCRD R jsonData))"

section \<open>Clean paths\<close>

text \<open>Elements that cleaning leaves alone, given the ones before them, the last one first.\<close>

fun clean_after :: "bool \<Rightarrow> string list \<Rightarrow> string list \<Rightarrow> bool" where
  "clean_after rooted out [] \<longleftrightarrow> True"
| "clean_after rooted out (x # xs) \<longleftrightarrow>
     x \<noteq> [] \<and> x \<noteq> ''.'' \<and> CHR ''/'' \<notin> set x \<and>
     (x = ''..'' \<longrightarrow> \<not> rooted \<and> (out = [] \<or> hd out = ''..'')) \<and> clean_after rooted (x # out) xs"

lemma clean_elems_clean: "clean_after rooted out xs \<Longrightarrow> clean_elems rooted out xs = rev xs @ out"
  by (induction xs arbitrary: out) (auto split: list.split)

lemma clean_after_snoc:
  "clean_after rooted out (xs @ [x]) \<longleftrightarrow> clean_after rooted out xs \<and>
     x \<noteq> [] \<and> x \<noteq> ''.'' \<and> CHR ''/'' \<notin> set x \<and>
     (x = ''..'' \<longrightarrow> \<not> rooted \<and> (rev xs @ out = [] \<or> hd (rev xs @ out) = ''..''))"
  by (induction xs arbitrary: out) (auto simp: hd_append)

lemmas clean_after_snoc2 = clean_after_snoc [where xs = "ys @ [y]" for ys y, simplified]

lemma clean_elems_is_clean:
  assumes "clean_after rooted [] (rev out)" "\<And>x. x \<in> set xs \<Longrightarrow> CHR ''/'' \<notin> set x"
  shows "clean_after rooted [] (rev (clean_elems rooted out xs))"
  using assms
proof (induction rooted out xs rule: clean_elems.induct)
  case (2 rooted out x xs)
  show ?case
  proof (cases "x = ''..''")
    case True
    then show ?thesis
      using 2 by (cases out) (auto simp: clean_after_snoc clean_after_snoc2)
  next
    case False
    then show ?thesis using 2 by (auto simp: clean_after_snoc)
  qed
qed simp

lemma Split_append: "c \<notin> set a \<Longrightarrow> Split c (a @ c # b) = a # Split c b"
  by (induction a) auto

lemma Split_one: "c \<notin> set a \<Longrightarrow> Split c a = [a]"
  by (induction a) auto

lemma clean_after_parts: "clean_after rooted out xs \<Longrightarrow> x \<in> set xs \<Longrightarrow> CHR ''/'' \<notin> set x \<and> x \<noteq> []"
  by (induction xs arbitrary: out) auto

lemma Split_Join:
  "(\<And>x. x \<in> set xs \<Longrightarrow> c \<notin> set x) \<Longrightarrow> xs \<noteq> [] \<Longrightarrow> Split c (Join c xs) = xs"
proof (induction xs)
  case (Cons x xs)
  then show ?case by (cases xs) (auto simp: Split_append Split_one)
qed simp

lemma Split_Join_clean:
  "clean_after rooted out xs \<Longrightarrow> xs \<noteq> [] \<Longrightarrow> Split (CHR ''/'') (Join (CHR ''/'') xs) = xs"
  by (rule Split_Join) (auto dest: clean_after_parts)

lemma Join_clean_head:
  "clean_after rooted out xs \<Longrightarrow> xs \<noteq> [] \<Longrightarrow> Join (CHR ''/'') xs \<noteq> [] \<and> hd (Join (CHR ''/'') xs) \<noteq> CHR ''/''"
proof (cases xs)
  case (Cons x ys)
  assume "clean_after rooted out xs"
  with Cons have x: "x \<noteq> []" "CHR ''/'' \<notin> set x" by auto
  then have "hd x \<noteq> CHR ''/''" by (cases x) auto
  with x show ?thesis using Cons by (cases ys) (auto simp: hd_append)
qed simp

lemma Clean_slashed:
  assumes "clean_after rooted [] xs"
  shows "filepath_Clean (slashed rooted xs) = slashed rooted xs"
proof (cases "xs = []")
  case True
  then show ?thesis by (cases rooted) (simp_all add: filepath_Clean_def slashed_def)
next
  case False
  then show ?thesis
    using Join_clean_head [OF assms False] Split_Join_clean [OF assms False] clean_elems_clean [OF assms]
    by (cases rooted) (auto simp: filepath_Clean_def slashed_def)
qed

text \<open>Cleaning a path a second time changes nothing; so \<open>readCRDFile\<close> reads the path it is given by the set-up.\<close>

lemma Clean_idem: "filepath_Clean (filepath_Clean p) = filepath_Clean p"
proof (cases "p = []")
  case False
  have "x \<in> set (Split (CHR ''/'') p) \<Longrightarrow> CHR ''/'' \<notin> set x" for x by (rule Split_no_sep)
  then show ?thesis
    using False Clean_slashed [OF clean_elems_is_clean [of _ "[]"]] by (simp add: filepath_Clean_def [of p] Let_def)
qed (simp add: filepath_Clean_def slashed_def)

lemma Clean_Join: "filepath_Join dir f \<noteq> [] \<Longrightarrow> filepath_Clean (filepath_Join dir f) = filepath_Join dir f"
  by (auto simp: filepath_Join_def Clean_idem split: if_splits)

end
