(* ===== verification/Startup.thy ===== *)
theory Startup
  imports InventoryDeletion ProviderController FilePath
begin

text \<open>
  The start of the operator (\<open>main.go\<close>) and of its inventory controller (\<open>SetupWithManager\<close>,
  \<open>installCRD\<close> in \<open>controllers/rdsinventory_controller.go\<close>): before the inventory
  controller is registered, the ACK controller is stopped and its CRDs are installed.
\<close>

section \<open>The inventory controller\<close>

abbreviation adoptedResourceCRDFile :: string where
  "adoptedResourceCRDFile \<equiv> ''services.k8s.aws_adoptedresources.yaml''"
abbreviation fieldExportCRDFile :: string where
  "fieldExportCRDFile \<equiv> ''services.k8s.aws_fieldexports.yaml''"

text \<open>
  \<open>crd_file\<close> is what reading a file and parsing it as a CRD gives: \<open>readCRDFile\<close> (theory \<open>FilePath\<close>) with
  the file system and the decoders.
\<close>

definition installCRD ::
  "('w, 'n) env_scheme \<Rightarrow> (string \<Rightarrow> error + crd) \<Rightarrow> string \<Rightarrow>
   (('w, event, 'm) gst_scheme, unit outcome) state" where
  "installCRD E crd_file f =
     (case crd_file f of
        Inl e \<Rightarrow> State_Monad.return (Err e)
      | Inr crd \<Rightarrow> do {
          r \<leftarrow> CreateOrUpdate (cou_fetchCRD E) EvFetchCRD (cou_storeCRD E) EvApplyCRD
                 \<lparr>crd_name = crd_name crd, crd_spec = []\<rparr>
                 (\<lambda>c. State_Monad.return (Ret (c\<lparr>crd_spec := crd_spec crd\<rparr>)));
          State_Monad.return (case r of Ret _ \<Rightarrow> Ret () | Err e \<Rightarrow> Err e | Panics \<Rightarrow> Panics) })"

text \<open>\<open>if err := m(); err != nil { return err }\<close> followed by \<open>n\<close>.\<close>

definition and_then :: "('s, unit outcome) state \<Rightarrow> ('s, unit outcome) state \<Rightarrow> ('s, unit outcome) state" where
  "and_then m n = do {
     r \<leftarrow> m;
     (case r of Ret _ \<Rightarrow> n | Err e \<Rightarrow> State_Monad.return (Err e) | Panics \<Rightarrow> State_Monad.return Panics)
   }"

text \<open>
  \<open>new_client\<close> and \<open>complete\<close> are the controller-runtime calls that make the client and register the
  controller. \<open>None\<close>: still waiting for the deployment when the fuel was spent.
\<close>

definition inv_SetupWithManager ::
  "('w, 'n) env_scheme \<Rightarrow> ('w \<Rightarrow> error option \<times> 'w) \<Rightarrow> ('w \<Rightarrow> error option \<times> 'w) \<Rightarrow>
   (string \<Rightarrow> error + crd) \<Rightarrow> string \<Rightarrow> string \<Rightarrow> nat \<Rightarrow>
   (('w, event, 'm) gst_scheme, unit outcome option) state" where
  "inv_SetupWithManager E new_client complete crd_file N path n = do {
     c \<leftarrow> silent_call new_client;
     (case c of
        Some e \<Rightarrow> State_Monad.return (Some (Err e))
      | None \<Rightarrow> do {
          r \<leftarrow> stopRDSController E N True n;
          (case r of
             None \<Rightarrow> State_Monad.return None
           | Some s \<Rightarrow>
               (case s of
                  Some e \<Rightarrow> State_Monad.return (Some (Err e))
                | None \<Rightarrow> do {
                    r \<leftarrow> and_then (installCRD E crd_file (filepath_Join path adoptedResourceCRDFile))
                           (and_then (installCRD E crd_file (filepath_Join path fieldExportCRDFile))
                             (do {
                                e \<leftarrow> silent_call complete;
                                State_Monad.return (case e of None \<Rightarrow> Ret () | Some e \<Rightarrow> Err e) }));
                    State_Monad.return (Some r) })) })
   }"

section \<open>The order of the start\<close>

datatype main_step =
    NewManager | NewClientset | SetupInventory string | SetupConnection | SetupInstance
  | SetupProvider | SetupWebhook | AddHealthzCheck | AddReadyzCheck | StartManager

definition getInstallNamespace :: "(string \<Rightarrow> string option) \<Rightarrow> error + string" where
  "getInstallNamespace env =
     (case env ''INSTALL_NAMESPACE'' of
        None \<Rightarrow> Inl (PlainError ''INSTALL_NAMESPACE must be set'')
      | Some ns \<Rightarrow> Inr ns)"

text \<open>
  The calls of \<open>main\<close> in their order. An error of \<open>getInstallNamespace\<close> is only logged: the inventory
  controller then gets the empty namespace. \<open>os.Getenv\<close> of a missing variable is empty.
\<close>

definition main_steps :: "(string \<Rightarrow> string option) \<Rightarrow> main_step list" where
  "main_steps env =
     [NewManager, NewClientset,
      SetupInventory (case getInstallNamespace env of Inl _ \<Rightarrow> [] | Inr ns \<Rightarrow> ns),
      SetupConnection, SetupInstance, SetupProvider] @
     (if env ''ENABLE_WEBHOOKS'' \<noteq> Some ''false'' then [SetupWebhook] else []) @
     [AddHealthzCheck, AddReadyzCheck, StartManager]"

text \<open>Each error ends the process with exit code 1; \<open>None\<close>: \<open>main\<close> returns.\<close>

fun run_main :: "(main_step \<Rightarrow> 'w \<Rightarrow> error option \<times> 'w) \<Rightarrow> main_step list \<Rightarrow> 'w \<Rightarrow> int option \<times> main_step list \<times> 'w" where
  "run_main do_step [] w = (None, [], w)"
| "run_main do_step (st # sts) w =
     (case do_step st w of
        (Some e, w1) \<Rightarrow> (Some 1, [st], w1)
      | (None, w1) \<Rightarrow> (case run_main do_step sts w1 of (x, l, w2) \<Rightarrow> (x, st # l, w2)))"

lemma run_main_prefix: "run_main d sts w = (x, l, w') \<Longrightarrow> \<exists>k. l = take k sts \<and> (x = None \<longrightarrow> l = sts)"
proof (induction sts arbitrary: w x l w')
  case (Cons st sts)
  show ?case
  proof (cases "d st w")
    case (Pair r w1)
    show ?thesis
    proof (cases r)
      case None
      obtain x' l' w2 where rec: "run_main d sts w1 = (x', l', w2)" by (cases "run_main d sts w1") auto
      with Cons.IH obtain k where "l' = take k sts \<and> (x' = None \<longrightarrow> l' = sts)" by blast
      then show ?thesis using Cons.prems Pair None rec by (auto intro!: exI [of _ "Suc k"])
    next
      case (Some e)
      then show ?thesis using Cons.prems Pair by (auto intro!: exI [of _ "Suc 0"])
    qed
  qed
qed simp

text \<open>
  Without the namespace the inventory controller is set up all the same, before the provider's
  set-up, which reads the same variable, fails for it.
\<close>

lemma missing_namespace_found_late:
  assumes "env ''INSTALL_NAMESPACE'' = None"
  shows "take 6 (main_steps env) =
      [NewManager, NewClientset, SetupInventory [], SetupConnection, SetupInstance, SetupProvider]"
    and "\<exists>e. provider_setup env = Inl e"
  using assms by (simp_all add: main_steps_def getInstallNamespace_def provider_setup_def)

section \<open>The wait\<close>

lemma wp_get_deployment_ends:
  "wp (get_deployment E k True n) (\<lambda>r _. r \<noteq> None) s \<longleftrightarrow> (\<exists>m < n. first_answer E k (world s) m)"
proof (induction n arbitrary: s)
  case (Suc n)
  obtain r w where g: "api_getDeployment E k (world s) = (r, w)" by fastforce
  have "(\<exists>m < Suc n. first_answer E k (world s) m) \<longleftrightarrow>
      first_answer E k (world s) 0 \<or> (\<exists>m < n. first_answer E k (world s) (Suc m))"
    by (metis Suc_less_eq gr0_conv_Suc less_Suc_eq_0_disj)
  then show ?case
    using Suc g by (cases r) (auto simp: wp_simps)
qed (simp add: wp_simps)

text \<open>
  C38: the operator's start waits for the ACK deployment, and for nothing else. With the client made,
  the set-up of the inventory controller returns within \<open>n\<close> rounds exactly when one of the first
  \<open>n\<close> lookups of the deployment is answered otherwise than with NotFound; a deployment that never
  appears keeps it, and the whole operator, waiting for ever.
\<close>

theorem setup_waits_for_deployment:
  "wp (inv_SetupWithManager E (\<lambda>w. (None, w)) complete crd_file N path n) (\<lambda>r _. r \<noteq> None) s \<longleftrightarrow>
   (\<exists>m < n. first_answer E (deployment_key N) (world s) m)"
proof -
  have stop: "wp (stopRDSController E N True n) (\<lambda>r _. r \<noteq> None) = wp (get_deployment E (deployment_key N) True n) (\<lambda>r _. r \<noteq> None)"
    unfolding stopRDSController_def wp_bind
    by (rule arg_cong [of _ _ "wp (get_deployment E (deployment_key N) True n)"])
      (auto simp: fun_eq_iff wp_return wp_case_option wp_case_sum wp_bind split: option.split sum.split)
  have "wp (inv_SetupWithManager E (\<lambda>w. (None, w)) complete crd_file N path n) (\<lambda>r _. r \<noteq> None) s =
      wp (stopRDSController E N True n) (\<lambda>r _. r \<noteq> None) s"
    unfolding inv_SetupWithManager_def wp_bind wp_silent_call prod.case wp_case_option option.case
    by (rule arg_cong [of _ _ "\<lambda>Q. wp (stopRDSController E N True n) Q (s\<lparr>world := world s\<rparr>)", THEN trans])
      (auto simp: fun_eq_iff wp_return wp_bind split: option.split)
  then show ?thesis by (simp only: stop wp_get_deployment_ends)
qed

end
