(* ===== verification/Flags.thy ===== *)
theory Flags
  imports GoLib
begin

text \<open>
  The command line of the operator: the flags that \<open>main\<close> (\<open>main.go\<close>) defines, parsed as Go's
  \<open>flag\<close> package does, and the logger's options. The zap logger is code of other modules and a
  parameter, as is \<open>time.ParseDuration\<close>.
\<close>

section \<open>The flag package\<close>

text \<open>A defined flag: whether it may stand without a value, and what \<open>Value.Set\<close> does (\<open>None\<close>: its error).\<close>

record 'v formal =
  is_bool :: bool
  set_value :: "string \<Rightarrow> 'v \<Rightarrow> 'v option"

text \<open>\<open>name=value\<close>, split at the first equals sign.\<close>

definition name_value :: "string \<Rightarrow> string \<times> string option" where
  "name_value s =
     (let n = takeWhile (\<lambda>c. c \<noteq> CHR ''='') s
      in (n, if length n < length s then Some (drop (Suc (length n)) s) else None))"

text \<open>
  \<open>CommandLine.Parse\<close>: arguments are flags up to the first one that is none, or up to \<open>--\<close>. A
  mistake prints the usage and ends the process with code 2; asking for help, with code 0.
\<close>

definition is_flag :: "string \<Rightarrow> bool" where
  "is_flag s \<longleftrightarrow> 2 \<le> length s \<and> hd s = CHR ''-'' \<and> s \<noteq> ''--''"

definition flag_name :: "string \<Rightarrow> string" where
  "flag_name s = (if s ! 1 = CHR ''-'' then drop 2 s else drop 1 s)"

definition bad_syntax :: "string \<Rightarrow> bool" where
  "bad_syntax n \<longleftrightarrow> n = [] \<or> hd n = CHR ''-'' \<or> hd n = CHR ''=''"

fun parse_flags :: "(string \<Rightarrow> 'v formal option) \<Rightarrow> string list \<Rightarrow> 'v \<Rightarrow> int + 'v" where
  "parse_flags F [] v = Inr v"
| "parse_flags F (s # rest) v =
     (if \<not> is_flag s then Inr v
      else if bad_syntax (flag_name s) then Inl 2
      else case name_value (flag_name s) of (n, val) \<Rightarrow>
        (case F n of
           None \<Rightarrow> Inl (if n = ''help'' \<or> n = ''h'' then 0 else 2)
         | Some f \<Rightarrow>
             (case val of
                Some x \<Rightarrow> (case set_value f x v of None \<Rightarrow> Inl 2 | Some v \<Rightarrow> parse_flags F rest v)
              | None \<Rightarrow>
                  if is_bool f then (case set_value f ''true'' v of None \<Rightarrow> Inl 2 | Some v \<Rightarrow> parse_flags F rest v)
                  else (case rest of
                          [] \<Rightarrow> Inl 2
                        | x # rest \<Rightarrow> (case set_value f x v of None \<Rightarrow> Inl 2 | Some v \<Rightarrow> parse_flags F rest v)))))"

section \<open>The operator's flags\<close>

record 'z flag_vars =
  metricsAddr :: string
  probeAddr :: string
  enableLeaderElection :: bool
  syncPeriod :: int
  logLevel :: string
  zapOptions :: 'z

text \<open>
  Other modules: \<open>UnmarshalText\<close> of a level, the logger's options for a level that \<open>main\<close> fills in,
  and the flags that these modules put on the command line. They set variables of their own,
  which \<open>zapOptions\<close> stands for: \<open>BindFlags\<close>'s the logger's options, and the \<open>kubeconfig\<close> that
  controller-runtime registers when it is loaded the path that \<open>GetConfigOrDie\<close> reads.
\<close>

record ('l, 'z) zap =
  UnmarshalText :: "string \<Rightarrow> 'l option"
  InfoLevel :: 'l
  zap_options :: "'l \<Rightarrow> 'z"
  module_flags :: "string \<Rightarrow> 'z formal option"

definition initial_vars :: "'z \<Rightarrow> 'z flag_vars" where
  "initial_vars z = \<lparr>metricsAddr = '':8080'', probeAddr = '':8081'', enableLeaderElection = False,
     syncPeriod = 180 * 60 * 1000000000, logLevel = ''info'', zapOptions = z\<rparr>"

definition own_flags :: "(string \<Rightarrow> int option) \<Rightarrow> string \<Rightarrow> 'z flag_vars formal option" where
  "own_flags ParseDuration =
     [''metrics-bind-address'' \<mapsto> \<lparr>is_bool = False, set_value = (\<lambda>x v. Some (v\<lparr>metricsAddr := x\<rparr>))\<rparr>,
      ''health-probe-bind-address'' \<mapsto> \<lparr>is_bool = False, set_value = (\<lambda>x v. Some (v\<lparr>probeAddr := x\<rparr>))\<rparr>,
      ''leader-elect'' \<mapsto> \<lparr>is_bool = True, set_value =
         (\<lambda>x v. map_option (\<lambda>b. v\<lparr>enableLeaderElection := b\<rparr>) (ParseBool x))\<rparr>,
      ''sync-period-min'' \<mapsto> \<lparr>is_bool = False, set_value =
         (\<lambda>x v. map_option (\<lambda>d. v\<lparr>syncPeriod := d\<rparr>) (ParseDuration x))\<rparr>,
      ''log-level'' \<mapsto> \<lparr>is_bool = False, set_value = (\<lambda>x v. Some (v\<lparr>logLevel := x\<rparr>))\<rparr>]"

text \<open>All flags, those of other modules acting on variables of theirs.\<close>

definition all_flags :: "('l, 'z) zap \<Rightarrow> (string \<Rightarrow> int option) \<Rightarrow> string \<Rightarrow> 'z flag_vars formal option" where
  "all_flags Z ParseDuration n =
     (case own_flags ParseDuration n of
        Some f \<Rightarrow> Some f
      | None \<Rightarrow> map_option (\<lambda>f. \<lparr>is_bool = is_bool f, set_value =
          (\<lambda>x v. map_option (\<lambda>z. v\<lparr>zapOptions := z\<rparr>) (set_value f x (zapOptions v)))\<rparr>) (module_flags Z n))"

text \<open>
  The level is taken from \<open>logLevel\<close> before the command line is parsed. The result is the exit code,
  or the variables for the manager and the logger's options.
\<close>

definition start_level :: "('l, 'z) zap \<Rightarrow> string \<Rightarrow> 'l" where
  "start_level Z text = (case UnmarshalText Z text of None \<Rightarrow> InfoLevel Z | Some l \<Rightarrow> l)"

definition read_flags :: "('l, 'z) zap \<Rightarrow> (string \<Rightarrow> int option) \<Rightarrow> string list \<Rightarrow> int + 'z flag_vars" where
  "read_flags Z ParseDuration args =
     (let v = initial_vars (zap_options Z (start_level Z ''info''))
      in parse_flags (all_flags Z ParseDuration) args v)"

section \<open>Parsing argument by argument\<close>

text \<open>An argument that carries its value, and what it does.\<close>

definition carries :: "string \<Rightarrow> string \<Rightarrow> string \<Rightarrow> bool" where
  "carries s n x \<longleftrightarrow> is_flag s \<and> \<not> bad_syntax (flag_name s) \<and> name_value (flag_name s) = (n, Some x)"

lemma parse_carried:
  assumes "carries s n x" "F n = Some f"
  shows "parse_flags F (s # rest) v = (case set_value f x v of None \<Rightarrow> Inl 2 | Some v \<Rightarrow> parse_flags F rest v)"
  using assms by (simp add: carries_def)

lemma name_value_eq: "CHR ''='' \<notin> set n \<Longrightarrow> name_value (n @ CHR ''='' # x) = (n, Some x)"
proof -
  assume "CHR ''='' \<notin> set n"
  then have "takeWhile (\<lambda>c. c \<noteq> CHR ''='') (n @ CHR ''='' # x) = n" by (subst takeWhile_append2) auto
  then show ?thesis by (simp add: name_value_def)
qed

lemma carries_flag:
  assumes "n \<noteq> []" "CHR ''='' \<notin> set n" "hd n \<noteq> CHR ''-''"
  shows "carries (''--'' @ n @ ''='' @ x) n x"
proof -
  obtain c m where "n = c # m" "c \<noteq> CHR ''-''" "c \<noteq> CHR ''=''" using assms by (cases n) auto
  then show ?thesis
    using name_value_eq [OF assms(2)] by (simp add: carries_def is_flag_def flag_name_def bad_syntax_def)
qed

text \<open>No flag but the log level's own looks at the log level.\<close>

lemma set_value_logLevel:
  assumes "all_flags Z PD n = Some f" "n \<noteq> ''log-level''"
  shows "set_value f x (v\<lparr>logLevel := l\<rparr>) = map_option (\<lambda>v. v\<lparr>logLevel := l\<rparr>) (set_value f x v)"
  using assms unfolding all_flags_def own_flags_def
  by (cases v) (auto split: if_splits simp: option.map_comp o_def)

text \<open>The result without the log level.\<close>

definition but_level :: "int + 'z flag_vars \<Rightarrow> int + 'z flag_vars" where
  "but_level = map_sum id (\<lambda>v. v\<lparr>logLevel := []\<rparr>)"

lemma but_level_Inr [simp]: "but_level (Inr v) = Inr (v\<lparr>logLevel := []\<rparr>)" "but_level (Inl c) = Inl c"
  by (simp_all add: but_level_def)

lemma parse_logLevel:
  "but_level (parse_flags (all_flags Z PD) args (v\<lparr>logLevel := l\<rparr>)) = but_level (parse_flags (all_flags Z PD) args v)"
proof (induction "all_flags Z PD" args v arbitrary: l rule: parse_flags.induct)
  case (2 s rest v)
  have step: "but_level (case set_value f x (v\<lparr>logLevel := l\<rparr>) of None \<Rightarrow> Inl 2 | Some v \<Rightarrow> parse_flags (all_flags Z PD) as v) =
      but_level (case set_value f x v of None \<Rightarrow> Inl 2 | Some v \<Rightarrow> parse_flags (all_flags Z PD) as v)"
    if f: "all_flags Z PD n = Some f"
      and IH: "\<And>v' l. set_value f x v = Some v' \<Longrightarrow> but_level (parse_flags (all_flags Z PD) as (v'\<lparr>logLevel := l\<rparr>)) =
        but_level (parse_flags (all_flags Z PD) as v')" for n f x as
  proof (cases "n = ''log-level''")
    case True
    then have "set_value f x w = Some (w\<lparr>logLevel := x\<rparr>)" for w using f by (auto simp: all_flags_def own_flags_def)
    then show ?thesis by simp
  next
    case False
    then show ?thesis using set_value_logLevel [OF f False, where x = x and v = v and l = l] IH by (cases "set_value f x v") simp_all
  qed
  show ?case
    using 2 by (auto simp: step Let_def split: prod.split option.split list.split)
qed simp

lemma parse_own:
  fixes Z :: "('l, 'z) zap"
  assumes "carries s n x" "(own_flags PD n :: 'z flag_vars formal option) \<noteq> None"
  shows "parse_flags (all_flags Z PD) (s # rest) v =
    (case set_value (the (own_flags PD n)) x v of None \<Rightarrow> Inl 2 | Some v \<Rightarrow> parse_flags (all_flags Z PD) rest v)"
proof -
  have "all_flags Z PD n = Some (the (own_flags PD n))" using assms(2) by (auto simp: all_flags_def)
  from parse_carried [where F = "all_flags Z PD", OF assms(1) this] show ?thesis .
qed





lemma parse_log_level_first:
  "parse_flags (all_flags Z PD) ((''--log-level='' @ l) # args) v = parse_flags (all_flags Z PD) args (v\<lparr>logLevel := l\<rparr>)"
  using parse_own [OF carries_flag [of "''log-level''" "l"], of PD Z args v]
  by (simp add: own_flags_def bool_codec.roundtrip del: parse_flags.simps)

text \<open>
  C39: the documented flag for the log level has no effect: wherever it stands among arguments that
  carry their value, the process ends with the same code or goes on with the same logger, addresses,
  leader election and period as without it; only a variable that nobody reads any more differs.
\<close>

theorem log_level_has_no_effect:
  assumes "\<forall>p \<in> set ps. \<exists>n x. carries p n x"
  shows "but_level (read_flags Z PD (ps @ (''--log-level='' @ l) # qs)) = but_level (read_flags Z PD (ps @ qs))"
proof -
  let ?F = "all_flags Z PD"
  have "but_level (parse_flags ?F (ps @ (''--log-level='' @ l) # qs) v) = but_level (parse_flags ?F (ps @ qs) v)" for v
    using assms
  proof (induction ps arbitrary: v)
    case Nil
    show ?case unfolding append_Nil parse_log_level_first by (rule parse_logLevel)
  next
    case (Cons p ps)
    then obtain n x where p: "carries p n x" by auto
    show ?case
    proof (cases "?F n")
      case None
      then show ?thesis using p by (simp add: carries_def)
    next
      case (Some f)
      then show ?thesis using Cons by (simp add: parse_carried [where F = ?F, OF p Some] del: parse_flags.simps split: option.split)
    qed
  qed
  then show ?thesis by (simp only: read_flags_def Let_def)
qed



section \<open>A command line\<close>

text \<open>Levels as numbers, and durations written as their nanoseconds.\<close>

definition plain_zap :: "(nat, nat) zap" where
  "plain_zap = \<lparr>UnmarshalText = [''debug'' \<mapsto> 0, ''info'' \<mapsto> 1, ''error'' \<mapsto> 2], InfoLevel = 1, zap_options = (\<lambda>l. l),
     module_flags = Map.empty\<rparr>"


definition parse_nanoseconds :: "string \<Rightarrow> int option" where
  "parse_nanoseconds s = Some (if hd s = CHR ''-'' then - int (digits_val (tl s)) else int (digits_val s))"


lemma log_level_has_no_effect_example:
  "but_level (read_flags plain_zap parse_nanoseconds [''--leader-elect=true'', ''--log-level=debug'']) =
   but_level (read_flags plain_zap parse_nanoseconds [''--leader-elect=true''])"
proof -
  have "carries ''--leader-elect=true'' ''leader-elect'' ''true''" using carries_flag [of "''leader-elect''" "''true''"] by simp
  then show ?thesis
    using log_level_has_no_effect [of "[''--leader-elect=true'']" plain_zap parse_nanoseconds "''debug''" "[]"] by auto
qed


end
