(* ===== verification/Webhook.thy ===== *)
theory Webhook
  imports Sample
begin

text \<open>
  The admission webhook of RDSInventory (\<open>api/v1alpha1/rdsinventory_webhook.go\<close>), which is to allow
  one inventory in a cluster.
\<close>

section \<open>The validator\<close>

definition only_one_error :: "string \<Rightarrow> error" where
  "only_one_error n = PlainError
     (''only one Inventory for RDS can exist in a cluster, there is already an Inventory '' @ n @ '' created'')"

definition verifyInventoryCreated ::
  "('w, 'n) env_scheme \<Rightarrow> (('w, event, 'm) gst_scheme, error option) state" where
  "verifyInventoryCreated E = do {
     r \<leftarrow> api_call (api_listInventories E None) (EvListInventories None);
     State_Monad.return (case r of
        Inl e \<Rightarrow> Some e
      | Inr items \<Rightarrow>
          (case items of
             [] \<Rightarrow> None
           | iv # _ \<Rightarrow> Some (only_one_error (om_name (inv_meta iv)))))
   }"

definition ValidateCreate :: "('w, 'n) env_scheme \<Rightarrow> (('w, event, 'm) gst_scheme, error option) state" where
  "ValidateCreate E = verifyInventoryCreated E"

definition ValidateUpdate :: "rds_inventory \<Rightarrow> (('w, event, 'm) gst_scheme, error option) state" where
  "ValidateUpdate old = State_Monad.return None"

definition ValidateDelete :: "(('w, event, 'm) gst_scheme, error option) state" where
  "ValidateDelete = State_Monad.return None"

text \<open>
  A creation is admitted exactly when the list of the inventories is answered and empty; else the
  refusal is the error of the list, or names the first inventory in it. What the verdict rests on
  is what is stored when the request is validated: a creation admitted before and not stored yet
  is not in the list.
\<close>

lemma creation_verdict:
  "wp (ValidateCreate E) (\<lambda>r t. \<exists>a. history t = history s @ [EvListInventories None a] \<and>
     r = (case a of Inl e \<Rightarrow> Some e | Inr [] \<Rightarrow> None | Inr (iv # _) \<Rightarrow> Some (only_one_error (om_name (inv_meta iv))))) s"
  by (simp add: ValidateCreate_def verifyInventoryCreated_def wp_simps split: prod.split sum.split list.split)

end
