(* ===== verification/Manager.thy ===== *)
theory Manager
  imports Startup Flags Webhook InstanceController ConnectionController
begin

text \<open>
  What the operator tells the controller manager at its start: the API types it knows
  (\<open>api/v1alpha1/groupversion_info.go\<close>, the \<open>init\<close> functions of the \<open>_types.go\<close> files and of
  \<open>main.go\<close>), the manager's options, its cache selectors included (\<open>main.go\<close>), and the controllers
  and the webhook it registers (the \<open>SetupWithManager\<close> functions). The manager itself is code of
  controller-runtime and a parameter.
\<close>

section \<open>API types\<close>

record group_version =
  Group :: string
  Version :: string

definition GroupVersion :: group_version where
  "GroupVersion = \<lparr>Group = ''dbaas.redhat.com'', Version = ''v1alpha1''\<rparr>"

text \<open>What the builder \<open>SchemeBuilder\<close> was given by the \<open>init\<close> functions; a scheme is the set of types it knows.\<close>

definition registers_connection :: "string list" where
  "registers_connection = [''RDSConnection'', ''RDSConnectionList'']"

definition registers_instance :: "string list" where
  "registers_instance = [''RDSInstance'', ''RDSInstanceList'']"

definition registers_inventory :: "string list" where
  "registers_inventory = [''RDSInventory'', ''RDSInventoryList'']"

type_synonym scheme = "(group_version \<times> string) set"

definition AddToScheme :: "scheme \<Rightarrow> scheme" where
  "AddToScheme s =
     s \<union> Pair GroupVersion ` set (registers_connection @ registers_instance @ registers_inventory)"

text \<open>
  The \<open>init\<close> function of \<open>main.go\<close>; \<open>add\<close> adds the types of another module, or fails. \<open>None\<close>: \<open>Must\<close>
  panicked.
\<close>

datatype scheme_part = ClientGoScheme | RDSDBaaS | DBaaS | RDSv1alpha1 | ACKv1alpha1 | Appsv1 | ApiExtensionsv1

fun Must_all :: "(scheme_part \<Rightarrow> scheme \<Rightarrow> error + scheme) \<Rightarrow> scheme_part list \<Rightarrow> scheme \<Rightarrow> scheme option" where
  "Must_all add [] s = Some s"
| "Must_all add (p # ps) s = (case add p s of Inl _ \<Rightarrow> None | Inr s1 \<Rightarrow> Must_all add ps s1)"

definition init_scheme :: "(scheme_part \<Rightarrow> scheme \<Rightarrow> error + scheme) \<Rightarrow> scheme option" where
  "init_scheme add =
     Must_all (\<lambda>p s. if p = RDSDBaaS then Inr (AddToScheme s) else add p s)
       [ClientGoScheme, RDSDBaaS, DBaaS, RDSv1alpha1, ACKv1alpha1, Appsv1, ApiExtensionsv1] {}"

lemma Must_all_keeps:
  assumes "\<And>p s s'. add p s = Inr s' \<Longrightarrow> s \<subseteq> s'"
  shows "Must_all add ps s = Some s' \<Longrightarrow> s \<subseteq> s'"
proof (induction ps arbitrary: s)
  case (Cons p ps)
  then show ?case using assms [of p s] by (auto split: sum.splits)
qed simp

text \<open>The owner types that the annotations name are types of the scheme, as \<open>Kind.group\<close>.\<close>

lemma owner_types_registered:
  "rdsInstanceType = ''RDSInstance'' @ ''.'' @ Group GroupVersion \<and> ''RDSInstance'' \<in> set registers_instance \<and>
   rdsInventoryType = ''RDSInventory'' @ ''.'' @ Group GroupVersion \<and> ''RDSInventory'' \<in> set registers_inventory"
  by (simp add: rdsInstanceType_def rdsInventoryType_def GroupVersion_def registers_instance_def registers_inventory_def)

section \<open>The manager's options\<close>

datatype cached_object = CachedSecret | CachedConfigMap

record manager_options =
  MetricsBindAddress :: string
  Port :: int
  HealthProbeBindAddress :: string
  LeaderElection :: bool
  LeaderElectionID :: string
  SyncPeriod :: int
  SelectorsByObject :: "cached_object \<Rightarrow> smap option"

text \<open>A selector is the set of labels of \<open>labels.SelectorFromSet\<close>.\<close>

definition main_options :: "'n lib_scheme \<Rightarrow> 'z flag_vars \<Rightarrow> manager_options" where
  "main_options L v =
     \<lparr>MetricsBindAddress = metricsAddr v, Port = 9443, HealthProbeBindAddress = probeAddr v,
      LeaderElection = enableLeaderElection v, LeaderElectionID = ''47bdf935.redhat.com'',
      SyncPeriod = syncPeriod v,
      SelectorsByObject =
        [CachedSecret \<mapsto> [TypeLabelKey L \<mapsto> TypeLabelValue L],
         CachedConfigMap \<mapsto> [TypeLabelKey L \<mapsto> TypeLabelValue L]]\<rparr>"

text \<open>
  The objects the cache holds, and so the ones the manager's client can read; \<open>matches\<close> is the
  selector's test of the labels.
\<close>

definition in_cache :: "(smap \<Rightarrow> smap \<Rightarrow> bool) \<Rightarrow> manager_options \<Rightarrow> cached_object \<Rightarrow> object_meta \<Rightarrow> bool" where
  "in_cache matches opts k m \<longleftrightarrow>
     (case SelectorsByObject opts k of None \<Rightarrow> True | Some sel \<Rightarrow> matches sel (om_labels m))"

section \<open>The controllers\<close>

text \<open>
  What a controller's builder is told: the kind it reconciles, the function from a changed DB
  instance to the objects to reconcile (\<open>None\<close> of its result: a panic), and the provider's rate
  limits in nanoseconds and event filter.
\<close>

record 's controller =
  For :: string
  Watches_DBInstance :: "(db_instance \<Rightarrow> ('s, key list option) state) option"
  RateLimiter :: "(int \<times> int) option"
  WithEventFilter :: "(watch_event \<Rightarrow> bool) option"

record ('s, 'w) manager =
  Complete :: "'s controller \<Rightarrow> 'w \<Rightarrow> error option \<times> 'w"
  IndexField :: "string \<Rightarrow> string \<Rightarrow> (rds_connection \<Rightarrow> string list) \<Rightarrow> 'w \<Rightarrow> error option \<times> 'w"
  CompleteWebhook :: "string \<Rightarrow> 'w \<Rightarrow> error option \<times> 'w"

type_synonym ('w, 'm) step_state = "('w, event, 'm) gst_scheme"

definition con_SetupWithManager ::
  "('w, 'n) env_scheme \<Rightarrow> (('w, 'm) step_state, 'w) manager \<Rightarrow> (('w, 'm) step_state, error option) state" where
  "con_SetupWithManager E M = do {
     e \<leftarrow> silent_call (Complete M \<lparr>For = ''RDSConnection'',
            Watches_DBInstance = Some (getInstanceConnectionRequests E), RateLimiter = None, WithEventFilter = None\<rparr>);
     (case e of
        Some e \<Rightarrow> State_Monad.return (Some e)
      | None \<Rightarrow> do {
          e \<leftarrow> silent_call (IndexField M ''RDSConnection'' instanceIDKey instance_id_index);
          State_Monad.return e })
   }"

definition ins_SetupWithManager ::
  "('w, 'n) env_scheme \<Rightarrow> (('w, 'm) step_state, 'w) manager \<Rightarrow> (('w, 'm) step_state, error option) state" where
  "ins_SetupWithManager E M =
     silent_call (Complete M \<lparr>For = ''RDSInstance'',
       Watches_DBInstance = Some (\<lambda>db. State_Monad.return (Some (getOwnerInstanceRequests E (db_meta db)))),
       RateLimiter = None, WithEventFilter = None\<rparr>)"

text \<open>The last statement of the inventory's set-up; the statements before it are \<open>inv_SetupWithManager\<close>.\<close>

definition inv_complete ::
  "('w, 'n) env_scheme \<Rightarrow> (('w, 'm) step_state, 'w) manager \<Rightarrow> 'w \<Rightarrow> error option \<times> 'w" where
  "inv_complete E M =
     Complete M \<lparr>For = ''RDSInventory'',
       Watches_DBInstance = Some (\<lambda>db. do { ks \<leftarrow> getInstanceInventoryRequests E db; State_Monad.return (Some ks) }),
       RateLimiter = None, WithEventFilter = None\<rparr>"

text \<open>
  The inventory's set-up with all its parts. \<open>main\<close> leaves \<open>RDSCRDFilePath\<close> empty, so the CRD files are
  looked for in the working directory.
\<close>

definition inventory_SetupWithManager ::
  "('w, 'n) env_scheme \<Rightarrow> (('w, 'm) step_state, 'w) manager \<Rightarrow> ('w \<Rightarrow> error option \<times> 'w) \<Rightarrow> ('b, 'j) crd_reader \<Rightarrow>
   string \<Rightarrow> string \<Rightarrow> nat \<Rightarrow> (('w, 'm) step_state, unit outcome option) state" where
  "inventory_SetupWithManager E M new_client R N path n =
     inv_SetupWithManager E new_client (inv_complete E M) (readCRDFile R) N path n"

lemma crd_paths:
  "filepath_Join [] adoptedResourceCRDFile = adoptedResourceCRDFile" "filepath_Join [] fieldExportCRDFile = fieldExportCRDFile"
  "filepath_Join ''config/../crds/'' fieldExportCRDFile = ''crds/'' @ fieldExportCRDFile"
  by code_simp+

definition provider_SetupWithManager ::
  "(string \<Rightarrow> string option) \<Rightarrow> (('w, 'm) step_state, 'w) manager \<Rightarrow> (('w, 'm) step_state, error option) state" where
  "provider_SetupWithManager env M =
     (case provider_setup env of
        Inl e \<Rightarrow> State_Monad.return (Some e)
      | Inr (ns, nv) \<Rightarrow>
          silent_call (Complete M \<lparr>For = ''Deployment'', Watches_DBInstance = None,
            RateLimiter = Some (30 * 1000000000, 30 * 60 * 1000000000),
            WithEventFilter = Some (ignoreOtherDeployments ns nv)\<rparr>))"

text \<open>The webhook's client is the manager's unless one was set before.\<close>

definition SetupWebhookWithManager ::
  "'c \<Rightarrow> (('w, 'm) step_state, 'w) manager \<Rightarrow> 'c option \<Rightarrow> (('w, 'm) step_state, 'c option \<times> error option) state" where
  "SetupWebhookWithManager mgr_client M inventoryWebhookApiClient = do {
     let cli = (case inventoryWebhookApiClient of None \<Rightarrow> mgr_client | Some c \<Rightarrow> c);
     e \<leftarrow> silent_call (CompleteWebhook M ''RDSInventory'');
     State_Monad.return (Some cli, e)
   }"

section \<open>The start as a whole\<close>

text \<open>
  \<open>main\<close>: the command line, then the steps with the options it gives. The exit code is \<open>None\<close> when
  \<open>main\<close> returns.
\<close>

definition run_operator ::
  "'n lib_scheme \<Rightarrow> ('l, 'z) zap \<Rightarrow> (string \<Rightarrow> int option) \<Rightarrow> (manager_options \<Rightarrow> main_step \<Rightarrow> 'w \<Rightarrow> error option \<times> 'w) \<Rightarrow>
   string list \<Rightarrow> (string \<Rightarrow> string option) \<Rightarrow> 'w \<Rightarrow> int option \<times> main_step list \<times> 'w" where
  "run_operator L Z ParseDuration do_step args env w =
     (case read_flags Z ParseDuration args of
        Inl code \<Rightarrow> (Some code, [], w)
      | Inr v \<Rightarrow> run_main (do_step (main_options L v)) (main_steps env) w)"

end
