(* ===== verification/InstanceProperties.thy ===== *)
theory InstanceProperties
  imports SampleRuns "HOL-Library.Sublist"
begin

text \<open>
  The properties of the instance controller, of the credentials it makes and of the status it
  reports. Each stands after the text that states it; the examples evaluate a property in the
  world of \<open>Sample\<close>.
\<close>

section \<open>The reconciler\<close>

text \<open>
  C1: whatever the cluster answers, a reconciliation of an RDSInstance makes the calls of the
  protocol \<open>ins_trace\<close> and no others, each with the object the protocol names: it reads the
  instance, then its inventory; only if the inventory is ready it checks the finalizer, and only
  a live instance that carries it gets its DB instance looked up, provisioned and read back; its
  last call writes the status.
\<close>

theorem instance_protocol:
  "wp (Reconcile_instance E req) (\<lambda>_ t. ins_trace E req (history t)) (init_ins w)"
  by (rule Reconcile_instance_trace)

text \<open>
  C8: a DB instance is written only as the instance wants it. Every write comes after reading an
  RDSInstance that is live and carries the finalizer and an inventory that is ready, and what is
  written is the object just found, or else a fresh one, with the owner's annotations, the user's
  parameters, the credentials, the engine's database name and the availability zone, and
  otherwise unchanged.
\<close>

theorem written_db_is_desired:
  assumes "run_state (Reconcile_instance E req) (init_ins w) = (f, t)"
    and "EvApplyDBInstance new r \<in> set (history t)"
  shows "\<exists>inst iv found m. EvGetInstance req (Inr inst) \<in> set (history t) \<and>
    EvGetInventory (ri_inventoryRef inst) (Inr iv) \<in> set (history t) \<and>
    EvFetchDBInstance (fresh_db iv inst) (Inr found) \<in> set (history t) \<and>
    inventory_ready E iv \<and> ins_live inst \<and> ins_guarded E inst \<and>
    SetOwnerAnnotations E (OwnerInstance inst) (db_meta (found_or_fresh iv inst found)) = Inr m \<and>
    desired_db inst ((found_or_fresh iv inst found)\<lparr>db_meta := m\<rparr>) new"
proof -
  have "ins_trace E req (history t)"
    using wp_run [OF Reconcile_instance_trace assms(1)] .
  then obtain inst iv calls last r' where h: "history t = [EvGetInstance req (Inr inst),
      EvGetInventory (ri_inventoryRef inst) (Inr iv)] @ calls @ [EvStatusInstance last r']"
    and c: "if inventory_ready E iv then work_calls E iv inst calls else calls = []"
    using assms(2) unfolding ins_trace_def by auto
  then have in_calls: "EvApplyDBInstance new r \<in> set calls" using assms(2) by auto
  with c have ready: "inventory_ready E iv" "work_calls E iv inst calls" by (auto split: if_splits)
  from work_calls_apply [OF ready(2) in_calls] ready(1) h show ?thesis
    by (intro exI [of _ inst] exI [of _ iv]) auto
qed

lemma written_db_is_desired_example:
  "\<exists>inst iv found m new. inventory_ready sample iv \<and> ins_live inst \<and> ins_guarded sample inst \<and>
     SetOwnerAnnotations sample (OwnerInstance inst) (db_meta (found_or_fresh iv inst found)) = Inr m \<and>
     desired_db inst ((found_or_fresh iv inst found)\<lparr>db_meta := m\<rparr>) new"
proof -
  obtain f t where run: "run_state (Reconcile_instance sample (sample_key ''db1'')) (init_ins 0) = (f, t)"
    by fastforce
  with sample_run obtain new r where "EvApplyDBInstance new r \<in> set (history t)"
    by (auto simp: wp_def)
  from written_db_is_desired [OF run this] show ?thesis by blast
qed

text \<open>
  C12: the last status a reconciliation of an RDSInstance writes says ready only when this very
  reconciliation read the DB instance with the status \<open>available\<close>, provided the status update
  stores the phase it is given and \<open>SetStatusCondition\<close> works as documented.
\<close>

theorem instance_ready_is_truthful:
  assumes "conditions_ok E" "phase_kept E"
  shows "wp (Reconcile_instance E req) (\<lambda>_ t. ins_truthful E (history t)) (init_ins w)"
  by (rule wp_Reconcile_instance_truthful [OF assms])

lemma instance_ready_is_truthful_example:
  "wp (Reconcile_instance sample (sample_key ''db1'')) (\<lambda>_ t. ins_truthful sample (history t)) (init_ins 0)"
  by (rule instance_ready_is_truthful [OF sample_conditions_ok sample_phase_kept])

text \<open>
  C30: what a reconciliation reports to the queue and in its condition is consistent. Once its
  body has returned, an error comes with a condition that is False and no explicit retry, a
  condition that is Unknown with a retry, a condition that is True with neither, and the reason
  is one the API server accepts.
\<close>

theorem instance_report_consistent:
  assumes "phase_kept E"
  shows "wp (ins_body E) (\<lambda>f t. if f = Stop then consistent t else f = Panic) s"
proof -
  have "wp (ins_body E) (\<lambda>f _. f \<noteq> Continue) s"
    using wp_ins_body_ends by (rule wp_mono) auto
  then show ?thesis
    using wp_ins_body_reports [OF assms, of s] wp_ins_body_returns [of E s]
    by (simp add: wp_fst_snd reports_phase_def) (metis flow.exhaust)
qed

lemma instance_report_consistent_example:
  "wp (ins_body sample) (\<lambda>f t. if f = Stop then consistent t else f = Panic) (init_ins 0)"
  by (rule instance_report_consistent [OF sample_phase_kept])

text \<open>
  The finalizer check, in every case. A live instance with the finalizer passes without a
  call; one without it gets it; an instance that is being deleted has its DB instance deleted
  while that is found, and loses the finalizer only right after a lookup that did not find it;
  any other lookup error changes nothing.
\<close>

theorem instance_finalizer_protocol:
  "wp (ins_checkFinalizer E)
     (\<lambda>f t. \<exists>l. history t = history s @ l \<and> finalizer_calls E (i_inventory s) (i_instance s) f l) s"
  by (rule wp_mono [OF wp_ins_checkFinalizer [OF refl refl]]) blast

text \<open>
  C32: an instance cannot be deleted without its inventory. As long as the inventory cannot be
  read or is not ready, no reconciliation deletes the DB instance or takes the finalizer away,
  however often it runs.
\<close>

theorem deletion_needs_ready_inventory:
  assumes "\<And>k iv w w'. api_getInventory E k w = (Inr iv, w') \<Longrightarrow> \<not> inventory_ready E iv"
  shows "wp (Reconcile_instance E req)
    (\<lambda>_ t. (\<forall>i r. EvUpdateInstance i r \<notin> set (history t)) \<and>
           (\<forall>db r. EvDeleteDBInstance db r \<notin> set (history t))) (init_ins w)"
  by (rule wp_mono [OF wp_Reconcile_instance_blocked [OF assms]]) auto

lemma deletion_needs_ready_inventory_example:
  "wp (Reconcile_instance no_inventory (sample_key ''db1''))
    (\<lambda>_ t. (\<forall>i r. EvUpdateInstance i r \<notin> set (history t)) \<and>
           (\<forall>db r. EvDeleteDBInstance db r \<notin> set (history t))) (init_ins 0)"
  by (rule deletion_needs_ready_inventory) (simp add: no_inventory_def)

text \<open>
  C31: parameters that are missing or malformed end the provisioning with their first error, and
  the condition has that error's text behind a general message; but its reason is the general
  \<open>BackendError\<close>, the \<open>InputError\<close> set first is overwritten.
\<close>

theorem invalid_params_reported:
  assumes "first_error (param_checks (ri_otherInstanceParams (i_instance s))) = Some e"
    and "cou_fetchDBInstance E (fresh_db (i_inventory s) (i_instance s)) (world s) = (Inr found, w)"
    and "SetOwnerAnnotations E (OwnerInstance (i_instance s))
      (db_meta (found_or_fresh (i_inventory s) (i_instance s) found)) = Inr m"
    and "v_message s = []"
  shows "wp (createOrUpdateDBInstance E) (\<lambda>f t. f = Stop \<and> r_err t = Some e \<and>
     v_status t = ConditionFalse \<and> v_reason t = instanceStatusReasonBackendError \<and>
     v_message t = (if Error_text e = [] then instanceStatusMessageCreateOrUpdateError
        else instanceStatusMessageCreateOrUpdateError @ '': '' @ Error_text e)) s"
proof -
  have "run_steps param_steps (ri_otherInstanceParams (i_instance s)) sp = Inl e" for sp
    using assms(1) by (simp add: run_param_steps_error)
  then show ?thesis
    using assms(2-4)
    by (auto simp: createOrUpdateDBInstance_def CreateOrUpdate_def wp_simps Let_def dbInstance_mutate_def
        found_or_fresh_def setDBInstanceSpec_def instance_applied_def ins_returnError_def)
qed

lemma invalid_params_reported_example:
  "wp (createOrUpdateDBInstance sample) (\<lambda>f t. f = Stop \<and> v_reason t = instanceStatusReasonBackendError \<and>
     v_message t = ''Failed to create or update DB Instance: required parameter Engine is missing'')
     ((init_ins 0)\<lparr>i_instance := no_engine\<rparr>)"
  by (rule wp_mono [OF invalid_params_reported [of "(init_ins 0)\<lparr>i_instance := no_engine\<rparr>"
        "requiredParameterError ''Engine''" sample None]])
    (simp_all add: no_engine_error init_ins_def set_owner_def requiredParameterError_def)

section \<open>The specification of the DB instance\<close>

text \<open>
  C21: what becomes of the parameters of an RDSInstance. The blocks of \<open>setDBInstanceSpec\<close>, run one
  after the other, give the first complaint in the order of the code, about a required parameter
  that is missing or a value that does not parse; there is none exactly when the required
  parameters are present and all numbers and booleans parse, and then the specification is the
  old one with each given parameter in its field.
\<close>

theorem params_decided:
  "run_steps param_steps p sp = (case first_error (param_checks p) of
     Some e \<Rightarrow> Inl e | None \<Rightarrow> Inr (apply_params p sp)) \<and>
   (first_error (param_checks p) = None \<longleftrightarrow> valid_params p)"
proof (cases "run_steps param_steps p sp")
  case (Inl e)
  then show ?thesis using run_param_steps_error [of p sp e] run_param_steps [of p sp] by auto
next
  case (Inr sp')
  then have "first_error (param_checks p) = None" using run_param_steps_error [of p sp] by (metis Inl_Inr_False not_None_eq)
  then show ?thesis using Inr run_param_steps [of p sp sp'] by simp
qed

text \<open>
  Making the specification only touches the credential secret of that instance, and its
  result is the desired DB instance, or an error the parameters or the credentials explain. The
  only secret written is a new one with a strong password under the instance's name, or an
  existing one that had no password.
\<close>

theorem spec_is_desired:
  "does (spec_call E (om_name (db_meta db)) ri) (setDBInstanceSpec E db ri)
     (\<lambda>r. case r of Ret db' \<Rightarrow> desired_db ri db db' | Err e \<Rightarrow> spec_error ri e | Panics \<Rightarrow> True)"
  by (rule does_setDBInstanceSpec)

section \<open>Credentials\<close>

text \<open>
  C33: a generated password has twelve characters, at least one digit and one special character,
  only characters of the alphabet, and none of the four that Amazon RDS refuses in a master
  password; making it only draws random numbers.
\<close>

theorem password_is_strong:
  "wp (generatePassword E) (\<lambda>r t. (\<exists>w. t = s\<lparr>world := w\<rparr>) \<and>
     (case r of None \<Rightarrow> True
      | Some pw \<Rightarrow> length pw = 12 \<and> set pw \<inter> set digits \<noteq> {} \<and> set pw \<inter> set specials \<noteq> {} \<and>
          set pw \<subseteq> set all_chars \<and> set pw \<inter> set ''/@ '' = {} \<and> CHR 0x22 \<notin> set pw)) s"
proof -
  have "set all_chars \<inter> set ''/@ '' = {} \<and> CHR 0x22 \<notin> set all_chars" by code_simp
  then have "length pw = 12 \<and> set pw \<inter> set digits \<noteq> {} \<and> set pw \<inter> set specials \<noteq> {} \<and>
      set pw \<subseteq> set all_chars \<and> set pw \<inter> set ''/@ '' = {} \<and> CHR 0x22 \<notin> set pw" if "strong_password pw" for pw
    using that unfolding strong_password_def by blast
  then show ?thesis
    by (intro wp_mono [OF wp_generatePassword [of E s]]) (auto split: option.splits)
qed

text \<open>
  As long as the random sources answer within their bounds and do not fail, generating a
  password always succeeds.
\<close>

theorem password_is_made:
  assumes "rand_ok E" "\<And>n w. fst (crypto_randInt E n w) \<noteq> None"
  shows "wp (generatePassword E) (\<lambda>r _. r \<noteq> None) s"
  by (rule wp_generatePassword_succeeds [OF assms])

lemma password_is_made_example:
  "wp (generatePassword sample) (\<lambda>r _. r \<noteq> None) (init_ins 0)"
  by (rule password_is_made [OF sample_rand_ok]) simp

section \<open>The status of the DB instance\<close>

text \<open>
  The phase of an RDSInstance is always one of the nine known ones, and it is ready exactly
  when the DB instance is available.
\<close>

theorem phase_of_status:
  "ri_phase (setDBInstancePhase db ri) \<in> set known_phases \<and>
   (ri_phase (setDBInstancePhase db ri) = instancePhaseReady \<longleftrightarrow>
    st_dbInstanceStatus (db_status db) = Some ''available'')"
  by (simp add: setDBInstancePhase_known setDBInstancePhase_ready)

text \<open>
  C22: the status map of a DB instance loses nothing. No two of the assignments the code makes
  have the same key, whatever the lengths of the indexed lists, so a key holds a value exactly
  when the code assigned it.
\<close>

theorem status_map_exact:
  "distinct (map fst (status_assigns L (db_status db))) \<and>
   (parseDBInstanceStatus L db k = Some v \<longleftrightarrow> (k, Some v) \<in> set (status_assigns L (db_status db)))"
  using foldl_assign [OF distinct_status_keys, where m = Map.empty]
  by (simp add: parseDBInstanceStatus_def distinct_status_keys)






section \<open>Events\<close>

text \<open>
  C35: the annotations that mark a DB instance as owned by an RDSInstance lead its events back to
  that instance and to no other, whatever other annotations it carries, and annotations for an
  owner of another type lead nowhere.
\<close>

theorem events_reach_owner:
  assumes "owner_annotations_ok L" "SetOwnerAnnotations L ow m = Inr m'"
    and "CHR ''/'' \<notin> set (om_namespace (kobject_meta ow))"
  shows "getOwnerInstanceRequests L m' =
    (if owner_type ow = rdsInstanceType then [object_key (kobject_meta ow)] else [])"
  using annotated_owner_set [OF assms] by (simp add: getOwnerInstanceRequests_def)

lemma events_reach_owner_example:
  "\<exists>m. set_owner (OwnerInstance sample_instance) empty_meta = Inr m \<and>
     getOwnerInstanceRequests sample m = [sample_key ''db1'']"
  using events_reach_owner [OF sample_owner_annotations_ok, of "OwnerInstance sample_instance" empty_meta]
  by (simp add: set_owner_def rdsInstanceType_def sample_instance_def sample_meta_def sample_key_def
      object_key_def)

end
