(* ===== verification/ConnectionProperties.thy ===== *)
theory ConnectionProperties
  imports SampleRuns
begin

text \<open>
  The properties of the connection controller: when it publishes the login and the address of a
  DB instance, what exactly it publishes, and when it calls a connection ready.
\<close>

section \<open>The reconciler\<close>

text \<open>
  C3: whatever the cluster answers, a reconciliation of an RDSConnection makes the calls of the
  protocol \<open>con_trace\<close> and no others, and it ends: it reads the connection, its inventory, the DB
  instance the inventory lists for it and that instance's password, each only if the one before
  was as it must be, then writes the secret, the config map and the references to both; its last
  call writes the status.
\<close>

theorem connection_protocol:
  "wp (Reconcile_connection E req)
     (\<lambda>f t. (f = Stop \<or> f = Panic) \<and> con_trace E req f (history t)) (init_con w)"
  using wp_Reconcile_connection [of E req w] by (auto elim!: wp_mono dest: con_trace_ends)

text \<open>
  C10: the secret of a connection is written only with a complete login of the right DB instance.
  In the same reconciliation the inventory was ready and listed the DB instance under the
  connection's instance id, the DB instance was read and available, its password was read from
  the secret it refers to and is not empty, and what is written is exactly this user and
  password, in an object that the connection controls.
\<close>

theorem published_secret_is_login:
  assumes "run_state (Reconcile_connection E req) (init_con w) = (f, t)"
    and "EvApplySecret new r \<in> set (history t)"
  shows "\<exists>c iv ins db ref sec u p found.
    EvGetConnection req (Inr c) \<in> set (history t) \<and>
    EvGetInventory (con_inventoryRef c) (Inr iv) \<in> set (history t) \<and> inventory_ready E iv \<and>
    find (\<lambda>ins. di_instanceID ins = con_instanceID c) (inv_instances iv) = Some ins \<and>
    EvGetDBInstance \<lparr>k_namespace = k_namespace (con_inventoryRef c), k_name = di_name ins\<rparr> (Inr db) \<in> set (history t) \<and>
    st_dbInstanceStatus (db_status db) = Some ''available'' \<and>
    sp_masterUserPassword (db_spec db) = Some ref \<and>
    EvGetSecret \<lparr>k_namespace = skr_namespace ref, k_name = skr_name ref\<rparr> (Inr sec) \<in> set (history t) \<and>
    login db sec u p \<and>
    EvFetchSecret (fresh_con_secret c) (Inr found) \<in> set (history t) \<and>
    published_secret E c u p (or_fresh found (fresh_con_secret c)) new"
proof -
  have tr: "con_trace E req f (history t)" using wp_run [OF wp_Reconcile_connection assms(1)] .
  obtain c iv rdy l last x where h: "history t = EvGetConnection req (Inr c) #
      EvGetInventory (con_inventoryRef c) (Inr iv) # l @ [EvStatusConnection last x]"
    and iv: "inventory_ready E iv" and l: "con_calls E iv c f rdy l" "EvApplySecret new r \<in> set l"
    by (rule con_trace_write [OF tr assms(2)]) auto
  obtain l1 db l2 sec f' l3 where steps: "lookup_calls iv c Continue l1 db" "login_calls db Continue l2 sec"
    "publish_calls E c db sec f' l3" "l = l1 @ l2 @ l3"
    using con_calls_published [OF l(1)] l(2) by blast
  have "EvApplySecret new r \<in> set l3"
    using l(2) steps lookup_calls_only login_calls_only by auto
  from publish_calls_secret [OF steps(3) this] obtain found where
    found: "controlled_secret E c sec db (or_fresh found (fresh_con_secret c)) = Ret new"
      "EvFetchSecret (fresh_con_secret c) (Inr found) \<in> set l3" by blast
  obtain ins where ins: "find (\<lambda>ins. di_instanceID ins = con_instanceID c) (inv_instances iv) = Some ins"
    "EvGetDBInstance \<lparr>k_namespace = k_namespace (con_inventoryRef c), k_name = di_name ins\<rparr> (Inr db) \<in> set l1"
    "st_dbInstanceStatus (db_status db) = Some ''available''"
    using steps(1) by (auto simp: lookup_calls_Continue)
  obtain ref u p where ref: "sp_masterUserPassword (db_spec db) = Some ref"
    "EvGetSecret \<lparr>k_namespace = skr_namespace ref, k_name = skr_name ref\<rparr> (Inr sec) \<in> set l2" "login db sec u p"
    using steps(2) by (auto simp: login_calls_Continue)
  have "set l1 \<union> set l2 \<union> set l3 \<subseteq> set (history t)" using h steps(4) by auto
  then show ?thesis
    using h iv ins ref found controlled_secret_published [OF found(1) ref(3)]
    by (intro exI [of _ c] exI [of _ iv] exI [of _ ins] exI [of _ db] exI [of _ ref] exI [of _ sec]
        exI [of _ u] exI [of _ p] exI [of _ found]) auto
qed

lemma published_secret_is_login_example:
  "\<exists>c db sec u p old new. login db sec u p \<and> published_secret sample c u p old new \<and>
     st_dbInstanceStatus (db_status db) = Some ''available''"
proof -
  obtain f t where run: "run_state (Reconcile_connection sample (sample_key ''binding'')) (init_con 0) = (f, t)"
    by fastforce
  with sample_con_run obtain new r where "EvApplySecret new r \<in> set (history t)"
    by (fastforce simp: wp_def)
  from published_secret_is_login [OF run this] show ?thesis by blast
qed

text \<open>
  C23: the config map of a connection is written only for an available DB instance with an
  endpoint, read in the same reconciliation, and holds its binding type, the provider, host and
  port of that endpoint, the database name, and nothing else.
\<close>

theorem published_configmap_is_endpoint:
  assumes "run_state (Reconcile_connection E req) (init_con w) = (f, t)"
    and "EvApplyConfigMap new r \<in> set (history t)"
  shows "\<exists>c k db found. EvGetConnection req (Inr c) \<in> set (history t) \<and>
    EvGetDBInstance k (Inr db) \<in> set (history t) \<and> st_dbInstanceStatus (db_status db) = Some ''available'' \<and>
    EvFetchConfigMap (fresh_con_configmap c) (Inr found) \<in> set (history t) \<and>
    published_configmap E c db (or_fresh found (fresh_con_configmap c)) new"
proof -
  have tr: "con_trace E req f (history t)" using wp_run [OF wp_Reconcile_connection assms(1)] .
  obtain c iv rdy l last x where h: "history t = EvGetConnection req (Inr c) #
      EvGetInventory (con_inventoryRef c) (Inr iv) # l @ [EvStatusConnection last x]"
    and l: "con_calls E iv c f rdy l" "EvApplyConfigMap new r \<in> set l"
    by (rule con_trace_write [OF tr assms(2)]) auto
  obtain l1 db l2 sec f' l3 where steps: "lookup_calls iv c Continue l1 db" "login_calls db Continue l2 sec"
    "publish_calls E c db sec f' l3" "l = l1 @ l2 @ l3"
    using con_calls_published [OF l(1)] l(2) by blast
  have "EvApplyConfigMap new r \<in> set l3"
    using l(2) steps lookup_calls_only login_calls_only by auto
  from publish_calls_configmap [OF steps(3) this] obtain found where
    found: "controlled_configmap E c db (or_fresh found (fresh_con_configmap c)) = Ret new"
      "EvFetchConfigMap (fresh_con_configmap c) (Inr found) \<in> set l3" by blast
  obtain k where k: "EvGetDBInstance k (Inr db) \<in> set l1" "st_dbInstanceStatus (db_status db) = Some ''available''"
    using steps(1) by (auto simp: lookup_calls_Continue)
  have "set l1 \<union> set l3 \<subseteq> set (history t)" using h steps(4) by auto
  then show ?thesis
    using h k found controlled_configmap_published [OF found(1)]
    by (intro exI [of _ c] exI [of _ k] exI [of _ db] exI [of _ found]) auto
qed

lemma published_configmap_is_endpoint_example:
  "\<exists>c db old new. published_configmap sample c db old new \<and> st_dbInstanceStatus (db_status db) = Some ''available''"
proof -
  obtain f t where run: "run_state (Reconcile_connection sample (sample_key ''binding'')) (init_con 0) = (f, t)"
    by fastforce
  with sample_con_run obtain new r where "EvApplyConfigMap new r \<in> set (history t)"
    by (fastforce simp: wp_def)
  from published_configmap_is_endpoint [OF run this] show ?thesis by blast
qed

text \<open>
  C13: a connection is ready only with everything in place. If the last status a reconciliation
  writes says so, then in the same reconciliation the secret and the config map were both written
  successfully and references to exactly these two objects were stored in the connection's status.
\<close>

theorem connection_ready_is_published:
  assumes "conditions_ok E" "run_state (Reconcile_connection E req) (init_con w) = (f, t)"
    and "history t = h @ [EvStatusConnection final r]"
    and "condition_true E (con_conditions final) connectionConditionReady"
  shows "\<exists>c. EvGetConnection req (Inr c) \<in> set h \<and> con_published E c h"
proof -
  have "con_trace E req f (history t)" using wp_run [OF wp_Reconcile_connection assms(2)] .
  then obtain c body where b: "h = EvGetConnection req (Inr c) # body" "con_body_trace E c f True body"
    using assms(1,3,4) unfolding con_trace_def by auto
  then obtain iv l where l: "body = EvGetInventory (con_inventoryRef c) (Inr iv) # l" "con_calls E iv c f True l"
    unfolding con_body_trace_def by (auto split: if_splits)
  from con_calls_ready [OF l(2)] have "con_published E c h"
    unfolding con_published_def b(1) l(1) by auto
  with b(1) show ?thesis by auto
qed

lemma connection_ready_is_published_example:
  "\<exists>c h. con_published sample c h"
proof -
  obtain f t where run: "run_state (Reconcile_connection sample (sample_key ''binding'')) (init_con 0) = (f, t)"
    by fastforce
  with sample_con_run obtain h final r where "history t = h @ [EvStatusConnection final r]"
    "condition_true sample (con_conditions final) connectionConditionReady"
    by (fastforce simp: wp_def)
  from connection_ready_is_published [OF sample_conditions_ok run this] show ?thesis by blast
qed

text \<open>
  What a reconciliation of a connection reports is consistent: an error comes with a condition
  that is False and no explicit retry, readiness with neither, and the reason is one the API
  server accepts.
\<close>

theorem connection_report_consistent:
  "wp (con_body E) (\<lambda>f t. if f = Stop then consistent t else f = Panic) (init_con w)"
proof -
  have "unclaimed (init_con w)" by (simp add: init_con_def)
  from wp_con_body [OF refl this] show ?thesis
    by (rule wp_mono) (auto simp: con_body_reported_def dest: con_body_trace_ends)
qed

section \<open>Panics\<close>

text \<open>
  A DB instance that has no status yet makes the reconciliation of its connections panic: the
  code dereferences the status field without a test.
\<close>

theorem missing_status_panics:
  assumes "find (\<lambda>ins. di_instanceID ins = con_instanceID (cn_connection s)) (inv_instances (cn_inventory s)) = Some ins"
    and "api_getDBInstance E \<lparr>k_namespace = k_namespace (con_inventoryRef (cn_connection s)), k_name = di_name ins\<rparr>
      (world s) = (Inr db, w)"
  shows "wp (checkDBInstanceStatus E) (\<lambda>f _. f = Panic \<longleftrightarrow> st_dbInstanceStatus (db_status db) = None) s"
  using assms by (auto simp: checkDBInstanceStatus_def wp_simps Let_def split: option.split)

lemma missing_status_panics_example:
  "wp (checkDBInstanceStatus (sample\<lparr>api_getDBInstance := (\<lambda>k. Pair (Inr empty_db_instance))\<rparr>)) (\<lambda>f _. f = Panic)
     ((init_con 0)\<lparr>cn_connection := sample_connection, cn_inventory := sample_inventory\<rparr>)"
  by (rule wp_mono [OF missing_status_panics [where ins = "\<lparr>di_instanceID = ''orders'', di_name = ''db1'',
        di_instanceInfo = Map.empty\<rparr>" and db = empty_db_instance and w = 0]])
    (simp_all add: sample_lookup init_con_def empty_db_instance_def empty_status_def)

text \<open>
  Making the config map fails, with a nil dereference, exactly when the engine, the endpoint,
  its address or its port is missing; only the endpoint as a whole is tested beforehand.
\<close>

theorem configmap_panics_iff:
  "setConfigMap cm db = None \<longleftrightarrow>
   (sp_engine (db_spec db) = None \<or>
    (case st_endpoint (db_status db) of None \<Rightarrow> True | Some ep \<Rightarrow> ep_address ep = None \<or> ep_port ep = None))"
  by (auto simp: setConfigMap_def Let_def split: option.splits)

section \<open>What is published\<close>

text \<open>
  The port in the config map is a decimal text that reads back as the endpoint's 64-bit port.
\<close>

theorem published_port_roundtrip:
  assumes "setConfigMap cm db = Some cm'"
  shows "\<exists>ep port txt. st_endpoint (db_status db) = Some ep \<and> ep_port ep = Some port \<and>
    data_get (cm_data cm') ''port'' = Some txt \<and> ParseInt txt = Some port"
  using assms
  by (auto simp: setConfigMap_def Let_def data_get_def int64_codec.roundtrip split: option.splits)

lemma published_port_roundtrip_example:
  "\<exists>cm txt. setConfigMap empty_configmap sample_db = Some cm \<and> data_get (cm_data cm) ''port'' = Some txt \<and>
     ParseInt txt = Some 5432"
proof -
  obtain cm where cm: "setConfigMap empty_configmap sample_db = Some cm"
    by (simp add: setConfigMap_def sample_db_facts Let_def)
  from published_port_roundtrip [OF this] cm show ?thesis by (auto simp: sample_db_facts)
qed

text \<open>
  The tables over the engine agree: an engine has a default database exactly when it has a
  binding type, and the database name a new DB instance is given exists for every such engine but
  the SQL servers.
\<close>

theorem engine_tables_agree:
  "(default_database eng = None \<longleftrightarrow> generateBindingType eng = []) \<and>
   (generateDBName eng = None \<longleftrightarrow> generateBindingType eng = [] \<or> generateBindingType eng = ''sqlserver'')"
  by (auto simp: default_database_def generateBindingType_def generateDBName_def engine_defs)

section \<open>Events\<close>

text \<open>
  C36: a connection that reads a DB instance is woken when it changes: if the connection is stored,
  names the DB instance's identifier, and its reconciler looks DB instances up in the DB instance's
  (non-empty) namespace, then a list answered from the index of the code leads to a request for
  it; and every request is for a stored connection that names the identifier.
\<close>

theorem reader_is_woken:
  assumes "sp_dbInstanceIdentifier (db_spec db) = Some i"
    and "api_listConnections E (instanceIDKey, i) (world s) = (Inr items, w)" "index_answer instance_id_index cs i items"
    and "c \<in> cs" "con_instanceID c = i" "k_namespace (con_inventoryRef c) = om_namespace (db_meta db)"
    and "om_namespace (db_meta db) \<noteq> []"
  shows "wp (getInstanceConnectionRequests E db) (\<lambda>r _. \<exists>ks. r = Some ks \<and> object_key (con_meta c) \<in> set ks \<and>
    set ks \<subseteq> (\<lambda>c. object_key (con_meta c)) ` {c \<in> cs. con_instanceID c = i}) s"
  using assms
  by (force simp: getInstanceConnectionRequests_def wp_simps connection_matches_def index_answer_def instance_id_index_def)

lemma reader_is_woken_example:
  "wp (getInstanceConnectionRequests sample sample_db)
     (\<lambda>r _. \<exists>ks. r = Some ks \<and> object_key (con_meta sample_connection) \<in> set ks) (init_con 0)"
  by (rule wp_mono [OF reader_is_woken [where i = "''orders''" and items = "[sample_connection]" and w = 0 and
        cs = "{sample_connection}" and c = sample_connection]])
    (auto simp: sample_db_def sample_connection_def sample_meta_def sample_key_def init_con_def index_answer_def
      instance_id_index_def)

end
