(* ===== verification/InventoryProperties.thy ===== *)
theory InventoryProperties
  imports SampleInventory
begin

text \<open>
  The properties of the inventory controller: what it does for a live inventory and why, when it
  calls one ready, how it takes one down, and how its two unbounded loops end.
\<close>

section \<open>The reconciler\<close>

text \<open>
  C2: whatever the cluster and AWS answer, a reconciliation of an RDSInventory follows the protocol
  \<open>inv_trace\<close>: after reading the inventory, a live one with the finalizer only sees calls that
  the calls before them justify (credentials, configuration, adoption, passwords, status), one
  without the finalizer only gets it, one that is being deleted is taken down in order, and the
  last call writes the status.
\<close>

theorem inventory_protocol:
  "wp (Reconcile_inventory E N (Suc n) req) (\<lambda>f t. inv_trace E N req f (history t)) (init_inv w)"
  by (rule wp_Reconcile_inventory)

text \<open>
  C11: an inventory is ready only when everything is done. If the last status a reconciliation
  writes says so, then in the same reconciliation the inventory was live and carried the finalizer,
  the ACK controller's secret and config map were written and its deployment had a ready replica,
  every DB instance that AWS lists and is not being deleted was known to the cluster, every adopted
  DB instance had its password, and the status with all DB instances was stored.
\<close>

theorem inventory_ready_is_synced:
  assumes "conditions_ok E" "run_state (Reconcile_inventory E N (Suc n) req) (init_inv w) = (f, t)" "f \<noteq> Diverge"
    and "history t = h @ [EvStatusInventory final r]" "condition_true E (inv_conditions final) inventoryConditionReady"
  shows "\<exists>iv. EvGetInventory req (Inr iv) \<in> set h \<and> inv_live iv \<and> inv_guarded E iv \<and> synced E N iv h"
proof -
  have "inv_trace E N req f (history t)" using wp_run [OF wp_Reconcile_inventory assms(2)] .
  then obtain iv where iv: "inv_body_trace E N iv f [EvGetInventory req (Inr iv)] h"
    "inv_live iv" "inv_guarded E iv" "synced E N iv h"
    using assms(1,3,4,5) unfolding inv_trace_def by auto
  then have "EvGetInventory req (Inr iv) \<in> set h"
    by (auto simp: inv_body_trace_def dest: grows_prefix)
  with iv show ?thesis by blast
qed

lemma inventory_ready_is_synced_example:
  "\<exists>iv h. inv_live iv \<and> synced sample ''ack'' iv h"
proof -
  obtain f t where run: "run_state (Reconcile_inventory sample ''ack'' (Suc (Suc 0)) (sample_key ''inventory'')) (init_inv 0) = (f, t)"
    by fastforce
  obtain h final r where h: "f \<noteq> Diverge" "history t = h @ [EvStatusInventory final r]"
    "condition_true sample (inv_conditions final) inventoryConditionReady"
    using wp_run [OF sample_inv_run run] by blast
  from inventory_ready_is_synced [OF sample_conditions_ok run h] show ?thesis by blast
qed

section \<open>Why a call is made\<close>

text \<open>The calls with a purpose of their own; the take-down makes none of them.\<close>

fun purposeful :: "event \<Rightarrow> bool" where
  "purposeful (EvCreateAdopted _ _) = True"
| "purposeful (EvUpdateDBInstance _ _) = True"
| "purposeful (EvModifyDBInstance _ _ _) = True"
| "purposeful (EvApplySecret _ _) = True"
| "purposeful (EvApplyConfigMap _ _) = True"
| "purposeful _ = False"

lemma deletion_not_purposeful:
  assumes "deletion_trace L N iv h" "e \<in> set h"
  shows "\<not> purposeful e"
proof -
  have down: "\<not> purposeful e" if "taken_down L N iv h' st" "e \<in> set h'" for h' st
    using taken_down_writes [OF that] by (cases e) auto
  have ends: "\<not> purposeful e" if "ends_in st N es" "e \<in> set es" for st es
    using that by (auto simp: ends_in_def split: stage.splits)
  show ?thesis
    using assms down ends unfolding deletion_trace_def list_all_iff by fastforce
qed

lemma inv_trace_purposeful:
  assumes "inv_trace E N req f h" "h = h1 @ e # h2" "purposeful e"
  obtains iv where "EvGetInventory req (Inr iv) \<in> set h1" "inv_live iv" "inv_guarded E iv" "inv_call E N iv h1 e"
proof -
  note claim = that
  have body: thesis if tr: "inv_body_trace E N iv f [EvGetInventory req (Inr iv)] b" and b: "b = h1 @ e # h2'" for iv b h2'
  proof -
    have e: "e \<in> set b" "e \<noteq> EvGetInventory req (Inr iv)" using b assms(3) by auto
    have g: "inv_live iv" "inv_guarded E iv" "grows (inv_call E N iv) [EvGetInventory req (Inr iv)] b"
      using tr e assms(3) unfolding inv_body_trace_def by (auto dest: deletion_not_purposeful split: if_splits)
    obtain l1 where h1: "h1 = EvGetInventory req (Inr iv) # l1"
      using grows_prefix [OF g(3)] e(2) b by (cases h1) auto
    have "inv_call E N iv h1 e"
      using grows_justified [OF g(3), of l1 e h2'] b h1 by simp
    then show thesis using claim [of iv] g h1 by simp
  qed
  from assms(1) consider (no) e' where "h = [EvGetInventory req (Inl e')]"
    | (div) iv where "inv_body_trace E N iv f [EvGetInventory req (Inr iv)] h"
    | (run) iv b last r where "h = b @ [EvStatusInventory last r]" "inv_body_trace E N iv f [EvGetInventory req (Inr iv)] b"
    unfolding inv_trace_def by blast
  then show thesis
  proof cases
    case no
    then show ?thesis using assms(2,3) by (cases h1) auto
  next
    case div
    then show ?thesis using body assms(2) by blast
  next
    case run
    then obtain h2' where "b = h1 @ e # h2'"
      using assms(2,3) by (cases h2 rule: rev_cases) auto
    then show ?thesis using body run(2) by blast
  qed
qed

text \<open>
  C15: only what is missing is adopted. When an AdoptedResource is created, the calls made before
  have read, with valid credentials, the pages of AWS and the cluster's DB instances and adopted
  resources; the resource is for one of AWS's instances, not being deleted and in neither of the
  two lists, and it asks for a DB instance with the adopted label in the inventory's namespace.
\<close>

theorem adoption_exact:
  assumes "run_state (Reconcile_inventory E N (Suc n) req) (init_inv w) = (f, t)"
    and "history t = h1 @ EvCreateAdopted ad r # h2"
  shows "\<exists>iv c aws a i dbs ads. EvGetInventory req (Inr iv) \<in> set h1 \<and> inv_live iv \<and> inv_guarded E iv \<and>
    valid_creds iv h1 c \<and> listed_by_aws c h1 aws \<and> a \<in> set aws \<and> cluster_listed iv h1 dbs ads \<and>
    adoptable dbs ads a i \<and> ad_nameOrID ad = Some i \<and> ad_targetNamespace ad = om_namespace (inv_meta iv) \<and>
    ad_targetLabels ad = [adpotedDBInstanceLabelKey \<mapsto> adpotedDBInstanceLabelValue]"
proof -
  have tr: "inv_trace E N req f (history t)" using wp_run [OF wp_Reconcile_inventory assms(1)] .
  obtain iv where iv: "EvGetInventory req (Inr iv) \<in> set h1" "inv_live iv" "inv_guarded E iv" "adopts E iv h1 ad"
    by (rule inv_trace_purposeful [OF tr assms(2)]) auto
  from iv(4) obtain c aws a i dbs ads m where ad: "valid_creds iv h1 c" "listed_by_aws c h1 aws" "a \<in> set aws"
    "cluster_listed iv h1 dbs ads" "adoptable dbs ads a i" "ad = (createAdoptedResource E i iv)\<lparr>ad_meta := m\<rparr>"
    unfolding adopts_def cluster_listed_def by blast
  then have "ad_nameOrID ad = Some i" "ad_targetNamespace ad = om_namespace (inv_meta iv)"
    "ad_targetLabels ad = [adpotedDBInstanceLabelKey \<mapsto> adpotedDBInstanceLabelValue]"
    by (simp_all add: createAdoptedResource_def)
  with iv ad show ?thesis by blast
qed

lemma adoption_exact_example:
  "\<exists>iv h c aws a i. valid_creds iv h c \<and> listed_by_aws c h aws \<and> a \<in> set aws \<and> aws_dbInstanceIdentifier a = Some i"
proof -
  obtain f t where run: "run_state (Reconcile_inventory (with_dbs []) ''ack'' (Suc (Suc 0)) (sample_key ''inventory'')) (init_inv 0) = (f, t)"
    by fastforce
  obtain ad r where "EvCreateAdopted ad r \<in> set (history t)" using wp_run [OF unknown_db_run run] by blast
  then obtain h1 h2 where "history t = h1 @ EvCreateAdopted ad r # h2" by (auto dest: split_list)
  from adoption_exact [OF run this] show ?thesis unfolding adoptable_def by blast
qed

text \<open>
  C9: the controller changes a DB instance only for one of two reasons. Either it records a password
  that AWS has accepted for an adopted DB instance without one; that is the password of the DB
  instance's own secret, which was read under its credentials name, or created for it with it as the
  owner, or completed by an update when it was found without a password. Or it fills in the user or
  the database of an adopted DB instance as reported by an entry for it in the list that AWS gave
  for the inventory's validated credentials.
\<close>

theorem password_recorded_after_aws:
  assumes "run_state (Reconcile_inventory E N (Suc n) req) (init_inv w) = (f, t)"
    and "history t = h1 @ EvUpdateDBInstance db1 r # h2"
  shows "\<exists>iv db. EvGetInventory req (Inr iv) \<in> set h1 \<and>
    ((\<exists>c pw. valid_creds iv h1 c \<and> password_for E iv h1 db pw \<and>
        EvModifyDBInstance c (password_input db pw) None \<in> set h1 \<and>
        with_credentials (om_namespace (inv_meta iv)) db db1) \<or>
     (\<exists>c aws a. valid_creds iv h1 c \<and> listed_by_aws c h1 aws \<and> a \<in> set aws \<and>
        adopted_db iv h1 db \<and> aws_dbInstanceIdentifier a = sp_dbInstanceIdentifier (db_spec db) \<and>
        needs_fill db a \<and> db1 = fill_connection_info db a))"
proof -
  have tr: "inv_trace E N req f (history t)" using wp_run [OF wp_Reconcile_inventory assms(1)] .
  obtain iv where iv: "EvGetInventory req (Inr iv) \<in> set h1" "records_password E iv h1 db1 \<or> fills iv h1 db1"
    by (rule inv_trace_purposeful [OF tr assms(2)]) auto
  then show ?thesis unfolding records_password_def fills_def by blast
qed

lemma password_recorded_after_aws_example:
  "\<exists>iv h db c pw. (password_for (with_dbs [bare_db]) iv h db pw \<and> EvModifyDBInstance c (password_input db pw) None \<in> set h) \<or>
     adopted_db iv h db"
proof -
  obtain f t where run: "run_state (Reconcile_inventory (with_dbs [bare_db]) ''ack'' (Suc (Suc 0)) (sample_key ''inventory'')) (init_inv 0) = (f, t)"
    by fastforce
  obtain db1 r where "EvUpdateDBInstance db1 r \<in> set (history t)" using wp_run [OF no_password_run run] by blast
  then obtain h1 h2 where "history t = h1 @ EvUpdateDBInstance db1 r # h2" by (auto dest: split_list)
  from password_recorded_after_aws [OF run this] show ?thesis by blast
qed

text \<open>
  C19: the ACK controller gets the user's credentials and no others. The secret written for it holds
  exactly the access key and the secret key of the credentials secret that was read and validated
  before, neither of them empty, is owned by the inventory and carries its labels.
\<close>

theorem ack_secret_is_users:
  assumes "run_state (Reconcile_inventory E N (Suc n) req) (init_inv w) = (f, t)"
    and "history t = h1 @ EvApplySecret new r # h2"
  shows "\<exists>iv k cred found. EvGetInventory req (Inr iv) \<in> set h1 \<and>
    inv_credentialsRef iv = Some k \<and> EvGetSecret k (Inr cred) \<in> set h1 \<and>
    EvFetchSecret (fresh_ack_secret N) (Inr found) \<in> set h1 \<and>
    SetOwnerAnnotations E (OwnerInventory iv) ((sec_meta (or_fresh found (fresh_ack_secret N)))\<lparr>om_labels :=
      buildInventoryLabels E iv\<rparr>) = Inr (sec_meta new) \<and>
    data_get (sec_data new) awsAccessKeyID = data_get (sec_data cred) awsAccessKeyID \<and>
    data_get (sec_data new) awsSecretAccessKey = data_get (sec_data cred) awsSecretAccessKey \<and>
    data_get (sec_data new) awsAccessKeyID \<notin> {None, Some []} \<and>
    data_get (sec_data new) awsSecretAccessKey \<notin> {None, Some []} \<and>
    (\<forall>f. f \<notin> {awsAccessKeyID, awsSecretAccessKey} \<longrightarrow> data_get (sec_data new) f = None)"
proof -
  have tr: "inv_trace E N req f (history t)" using wp_run [OF wp_Reconcile_inventory assms(1)] .
  obtain iv where iv: "EvGetInventory req (Inr iv) \<in> set h1" "configures_secret E N iv h1 new"
    by (rule inv_trace_purposeful [OF tr assms(2)]) auto
  then obtain cred found where c: "validated_by iv h1 cred" "EvFetchSecret (fresh_ack_secret N) (Inr found) \<in> set h1"
    "SetOwnerAnnotations E (OwnerInventory iv) ((sec_meta (or_fresh found (fresh_ack_secret N)))\<lparr>om_labels :=
      buildInventoryLabels E iv\<rparr>) = Inr (sec_meta new)"
    "sec_data new = Some [awsAccessKeyID \<mapsto> fst (creds_of cred), awsSecretAccessKey \<mapsto> fst (snd (creds_of cred))]"
    unfolding configures_secret_def by blast
  have "data_get (sec_data new) awsAccessKeyID = data_get (sec_data cred) awsAccessKeyID"
    "data_get (sec_data new) awsSecretAccessKey = data_get (sec_data cred) awsSecretAccessKey"
    "data_get (sec_data new) awsAccessKeyID \<notin> {None, Some []}" "data_get (sec_data new) awsSecretAccessKey \<notin> {None, Some []}"
    using c(1,4) by (auto simp: validated_by_def creds_of_def data_get_def data_or_empty_def split: option.splits)
  moreover have "\<forall>f. f \<notin> {awsAccessKeyID, awsSecretAccessKey} \<longrightarrow> data_get (sec_data new) f = None"
    using c(4) by (simp add: data_get_def)
  ultimately show ?thesis
    using iv(1) c(1-3) unfolding validated_by_def by blast
qed

lemma ack_secret_is_users_example:
  "\<exists>k cred h. EvGetSecret k (Inr cred) \<in> set h \<and> data_get (sec_data cred) awsAccessKeyID \<notin> {None, Some []}"
proof -
  obtain f t where run: "run_state (Reconcile_inventory sample ''ack'' (Suc (Suc 0)) (sample_key ''inventory'')) (init_inv 0) = (f, t)"
    by fastforce
  obtain h final r where h: "f \<noteq> Diverge" "history t = h @ [EvStatusInventory final r]"
    "condition_true sample (inv_conditions final) inventoryConditionReady"
    using wp_run [OF sample_inv_run run] by blast
  have "inv_trace sample ''ack'' (sample_key ''inventory'') f (history t)" using wp_run [OF wp_Reconcile_inventory run] .
  then obtain iv where "synced sample ''ack'' iv h"
    using h sample_conditions_ok unfolding inv_trace_def by auto
  then obtain new res where "EvApplySecret new res \<in> set (history t)"
    unfolding synced_def ack_installed_def h(2) by auto
  then obtain h1 h2 where "history t = h1 @ EvApplySecret new res # h2" by (auto dest: split_list)
  from ack_secret_is_users [OF run this] show ?thesis by metis
qed

text \<open>
  The configuration of the ACK controller has the user's region, and the user's log level and
  resource tags when the credentials give them, else the defaults; nothing else of the
  credentials goes into it.
\<close>

theorem ack_config_values:
  "ack_config cred f =
     (if f = awsRegion then Some (data_or_empty (sec_data cred) awsRegion)
      else if f = ackLogLevel then Some (case data_get (sec_data cred) ackLogLevel of Some l \<Rightarrow> l | None \<Rightarrow> ''info'')
      else if f = ackResourceTags then
        Some (case data_get (sec_data cred) ackResourceTags of Some g \<Rightarrow> g | None \<Rightarrow> ''rhoda'')
      else if f \<in> {awsEndpointUrl, ackWatchNamespace} then Some []
      else if f = ackEnableDevelopmentLogging then Some ''false'' else None)"
  by (simp add: ack_config_def Let_def split: option.split)

section \<open>Credentials\<close>

text \<open>
  The credentials step goes on exactly when the secret can be read and has a non-empty access
  key, secret key and region; otherwise it stops with an error. A credentials secret that does not
  exist is reported as a backend error, although the code first sets the reason NotFound.
\<close>

theorem credentials_required:
  assumes "inv_credentialsRef (iv_inventory s) = Some k" "api_getSecret E k (world s) = (r, w)"
  shows "wp (validateAWSParameter E) (\<lambda>f t.
    case r of
      Inl e \<Rightarrow> f = Stop \<and> r_err t = Some e \<and> v_reason t = inventoryStatusReasonBackendError
    | Inr cred \<Rightarrow>
        if \<forall>k \<in> {awsAccessKeyID, awsSecretAccessKey, awsRegion}. data_get (sec_data cred) k \<notin> {None, Some []}
        then f = Continue \<and> (iv_accessKey t, iv_secretKey t, iv_region t) = creds_of cred
        else f = Stop \<and> v_reason t = inventoryStatusReasonInputError \<and>
          (\<exists>k \<in> {awsAccessKeyID, awsSecretAccessKey, awsRegion}. data_get (sec_data cred) k \<in> {None, Some []} \<and>
             r_err t = Some (requiredCredentialError k))) s"
  using assms
  by (auto simp: validateAWSParameter_def credentials_unread_def require_credentials_def require_credential_def
      wp_simps creds_of_def data_or_empty_def inv_returnError_def split: sum.split option.split)

lemma credentials_required_example:
  "wp (validateAWSParameter (sample\<lparr>api_getSecret := (\<lambda>k. Pair (Inl not_found_error))\<rparr>))
     (\<lambda>f t. f = Stop \<and> v_reason t = inventoryStatusReasonBackendError)
     ((init_inv 0)\<lparr>iv_inventory := sample_inventory\<rparr>)"
  by (rule wp_mono [OF credentials_required [where k = "sample_key ''aws''" and r = "Inl not_found_error" and w = 0]])
    (simp_all add: sample_inventory_facts init_inv_def)

section \<open>Deletion\<close>

lemma inv_body_trace_prefix: "inv_body_trace E N iv f h0 h \<Longrightarrow> \<exists>l. h = h0 @ l"
  unfolding inv_body_trace_def by (auto dest: grows_prefix split: if_splits)

lemma inv_trace_dead:
  assumes "inv_trace E N req f h" "h = EvGetInventory req (Inr iv) # l" "\<not> inv_live iv"
  shows "\<exists>l' last r. l = l' @ [EvStatusInventory last r] \<and> (l' = [] \<or> deletion_trace E N iv l')"
proof -
  have dead: "f \<noteq> Diverge \<and> (\<exists>l'. b = EvGetInventory req (Inr iv) # l' \<and> (l' = [] \<or> deletion_trace E N iv l'))"
    if tr: "inv_body_trace E N iv' f [EvGetInventory req (Inr iv')] b" and b: "hd b = EvGetInventory req (Inr iv)" for iv' b
  proof -
    have "iv' = iv" using inv_body_trace_prefix [OF tr] b by auto
    with tr assms(3) show ?thesis by (auto simp: inv_body_trace_def split: if_splits)
  qed
  from assms(1,2) consider (div) iv' where "f = Diverge" "inv_body_trace E N iv' f [EvGetInventory req (Inr iv')] h"
    | (run) iv' b last r where "h = b @ [EvStatusInventory last r]" "inv_body_trace E N iv' f [EvGetInventory req (Inr iv')] b"
    unfolding inv_trace_def by auto
  then show ?thesis
  proof cases
    case div
    then show ?thesis using dead assms(2) by fastforce
  next
    case run
    then have "b \<noteq> []" using inv_body_trace_prefix by fastforce
    then have "hd b = EvGetInventory req (Inr iv)" using run(1) assms(2) by (cases b) auto
    from dead [OF run(2) this] run(1) assms(2) show ?thesis by auto
  qed
qed

text \<open>
  C14: the take-down refines its state machine: an inventory being deleted loses its finalizer only
  at the end of a complete one. All calls between the reading of the inventory and this update
  are a run of \<open>taken_down\<close> to its last state, where no adopted resource of the inventory was
  listed, the deployment had no replicas or was scaled to none, and the secret and then the config
  map were not found; and the update only removes the finalizer.
\<close>

theorem finalizer_removed_last:
  assumes "run_state (Reconcile_inventory E N (Suc n) req) (init_inv w) = (f, t)"
    and "history t = EvGetInventory req (Inr iv) # h1 @ EvUpdateInventory iv' r # h2" "\<not> inv_live iv"
  shows "taken_down E N iv h1 ConfigGone \<and>
    iv' = iv\<lparr>inv_meta := RemoveFinalizer E (inv_meta iv) inventoryFinalizer\<rparr>"
proof -
  have writes: "EvUpdateInventory iv' r \<notin> set h" if "taken_down E N iv h st" for h st
    using taken_down_writes [OF that] by force
  have ends: "EvUpdateInventory iv' r \<notin> set es" if "ends_in st N es" for st es
    using that by (auto simp: ends_in_def split: stage.splits)
  have "inv_trace E N req f (history t)" using wp_run [OF wp_Reconcile_inventory assms(1)] .
  from inv_trace_dead [OF this assms(2,3)] obtain l last x where
    b: "h1 @ EvUpdateInventory iv' r # h2 = l @ [EvStatusInventory last x]" "l = [] \<or> deletion_trace E N iv l"
    by blast
  then obtain h2' where l: "deletion_trace E N iv l" "l = h1 @ EvUpdateInventory iv' r # h2'"
    by (cases h2 rule: rev_cases) auto
  then obtain h1' r' where h: "l = h1' @ [EvUpdateInventory (iv\<lparr>inv_meta := RemoveFinalizer E (inv_meta iv) inventoryFinalizer\<rparr>) r']"
    "taken_down E N iv h1' ConfigGone"
  proof -
    have u: "EvUpdateInventory iv' r \<in> set l" using l(2) by simp
    from l(1) consider e where "l = [EvListAdopted (om_namespace (inv_meta iv)) (Inl e)]"
      | items dels where "l = EvListAdopted (om_namespace (inv_meta iv)) (Inr items) # dels"
          "\<forall>e \<in> set dels. \<exists>a r. e = EvDeleteAdopted a r"
      | st h es where "l = h @ es" "taken_down E N iv h st" "ends_in st N es"
      | h x where "l = h @ [EvUpdateInventory (iv\<lparr>inv_meta := RemoveFinalizer E (inv_meta iv) inventoryFinalizer\<rparr>) x]"
          "taken_down E N iv h ConfigGone"
      unfolding deletion_trace_def list_all_iff by metis
    then show thesis by cases (use u writes ends that in auto)
  qed
  have "h2' = []"
    using l(2) h(1) writes [OF h(2)] by (cases h2' rule: rev_cases) auto
  with l(2) h show ?thesis by simp
qed

lemma finalizer_removed_last_example:
  "\<exists>h. taken_down closing ''ack'' leaving_inventory h ConfigGone"
proof -
  obtain f t where run: "run_state (Reconcile_inventory closing ''ack'' (Suc 0) (sample_key ''inventory'')) (init_inv 0) = (f, t)"
    by fastforce
  obtain iv' r where u: "EvUpdateInventory iv' r \<in> set (history t)" "EvGetInventory (sample_key ''inventory'') (Inr leaving_inventory) = hd (history t)"
    using wp_run [OF closing_run run] by blast
  then obtain h1 h2 where "history t = EvGetInventory (sample_key ''inventory'') (Inr leaving_inventory) # h1 @ EvUpdateInventory iv' r # h2"
    by (cases "history t") (auto dest: split_list)
  from finalizer_removed_last [OF run this] show ?thesis
    by (auto simp: leaving_inventory_def sample_inventory_def sample_meta_def time_IsZero_def)
qed

text \<open>
  C37: an inventory cannot be deleted once the ACK deployment is gone: with no adopted resource
  left, a deployment that is not found ends the finalizer check with that error, and the inventory
  keeps its finalizer.
\<close>

theorem missing_deployment_blocks_deletion:
  assumes "\<not> inv_live (iv_inventory s)" "inv_guarded E (iv_inventory s)"
    and "api_listAdopted E (om_namespace (inv_meta (iv_inventory s))) (world s) = (Inr [], wa)"
    and "api_getDeployment E (deployment_key N) wa = (Inl e, wb)"
  shows "wp (inv_checkFinalizer E N (Suc n)) (\<lambda>f t. f = Stop \<and> r_err t = Some e \<and>
    v_message t = inventoryStatusMessageUninstallError \<and> iv_inventory t = iv_inventory s \<and>
    (\<forall>iv r. EvUpdateInventory iv r \<in> set (history t) \<longrightarrow> EvUpdateInventory iv r \<in> set (history s))) s"
  using assms
  by (simp add: inv_checkFinalizer_def delete_adopted_resources_def uninstall_controller_def stopRDSController_def
      wp_simps inv_returnError_def report_def Let_def)

lemma missing_deployment_blocks_deletion_example:
  "wp (inv_checkFinalizer (closing\<lparr>api_getDeployment := (\<lambda>k. Pair (Inl not_found_error))\<rparr>) ''ack'' (Suc 0))
     (\<lambda>f t. f = Stop \<and> r_err t = Some not_found_error) ((init_inv 0)\<lparr>iv_inventory := leaving_inventory\<rparr>)"
  by (rule wp_mono [OF missing_deployment_blocks_deletion [where e = not_found_error and wa = 0 and wb = 0]])
    (simp_all add: leaving_inventory_def sample_inventory_def sample_meta_def time_IsZero_def closing_def
      inventoryFinalizer_def init_inv_def)

section \<open>Status\<close>

text \<open>
  The status lists every DB instance of the namespace, in the order of the listing, under its
  identifier, with its name and what its status says; it cannot be made, and the code panics,
  exactly when one has no identifier.
\<close>

theorem status_lists_all:
  "listed_instances L dbs =
     (if None \<in> (\<lambda>db. sp_dbInstanceIdentifier (db_spec db)) ` set dbs then None
      else Some (map (\<lambda>db. \<lparr>di_instanceID = the (sp_dbInstanceIdentifier (db_spec db)),
                             di_name = om_name (db_meta db), di_instanceInfo = parseDBInstanceStatus L db\<rparr>) dbs))"
  by (induction dbs) (auto simp: listed_instance_def split: option.split)

text \<open>
  What a reconciliation of an inventory reports is consistent: an error comes with a condition
  that is False and no explicit retry, readiness with neither, an unknown condition with a retry,
  and the reason is one the API server accepts.
\<close>

theorem inventory_report_consistent:
  "wp (inv_body E N n) (\<lambda>f t. f = Stop \<longrightarrow> consistent t) s"
  by (rule wp_inv_body_consistent)

lemma inventory_report_consistent_example:
  "\<exists>t. consistent (t :: nat inv_st)"
proof -
  obtain f t where run: "run_state (inv_body sample ''ack'' (Suc (Suc 0))) ((init_inv 0)\<lparr>iv_inventory := sample_inventory\<rparr>) = (f, t)"
    by fastforce
  have "f = Stop"
    using wp_run [OF sample_inv_body run] by (simp add: init_inv_def)
  with wp_run [OF inventory_report_consistent run] show ?thesis by blast
qed

end
