(* ===== verification/Visibility.thy ===== *)
theory Visibility
  imports Manager Credential InstanceProperties ConnectionProperties InventoryProperties
begin

text \<open>
  The manager's client reads secrets and config maps from a cache that only holds objects with
  the type label (\<open>main.go\<close>). Every secret and config map the reconcilers create, they create
  with that label, so that their own later reads find it. The proof follows the structure of
  the programs call by call.
\<close>

section \<open>Programs whose calls satisfy a predicate\<close>

named_theorems logs_intros \<open>rules that follow the structure of a program down to its calls\<close>

definition logs :: "('e \<Rightarrow> bool) \<Rightarrow> (('w, 'e, 'm) gst_scheme, 'a) state \<Rightarrow> bool" where
  "logs P m \<longleftrightarrow> (\<forall>s. list_all P (history s) \<longrightarrow> wp m (\<lambda>_ t. list_all P (history t)) s)"

lemma logsD: "logs P m \<Longrightarrow> list_all P (history s) \<Longrightarrow> wp m (\<lambda>_ t. list_all P (history t)) s"
  by (simp add: logs_def)

lemma logs_return [logs_intros]: "logs P (State_Monad.return a)"
  by (simp add: logs_def wp_simps)

lemma logs_get [logs_intros]: "logs P State_Monad.get"
  by (simp add: logs_def wp_simps)

lemma logs_update [logs_intros]: "(\<And>s. history (f s) = history s) \<Longrightarrow> logs P (State_Monad.update f)"
  by (simp add: logs_def wp_simps)

lemma logs_stop_with [logs_intros]: "(\<And>s. history (f s) = history s) \<Longrightarrow> logs P (stop_with f)"
  by (simp add: logs_def wp_simps)

lemma logs_api [logs_intros]: "(\<And>r. P (ev r)) \<Longrightarrow> logs P (api_call f ev)"
  by (simp add: logs_def wp_simps split: prod.splits)

lemma logs_silent [logs_intros]: "logs P (silent_call f)"
  by (simp add: logs_def wp_simps split: prod.splits)

lemma logs_bind [logs_intros]:
  assumes "logs P m" and "\<And>a. logs P (f a)"
  shows "logs P (m \<bind> f)"
  unfolding logs_def wp_bind
  by (intro allI impI, rule wp_mono [OF logsD [OF assms(1)]]) (use assms(2) in \<open>auto simp: logs_def\<close>)

lemma logs_if [logs_intros]: "(b \<Longrightarrow> logs P m) \<Longrightarrow> (\<not> b \<Longrightarrow> logs P n) \<Longrightarrow> logs P (if b then m else n)"
  by simp

lemma logs_case_option [logs_intros]:
  "(x = None \<Longrightarrow> logs P m) \<Longrightarrow> (\<And>a. x = Some a \<Longrightarrow> logs P (f a)) \<Longrightarrow>
   logs P (case x of None \<Rightarrow> m | Some a \<Rightarrow> f a)"
  by (cases x) simp_all

lemma logs_case_sum [logs_intros]:
  "(\<And>e. x = Inl e \<Longrightarrow> logs P (f e)) \<Longrightarrow> (\<And>a. x = Inr a \<Longrightarrow> logs P (g a)) \<Longrightarrow>
   logs P (case x of Inl e \<Rightarrow> f e | Inr a \<Rightarrow> g a)"
  by (cases x) simp_all

lemma logs_case_outcome [logs_intros]:
  "(\<And>a. x = Ret a \<Longrightarrow> logs P (f a)) \<Longrightarrow> (\<And>e. x = Err e \<Longrightarrow> logs P (g e)) \<Longrightarrow> (x = Panics \<Longrightarrow> logs P p) \<Longrightarrow>
   logs P (case x of Ret a \<Rightarrow> f a | Err e \<Rightarrow> g e | Panics \<Rightarrow> p)"
  by (cases x) simp_all

lemma logs_case_prod [logs_intros]: "(\<And>a b. x = (a, b) \<Longrightarrow> logs P (f a b)) \<Longrightarrow> logs P (case x of (a, b) \<Rightarrow> f a b)"
  by (cases x) simp

lemma logs_let [logs_intros]: "logs P (f a) \<Longrightarrow> logs P (let x = a in f x)"
  by simp

lemma logs_on_ret [logs_intros]:
  "logs P m \<Longrightarrow> (\<And>e. logs P (h e)) \<Longrightarrow> (\<And>a. logs P (k a)) \<Longrightarrow> logs P (on_ret m h k)"
  unfolding on_ret_def by (intro logs_intros)

lemma logs_andThen [logs_intros]: "logs P m \<Longrightarrow> logs P n \<Longrightarrow> logs P (andThen m n)"
  unfolding andThen_def by (intro logs_intros)

lemma logs_for_each [logs_intros]: "(\<And>x. logs P (f x)) \<Longrightarrow> logs P (for_each f xs)"
  by (induction xs) (simp_all add: logs_return logs_andThen)

lemma logs_deferring [logs_intros]: "logs P d \<Longrightarrow> logs P m \<Longrightarrow> logs P (deferring d m)"
  unfolding deferring_def by (intro logs_intros)

text \<open>What \<open>CreateOrUpdate\<close> stores is what its mutate function made.\<close>

lemma logs_CreateOrUpdate:
  assumes "\<And>r. P (evf obj r)"
    and "\<And>old s. list_all P (history s) \<Longrightarrow>
      wp (mutate old) (\<lambda>m t. list_all P (history t) \<and> (case m of Ret new \<Rightarrow> M new | _ \<Rightarrow> True)) s"
    and "\<And>new r. M new \<Longrightarrow> P (evs new r)"
  shows "logs P (CreateOrUpdate fetch evf store evs obj mutate)"
  unfolding logs_def
  by (intro allI impI, rule wp_CreateOrUpdate_inv [where I = "\<lambda>t. list_all P (history t)" and M = M])
    (use assms in auto)

lemma logs_CreateOrUpdate_pure:
  assumes "\<And>r. P (evf obj r)" and "\<And>old new r. g old = Ret new \<Longrightarrow> P (evs new r)"
  shows "logs P (CreateOrUpdate fetch evf store evs obj (\<lambda>old. State_Monad.return (g old)))"
  by (rule logs_CreateOrUpdate [where M = "\<lambda>new. \<exists>old. g old = Ret new"])
    (use assms in \<open>auto simp: wp_simps split: outcome.splits\<close>)

section \<open>Labelled writes\<close>

text \<open>The owner helpers of operator-lib and controller-runtime leave the labels alone.\<close>

definition labels_kept :: "'n lib_scheme \<Rightarrow> bool" where
  "labels_kept L \<longleftrightarrow>
     (\<forall>ow m m'. SetOwnerAnnotations L ow m = Inr m' \<longrightarrow> om_labels m' = om_labels m) \<and>
     (\<forall>ow m m'. SetControllerReference L ow m = Inr m' \<longrightarrow> om_labels m' = om_labels m)"

definition labelled :: "'n lib_scheme \<Rightarrow> object_meta \<Rightarrow> bool" where
  "labelled L m \<longleftrightarrow> om_labels m (TypeLabelKey L) = Some (TypeLabelValue L)"

text \<open>A write that creates a secret or config map, or may do so, makes it one the cache holds.\<close>

fun cached_write :: "(smap \<Rightarrow> smap \<Rightarrow> bool) \<Rightarrow> manager_options \<Rightarrow> event \<Rightarrow> bool" where
  "cached_write matches opts (EvCreateSecret sec r) \<longleftrightarrow> in_cache matches opts CachedSecret (sec_meta sec)"
| "cached_write matches opts (EvApplySecret sec r) \<longleftrightarrow> in_cache matches opts CachedSecret (sec_meta sec)"
| "cached_write matches opts (EvApplyConfigMap cm r) \<longleftrightarrow> in_cache matches opts CachedConfigMap (cm_meta cm)"
| "cached_write matches opts _ \<longleftrightarrow> True"

text \<open>A label selector made from a set matches whatever has its labels (\<open>labels.SelectorFromSet\<close>).\<close>

definition selector_ok :: "(smap \<Rightarrow> smap \<Rightarrow> bool) \<Rightarrow> bool" where
  "selector_ok matches \<longleftrightarrow> (\<forall>sel ls. matches sel ls \<longleftrightarrow> sel \<subseteq>\<^sub>m ls)"

lemma labelled_in_cache:
  "selector_ok matches \<Longrightarrow> in_cache matches (main_options L v) k m \<longleftrightarrow> labelled L m"
  by (cases k) (auto simp: selector_ok_def in_cache_def main_options_def labelled_def map_le_def)

lemma controlled_labelled:
  assumes "labels_kept L"
  shows "controlled_secret L c dbSecret db old = Ret sec \<Longrightarrow> labelled L (sec_meta sec)"
    and "controlled_configmap L c db oldm = Ret cm \<Longrightarrow> labelled L (cm_meta cm)"
    and "ack_secret L iv cred old = Ret sec \<Longrightarrow> labelled L (sec_meta sec)"
    and "ack_configmap L iv cred oldm = Ret cm \<Longrightarrow> labelled L (cm_meta cm)"
  using assms
  by (auto simp: controlled_secret_def controlled_configmap_def ack_secret_def ack_configmap_def labels_kept_def
      labelled_def buildConnectionLabels_def buildInventoryLabels_def setSecret_def setConfigMap_def Let_def
      split: sum.splits option.splits)

lemma created_labelled:
  assumes "labels_kept L" "m = empty_meta\<lparr>om_name := n, om_namespace := ns, om_labels := createSecretLabels L ow kind\<rparr>"
    and "(case ow of None \<Rightarrow> Inr m | Some ow \<Rightarrow> SetControllerReference L ow m) = Inr m'"
  shows "labelled L m'"
  using assms by (auto simp: labels_kept_def labelled_def createSecretLabels_def split: option.splits)

section \<open>The controllers\<close>

named_theorems history_simps \<open>reports and updates of variables make no call\<close>

lemmas [history_simps] = ins_returnUpdating_def ins_returnError_def ins_returnNotReady_def ins_returnRequeue_def
  ins_returnReady_def con_returnError_def con_returnRequeue_def con_returnReady_def inv_returnUpdating_def
  inv_returnError_def inv_returnNotReady_def inv_returnRequeue_def inv_returnReady_def after_status_update_def

lemma logs_pick [logs_intros]: "logs P (pick E cs)"
  unfolding pick_def getRandInt_def by (intro logs_intros)

lemma logs_fill_buf [logs_intros]: "logs P (fill_buf E is buf)"
  by (induction E "is" buf rule: fill_buf.induct) (auto intro!: logs_intros split: option.split)

lemma logs_shuffle_buf [logs_intros]: "logs P (shuffle_buf E n buf)"
  by (induction n arbitrary: buf) (auto intro!: logs_intros)

lemma logs_generatePassword [logs_intros]: "logs P (generatePassword E)"
  unfolding generatePassword_def by (intro logs_intros)

lemma logs_setCredentials [logs_intros]:
  assumes "selector_ok matches" "labels_kept E"
  shows "logs (cached_write matches (main_options E v)) (setCredentials E db ns ow kind)"
  unfolding setCredentials_def create_credentials_def ensure_password_def
  by (intro logs_intros) (auto simp: labelled_in_cache [OF assms(1)] intro: created_labelled [OF assms(2) refl])

lemma logs_instance:
  assumes "selector_ok matches" "labels_kept E"
  shows "logs (cached_write matches (main_options E v)) (Reconcile_instance E req)"
proof -
  let ?P = "cached_write matches (main_options E v)"
  have spec: "logs ?P (setDBInstanceSpec E db ri)" for db ri
    unfolding setDBInstanceSpec_def by (intro logs_intros assms)
  have mut: "logs ?P (dbInstance_mutate E inst db)" for inst db
    unfolding dbInstance_mutate_def by (intro logs_intros spec) (auto simp: history_simps)
  have create: "logs ?P (createOrUpdateDBInstance E)"
    unfolding createOrUpdateDBInstance_def instance_applied_def
    by (intro logs_intros logs_CreateOrUpdate [where M = "\<lambda>_. True"])
      (auto simp: history_simps split: outcome.splits intro: wp_mono [OF logsD [OF mut]])
  show ?thesis
    unfolding Reconcile_instance_def updateInstanceReadyCondition_def ins_body_def ins_work_def
      ins_checkFinalizer_def ins_addFinalizer_def ins_removeFinalizer_def syncDBInstanceStatus_def
    by (intro logs_intros create) (auto simp: history_simps)
qed

lemma logs_connection:
  assumes "selector_ok matches" "labels_kept E"
  shows "logs (cached_write matches (main_options E v)) (Reconcile_connection E req)"
  unfolding Reconcile_connection_def updateConnectionReadyCondition_def con_body_def con_work_def
    checkDBInstanceStatus_def checkDBConnectionStatus_def syncConnectionStatus_def record_refs_def
    con_createOrUpdateSecret_def con_createOrUpdateConfigMap_def
  by (intro logs_intros logs_CreateOrUpdate_pure)
    (auto simp: history_simps labelled_in_cache [OF assms(1)] controlled_labelled [OF assms(2)])

lemma logs_get_deployment [logs_intros]:
  "logs (cached_write matches opts) (get_deployment E k wait n)"
proof (induction n)
  case (Suc n)
  show ?case unfolding get_deployment.simps by (intro logs_intros Suc) auto
qed (simp add: logs_return)

lemma logs_read_pages [logs_intros]:
  "logs (cached_write matches opts) (read_pages E c n acc)"
proof (induction n arbitrary: acc)
  case (Suc n)
  show ?case unfolding read_pages.simps by (intro logs_intros Suc) auto
qed (simp add: logs_return)

lemma logs_scale_deployment [logs_intros]:
  "logs (cached_write matches opts) (scale_deployment E d test r)"
  unfolding scale_deployment_def by (intro logs_intros) auto

lemma logs_inv_checkFinalizer:
  "logs (cached_write matches opts) (inv_checkFinalizer E N n)"
  unfolding inv_checkFinalizer_def inv_addFinalizer_def inv_removeFinalizer_def delete_adopted_resources_def
    delete_adopted_def uninstall_controller_def stopRDSController_def delete_ack_secret_def delete_ack_configmap_def
  by (intro logs_intros) (auto simp: history_simps)

lemma logs_installRDSController:
  assumes "selector_ok matches" "labels_kept E"
  shows "logs (cached_write matches (main_options E v)) (installRDSController E N)"
  unfolding installRDSController_def inv_createOrUpdateSecret_def inv_createOrUpdateConfigMap_def
    startRDSController_def waitForRDSController_def
  by (intro logs_intros logs_CreateOrUpdate_pure)
    (auto simp: history_simps labelled_in_cache [OF assms(1)] controlled_labelled [OF assms(2)])

lemma logs_adoptDBInstances:
  assumes "selector_ok matches" "labels_kept E"
  shows "logs (cached_write matches (main_options E v)) (adoptDBInstances E n)"
proof -
  let ?P = "cached_write matches (main_options E v)"
  have reset: "logs ?P (reset_password E creds iv db)" for creds iv db
    unfolding reset_password_def update_adopted_def by (intro logs_intros assms) (auto simp: history_simps)
  have complete: "logs ?P (complete_all E creds)" for creds
    unfolding complete_all_def complete_adopted_def update_adopted_def
    by (intro logs_intros reset) (auto simp: history_simps)
  show ?thesis
    unfolding adoptDBInstances_def adopt_missing_def adopt_one_def
    by (intro logs_intros complete) (auto simp: history_simps)
qed

lemma logs_inventory:
  assumes "selector_ok matches" "labels_kept E"
  shows "logs (cached_write matches (main_options E v)) (Reconcile_inventory E N n req)"
  unfolding Reconcile_inventory_def updateInventoryReadyCondition_def inv_body_def validateAWSParameter_def
    credentials_unread_def require_credentials_def require_credential_def syncDBInstancesStatus_def
  by (intro logs_intros logs_inv_checkFinalizer logs_installRDSController [OF assms] logs_adoptDBInstances [OF assms])
    (auto simp: history_simps)

text \<open>
  C20: every secret and config map that a reconciliation creates or applies, of an instance, a
  connection or an inventory, has the labels the manager's cache selects, so that later
  reconciliations, which read through this cache, see it.
\<close>

theorem created_objects_are_cached:
  assumes "selector_ok matches" "labels_kept E"
  shows "wp (Reconcile_instance E req) (\<lambda>_ t. list_all (cached_write matches (main_options E v)) (history t)) (init_ins w) \<and>
    wp (Reconcile_connection E req) (\<lambda>_ t. list_all (cached_write matches (main_options E v)) (history t)) (init_con w) \<and>
    wp (Reconcile_inventory E N n req) (\<lambda>_ t. list_all (cached_write matches (main_options E v)) (history t)) (init_inv w)"
  by (intro conjI logsD [OF logs_instance [OF assms]] logsD [OF logs_connection [OF assms]]
      logsD [OF logs_inventory [OF assms]]) (simp_all add: init_ins_def init_con_def init_inv_def)

lemma sample_labels_kept: "labels_kept sample"
  by (auto simp: labels_kept_def set_owner_def set_controller_def split: if_splits)

lemma created_objects_are_cached_example:
  "wp (Reconcile_connection sample (sample_key ''binding''))
     (\<lambda>_ t. list_all (cached_write (\<subseteq>\<^sub>m) (main_options sample (initial_vars ()))) (history t)) (init_con 0)"
  using created_objects_are_cached [where matches = "(\<subseteq>\<^sub>m)" and E = sample and v = "initial_vars ()",
    OF _ sample_labels_kept] by (simp add: selector_ok_def)

end
