(* ===== verification/Permissions.thy ===== *)
theory Permissions
  imports InstanceController ConnectionController InventoryController ProviderController
begin

text \<open>
  The operator's role: the \<open>+kubebuilder:rbac\<close> markers of the controllers, from which the manager's
  ClusterRole (\<open>config/rbac/role.yaml\<close>) is generated, against the calls the controllers make.
\<close>

section \<open>The rules\<close>

record rbac_rule =
  rb_groups :: "string list"
  rb_resources :: "string list"
  rb_verbs :: "string list"

definition instance_rules :: "rbac_rule list" where
  "instance_rules =
     [\<lparr>rb_groups = [''dbaas.redhat.com''], rb_resources = [''rdsinstances''],
       rb_verbs = [''get'', ''list'', ''watch'', ''create'', ''update'', ''patch'', ''delete'']\<rparr>,
      \<lparr>rb_groups = [''dbaas.redhat.com''], rb_resources = [''rdsinstances/status''],
       rb_verbs = [''get'', ''update'', ''patch'']\<rparr>,
      \<lparr>rb_groups = [''dbaas.redhat.com''], rb_resources = [''rdsinstances/finalizers''], rb_verbs = [''update'']\<rparr>,
      \<lparr>rb_groups = [''rds.services.k8s.aws''], rb_resources = [''dbinstances''],
       rb_verbs = [''get'', ''list'', ''watch'', ''create'', ''update'', ''delete'']\<rparr>]"

definition connection_rules :: "rbac_rule list" where
  "connection_rules =
     [\<lparr>rb_groups = [''dbaas.redhat.com''], rb_resources = [''rdsconnections''],
       rb_verbs = [''get'', ''list'', ''watch'', ''create'', ''update'', ''patch'', ''delete'']\<rparr>,
      \<lparr>rb_groups = [''dbaas.redhat.com''], rb_resources = [''rdsconnections/status''],
       rb_verbs = [''get'', ''update'', ''patch'']\<rparr>,
      \<lparr>rb_groups = [''dbaas.redhat.com''], rb_resources = [''rdsconnections/finalizers''], rb_verbs = [''update'']\<rparr>,
      \<lparr>rb_groups = [''rds.services.k8s.aws''], rb_resources = [''dbinstances''],
       rb_verbs = [''get'', ''list'', ''watch'']\<rparr>,
      \<lparr>rb_groups = [[]], rb_resources = [''secrets'', ''configmaps''],
       rb_verbs = [''get'', ''list'', ''watch'', ''create'', ''delete'', ''update'']\<rparr>]"

definition inventory_rules :: "rbac_rule list" where
  "inventory_rules =
     [\<lparr>rb_groups = [''dbaas.redhat.com''], rb_resources = [''rdsinventories''],
       rb_verbs = [''get'', ''list'', ''watch'', ''create'', ''update'', ''patch'', ''delete'']\<rparr>,
      \<lparr>rb_groups = [''dbaas.redhat.com''], rb_resources = [''rdsinventories/status''],
       rb_verbs = [''get'', ''update'', ''patch'']\<rparr>,
      \<lparr>rb_groups = [''dbaas.redhat.com''], rb_resources = [''rdsinventories/finalizers''], rb_verbs = [''update'']\<rparr>,
      \<lparr>rb_groups = [''rds.services.k8s.aws''], rb_resources = [''dbinstances''],
       rb_verbs = [''get'', ''list'', ''watch'', ''update'']\<rparr>,
      \<lparr>rb_groups = [''rds.services.k8s.aws''], rb_resources = [''dbinstances/finalizers''], rb_verbs = [''update'']\<rparr>,
      \<lparr>rb_groups = [''services.k8s.aws''], rb_resources = [''adoptedresources''],
       rb_verbs = [''get'', ''list'', ''watch'', ''create'', ''delete'', ''update'']\<rparr>,
      \<lparr>rb_groups = [[]], rb_resources = [''secrets'', ''configmaps''],
       rb_verbs = [''get'', ''list'', ''watch'', ''create'', ''delete'', ''update'']\<rparr>,
      \<lparr>rb_groups = [''apps''], rb_resources = [''deployments''], rb_verbs = [''get'', ''list'', ''watch'']\<rparr>,
      \<lparr>rb_groups = [''apiextensions.k8s.io''], rb_resources = [''customresourcedefinitions''],
       rb_verbs = [''get'', ''list'', ''watch'', ''create'', ''update'', ''delete'']\<rparr>]"

definition provider_rules :: "rbac_rule list" where
  "provider_rules =
     [\<lparr>rb_groups = [''apps''], rb_resources = [''deployments''],
       rb_verbs = [''get'', ''list'', ''create'', ''update'', ''delete'', ''watch'']\<rparr>,
      \<lparr>rb_groups = [''dbaas.redhat.com''], rb_resources = [''dbaasproviders''],
       rb_verbs = [''get'', ''list'', ''watch'', ''create'', ''update'', ''patch'', ''delete'']\<rparr>,
      \<lparr>rb_groups = [''dbaas.redhat.com''], rb_resources = [''dbaasproviders/status''],
       rb_verbs = [''get'', ''update'', ''patch'']\<rparr>]"

definition manager_role :: "rbac_rule list" where
  "manager_role = provider_rules @ connection_rules @ instance_rules @ inventory_rules"

text \<open>A request is a group, a resource and a verb.\<close>

definition allows :: "rbac_rule list \<Rightarrow> string \<times> string \<times> string \<Rightarrow> bool" where
  "allows rules q = (case q of (g, res, verb) \<Rightarrow>
     list_ex (\<lambda>ru. List.member (rb_groups ru) g \<and> List.member (rb_resources ru) res \<and> List.member (rb_verbs ru) verb) rules)"

section \<open>What the calls need\<close>

text \<open>
  A read goes through the manager's cache, which lists and watches the resource;
  \<open>CreateOrUpdate\<close> may create or update; the AWS calls need nothing of the cluster.
\<close>

definition on :: "string \<Rightarrow> string \<Rightarrow> string list \<Rightarrow> (string \<times> string \<times> string) list" where
  "on g res verbs = map (\<lambda>v. (g, res, v)) verbs"

abbreviation reads :: "string list" where "reads \<equiv> [''get'', ''list'', ''watch'']"

primrec needs :: "event \<Rightarrow> (string \<times> string \<times> string) list" where
  "needs (EvGetInventory _ _) = on ''dbaas.redhat.com'' ''rdsinventories'' reads"
| "needs (EvUpdateInventory _ _) = on ''dbaas.redhat.com'' ''rdsinventories'' [''update'']"
| "needs (EvStatusInventory _ _) = on ''dbaas.redhat.com'' ''rdsinventories/status'' [''update'']"
| "needs (EvListInventories _ _) = on ''dbaas.redhat.com'' ''rdsinventories'' reads"
| "needs (EvGetConnection _ _) = on ''dbaas.redhat.com'' ''rdsconnections'' reads"
| "needs (EvStatusConnection _ _) = on ''dbaas.redhat.com'' ''rdsconnections/status'' [''update'']"
| "needs (EvListConnections _ _) = on ''dbaas.redhat.com'' ''rdsconnections'' reads"
| "needs (EvGetInstance _ _) = on ''dbaas.redhat.com'' ''rdsinstances'' reads"
| "needs (EvUpdateInstance _ _) = on ''dbaas.redhat.com'' ''rdsinstances'' [''update'']"
| "needs (EvStatusInstance _ _) = on ''dbaas.redhat.com'' ''rdsinstances/status'' [''update'']"
| "needs (EvGetDBInstance _ _) = on ''rds.services.k8s.aws'' ''dbinstances'' reads"
| "needs (EvListDBInstances _ _ _) = on ''rds.services.k8s.aws'' ''dbinstances'' reads"
| "needs (EvUpdateDBInstance _ _) = on ''rds.services.k8s.aws'' ''dbinstances'' [''update'']"
| "needs (EvDeleteDBInstance _ _) = on ''rds.services.k8s.aws'' ''dbinstances'' [''delete'']"
| "needs (EvFetchDBInstance _ _) = on ''rds.services.k8s.aws'' ''dbinstances'' reads"
| "needs (EvApplyDBInstance _ _) = on ''rds.services.k8s.aws'' ''dbinstances'' [''create'', ''update'']"
| "needs (EvListAdopted _ _) = on ''services.k8s.aws'' ''adoptedresources'' reads"
| "needs (EvCreateAdopted _ _) = on ''services.k8s.aws'' ''adoptedresources'' [''create'']"
| "needs (EvDeleteAdopted _ _) = on ''services.k8s.aws'' ''adoptedresources'' [''delete'']"
| "needs (EvGetSecret _ _) = on [] ''secrets'' reads"
| "needs (EvCreateSecret _ _) = on [] ''secrets'' [''create'']"
| "needs (EvUpdateSecret _ _) = on [] ''secrets'' [''update'']"
| "needs (EvDeleteSecret _ _) = on [] ''secrets'' [''delete'']"
| "needs (EvFetchSecret _ _) = on [] ''secrets'' reads"
| "needs (EvApplySecret _ _) = on [] ''secrets'' [''create'', ''update'']"
| "needs (EvGetConfigMap _ _) = on [] ''configmaps'' reads"
| "needs (EvDeleteConfigMap _ _) = on [] ''configmaps'' [''delete'']"
| "needs (EvFetchConfigMap _ _) = on [] ''configmaps'' reads"
| "needs (EvApplyConfigMap _ _) = on [] ''configmaps'' [''create'', ''update'']"
| "needs (EvGetDeployment _ _) = on ''apps'' ''deployments'' reads"
| "needs (EvUpdateDeployment _ _) = on ''apps'' ''deployments'' [''update'']"
| "needs (EvFetchCRD _ _) = on ''apiextensions.k8s.io'' ''customresourcedefinitions'' reads"
| "needs (EvApplyCRD _ _) = on ''apiextensions.k8s.io'' ''customresourcedefinitions'' [''create'', ''update'']"
| "needs (EvNewPaginator _ _) = []"
| "needs (EvMorePages _ _) = []"
| "needs (EvNextPage _ _) = []"
| "needs (EvModifyDBInstance _ _ _) = []"

primrec provider_needs :: "provider_event \<Rightarrow> (string \<times> string \<times> string) list" where
  "provider_needs (PvGetDeployment _ _) = on ''apps'' ''deployments'' reads"
| "provider_needs (PvServerResources _ _) = []"
| "provider_needs (PvGetProvider _ _) = on ''dbaas.redhat.com'' ''dbaasproviders'' reads"
| "provider_needs (PvListClusterRoles _ _) = on ''rbac.authorization.k8s.io'' ''clusterroles'' reads"
| "provider_needs (PvCreateProvider _ _) = on ''dbaas.redhat.com'' ''dbaasproviders'' [''create'']"

abbreviation permitted :: "rbac_rule list \<Rightarrow> event \<Rightarrow> bool" where
  "permitted rules e \<equiv> list_all (allows rules) (needs e)"

lemmas rules_defs = instance_rules_def connection_rules_def inventory_rules_def provider_rules_def

lemma role_allows:
  "list_all (allows manager_role) (on ''dbaas.redhat.com'' ''rdsinventories'' [''get'', ''list'', ''watch'', ''update''] @
     on ''dbaas.redhat.com'' ''rdsinventories/status'' [''update''] @
     on ''dbaas.redhat.com'' ''rdsconnections'' reads @ on ''dbaas.redhat.com'' ''rdsconnections/status'' [''update''] @
     on ''dbaas.redhat.com'' ''rdsinstances'' [''get'', ''list'', ''watch'', ''update''] @
     on ''dbaas.redhat.com'' ''rdsinstances/status'' [''update''] @
     on ''rds.services.k8s.aws'' ''dbinstances'' [''get'', ''list'', ''watch'', ''create'', ''update'', ''delete''] @
     on ''services.k8s.aws'' ''adoptedresources'' [''get'', ''list'', ''watch'', ''create'', ''delete''] @
     on [] ''secrets'' [''get'', ''list'', ''watch'', ''create'', ''update'', ''delete''] @
     on [] ''configmaps'' [''get'', ''list'', ''watch'', ''create'', ''update'', ''delete''] @
     on ''apps'' ''deployments'' [''get'', ''list'', ''watch'', ''update''] @
     on ''apiextensions.k8s.io'' ''customresourcedefinitions'' [''get'', ''list'', ''watch'', ''create'', ''update''])"
  by code_simp

lemma permitted_all: "permitted manager_role e"
proof -
  note allowed = role_allows [unfolded on_def append.simps list.map list_all_append list.pred_inject]
  show ?thesis by (cases e; simp only: needs.simps on_def list.map list.pred_inject allowed)
qed

section \<open>Enough, and not enough\<close>

text \<open>
  The generated role allows every call that a reconciliation of an instance, a connection or an
  inventory makes. The inventory controller's own markers would not do: they do not let it scale
  the deployment of the ACK controller, which it has from the provider's markers.
\<close>

theorem reconcilers_are_permitted:
  "wp (Reconcile_instance E req) (\<lambda>_ t. list_all (permitted manager_role) (history t)) (init_ins w) \<and>
   wp (Reconcile_connection E req) (\<lambda>_ t. list_all (permitted manager_role) (history t)) (init_con w) \<and>
   wp (Reconcile_inventory E N n req) (\<lambda>_ t. list_all (permitted manager_role) (history t)) (init_inv w) \<and>
   \<not> permitted inventory_rules (EvUpdateDeployment d r)"
proof -
  have "\<not> allows inventory_rules (''apps'', ''deployments'', ''update'')" by code_simp
  moreover have "list_all (permitted manager_role) h" for h using permitted_all by (simp add: list_all_iff)
  ultimately show ?thesis by (simp add: on_def)
qed

text \<open>A call of the provider's reconciler that was answered, and not with an error.\<close>

primrec succeeded :: "provider_event \<Rightarrow> bool" where
  "succeeded (PvGetDeployment _ r) = (\<not> isl r)"
| "succeeded (PvServerResources _ r) = (\<not> isl r)"
| "succeeded (PvGetProvider _ r) = (\<not> isl r)"
| "succeeded (PvListClusterRoles _ r) = (\<not> isl r)"
| "succeeded (PvCreateProvider _ r) = (\<not> isl r)"

text \<open>
  C26: with the generated role the operator never registers its DBaaSProvider. Let \<open>h1\<close> be the calls
  that a reconciliation has got an answer to so far, up to its end or up to a call that does not
  return, as a read through the manager's cache does not when the cache may not list and watch its
  resource. If only calls succeeded for which the role has the rules, then the provider was not
  created, although the role would let it be; what is missing are the rules for the ClusterRoles,
  so their listing, if it was answered at all, was answered with an error, and that is the
  reconciliation's result.
\<close>

theorem provider_is_never_registered:
  assumes "run_state (Reconcile_provider P nv req) \<lparr>world = w, history = []\<rparr> = (res, t)" "history t = h1 @ h2"
    and "\<And>e. e \<in> set h1 \<Longrightarrow> succeeded e \<Longrightarrow> list_all (allows manager_role) (provider_needs e)"
  shows "PvCreateProvider p r \<notin> set h1 \<and> list_all (allows manager_role) (provider_needs (PvCreateProvider p r)) \<and>
    \<not> list_ex (allows manager_role) (provider_needs (PvListClusterRoles sel a)) \<and>
    (PvListClusterRoles sel a \<in> set h1 \<longrightarrow> (\<exists>e. a = Inl e \<and> res = Ret (False, Some e)))"
proof -
  have missing: "\<not> list_ex (allows manager_role) (provider_needs (PvListClusterRoles sel a))" for sel a
  proof -
    have "\<not> list_ex (allows manager_role) (on ''rbac.authorization.k8s.io'' ''clusterroles'' reads)" by code_simp
    then show ?thesis by simp
  qed
  have refused: "PvListClusterRoles sel a \<notin> set h1 \<or> isl a" for sel a
    using assms(3) [of "PvListClusterRoles sel a"] missing [of sel a] by (cases a) (auto simp: on_def)
  have "allows manager_role (''dbaas.redhat.com'', ''dbaasproviders'', ''create'')" by code_simp
  then have create: "list_all (allows manager_role) (provider_needs (PvCreateProvider p r))" by (simp add: on_def)
  have "wp (Reconcile_provider P nv req) (\<lambda>res t. \<forall>h1 h2. history t = h1 @ h2 \<longrightarrow>
      (\<forall>p r. PvCreateProvider p r \<in> set h1 \<longrightarrow> (\<exists>sel roles. PvListClusterRoles sel (Inr roles) \<in> set h1)) \<and>
      (\<forall>sel e. PvListClusterRoles sel (Inl e) \<in> set h1 \<longrightarrow> res = Ret (False, Some e))) \<lparr>world = w, history = []\<rparr>"
    unfolding Reconcile_provider_def checkCrdInstalled_def register_provider_def
    by (auto simp: wp_simps Cons_eq_append_conv split: sum.splits prod.splits option.splits)
  from wp_run [OF this assms(1)] assms(2)
  have got: "\<And>p r. PvCreateProvider p r \<in> set h1 \<Longrightarrow> \<exists>sel roles. PvListClusterRoles sel (Inr roles) \<in> set h1"
    "\<And>sel e. PvListClusterRoles sel (Inl e) \<in> set h1 \<Longrightarrow> res = Ret (False, Some e)" by blast+
  have none: "PvListClusterRoles sel (Inr roles) \<notin> set h1" for sel roles using refused [of sel "Inr roles"] by simp
  then have "PvCreateProvider p r \<notin> set h1" using got(1) by blast
  moreover have "PvListClusterRoles sel a \<in> set h1 \<longrightarrow> (\<exists>e. a = Inl e \<and> res = Ret (False, Some e))"
  proof (cases a)
    case (Inl e)
    then show ?thesis using got(2) [of sel e] by (intro impI exI [of _ e]) simp
  next
    case (Inr roles)
    then show ?thesis using none [of sel roles] by simp
  qed
  ultimately show ?thesis using missing [of sel a] create by simp
qed

lemma provider_is_never_registered_example:
  "wp (Reconcile_provider (sample_provider\<lparr>pv_listClusterRoles := \<lambda>sel. Pair (Inl (PlainError ''forbidden''))\<rparr>) ''v1''
      \<lparr>k_namespace = ''operators'', k_name = ''rds''\<rparr>)
     (\<lambda>res t. res = Ret (False, Some (PlainError ''forbidden''))) \<lparr>world = 0, history = []\<rparr>"
    (is "wp ?m _ ?s")
proof -
  let ?e = "PvListClusterRoles (cluster_role_selector ''v1'') (Inl (PlainError ''forbidden''))"
  obtain res t where run: "run_state ?m ?s = (res, t)" by fastforce
  have "allows manager_role (''apps'', ''deployments'', v)" if "v \<in> set reads" for v
  proof -
    have "list_all (\<lambda>v. allows manager_role (''apps'', ''deployments'', v)) reads" by code_simp
    then show ?thesis using that by (auto simp: list_all_iff)
  qed
  then have "wp ?m (\<lambda>_ t. ?e \<in> set (history t) \<and> (\<forall>e \<in> set (history t). succeeded e \<longrightarrow>
      list_all (allows manager_role) (provider_needs e))) ?s"
    by (simp add: Reconcile_provider_def checkCrdInstalled_def register_provider_def sample_provider_def wp_simps on_def)
  from wp_run [OF this run] have e: "?e \<in> set (history t)" "\<And>e. e \<in> set (history t) \<Longrightarrow> succeeded e \<Longrightarrow>
      list_all (allows manager_role) (provider_needs e)" by blast+
  have "res = Ret (False, Some (PlainError ''forbidden''))"
    using provider_is_never_registered [OF run, of "history t" "[]"] e by fastforce
  then show ?thesis using run by (simp add: wp_def)
qed

end
