(* ===== verification/Spec2Isabelle.thy ===== *)
theory Spec2Isabelle
  imports Paginator Composition InventoryDeparture DeepCopyFacts Visibility Permissions
begin

text \<open>
  The RDS DBaaS operator: a Kubernetes operator that puts Amazon RDS behind the DBaaS platform. This
  library models its controllers, its admission webhook, its start and its generated deep copies,
  and proves what makes them correct for every behaviour of the cluster, of AWS and of the random
  sources.

  The program. Three custom resources have a reconciler each. \<open>RDSInventory\<close>
  (\<open>controllers/rdsinventory_controller.go\<close>) stands for an AWS account: its reconciler checks the
  user's credentials, configures and starts the ACK controller (AWS Controllers for Kubernetes),
  adopts the DB instances of the account into the cluster, gives adopted ones a password and
  lists all of them in its status; on deletion it takes all of this down in order. \<open>RDSInstance\<close>
  (\<open>controllers/rdsinstance_controller.go\<close>) asks for a new DB instance: its reconciler writes an ACK
  \<open>DBInstance\<close> from the user's parameters, with generated credentials
  (\<open>controllers/credential.go\<close>), and copies that object's status. \<open>RDSConnection\<close>
  (\<open>controllers/rdsconnection_controller.go\<close>) publishes the login and address of a DB instance from
  the inventory's list. They interact through the cluster only: the inventory's ready condition
  gates the other two, its list leads a connection to a DB instance, and the DB instance's
  specification leads it to the credentials secret. Changes of DB instances wake the resources
  concerned. \<open>controllers/dbaasprovider_controller.go\<close> registers the operator with the platform,
  \<open>api/v1alpha1/rdsinventory_webhook.go\<close> admits one inventory, \<open>main.go\<close> reads the command line, tells
  the controller manager its types, its options and its cache, and starts everything.
  \<open>api/v1alpha1/zz_generated.deepcopy.go\<close> holds the methods with which controllers get copies of
  their own of the objects of that cache.

  How the code is modelled. A reconciler is a program of the state monad over a record with the
  variables of its \<open>Reconcile\<close> (results, status, reason, message, the objects it loads), the
  outside world and a history of calls. Its closures are definitions of the same name with the
  prefix \<open>ins_\<close>, \<open>inv_\<close> or \<open>con_\<close> where several controllers have one; blocks of a long function
  are definitions of their own. A closure that returns true is the flow \<open>Stop\<close>, one that returns
  false \<open>Continue\<close>; a nil dereference is \<open>Panic\<close>, fuel that ran out is \<open>Diverge\<close>; the deferred
  status update runs on every flow but the last. A call to the API server, AWS or a random source
  is a field of a record \<open>env\<close>, a function on an arbitrary world; helpers of other modules are
  fields of \<open>lib\<close>. So every theorem holds for every outside, errors, conflicts and changes made by
  others between two calls included. What is relied on is named where it is: \<open>conditions_ok\<close>,
  \<open>phase_kept\<close>, \<open>rand_ok\<close>, \<open>owner_annotations_ok\<close>, \<open>paged\<close>, \<open>healthy\<close>, \<open>stores\<close>, \<open>deletes\<close>, \<open>takes_down\<close>,
  \<open>index_answer\<close>, \<open>labels_kept\<close>, \<open>selector_ok\<close>, \<open>copiers_ok\<close>, \<open>excludes\<close>,
  \<open>accepts\<close>, \<open>finalizers_ok\<close>, \<open>finalizer_list\<close>. The world of \<open>Sample\<close>, or one beside the theorem, meets
  them, and the examples evaluate each conditional property there. What a hypothesis excludes is
  said in the text of the property.

  The theories. \<open>Prelude\<close>: errors, flow, the weakest preconditions of the monad. \<open>GoLib\<close>: the parts of
  Go's standard library in use, numbers at 64 bits. \<open>KubeTypes\<close>: objects. \<open>KubeClient\<close>: the outside, calls, and \<open>CreateOrUpdate\<close>.
  \<open>Reconcile\<close>: what the reconcilers share, with the contracts of the report closures (\<open>reporter\<close>,
  \<open>waiting_reporter\<close>) and of the finalizer check (\<open>finalizer_guard\<close>) as locales, interpreted for
  each controller. \<open>PureUpdate\<close>: \<open>CreateOrUpdate\<close> with a pure function. \<open>CallLog\<close>: a Hoare logic in
  which every call is justified by the calls before it.
  Instances: \<open>InstanceSpec\<close> (\<open>setDBInstanceSpec\<close>, \<open>setCredentials\<close>), \<open>InstanceStatus\<close>
  (\<open>parseDBInstanceStatus\<close>), \<open>Credential\<close>, \<open>InstanceController\<close>; lemmas in \<open>InstanceSpecFacts\<close> and
  \<open>InstanceFacts\<close>, properties in \<open>InstanceProperties\<close>. Connections: \<open>ConnectionController\<close>,
  \<open>ConnectionFacts\<close>, \<open>ConnectionProperties\<close>. Inventories: \<open>InventoryController\<close>, \<open>InventoryDeletion\<close> (the
  take-down as a state machine), \<open>InventoryFacts\<close> and \<open>InventoryAdoption\<close> (why each call is made),
  \<open>InventoryProperties\<close>. \<open>Requests\<close>: events. \<open>Paginator\<close>: the contract of the AWS paginator, the wrapper of
  the SDK (\<open>controllers/rds/dbinstance.go\<close>), the mock (\<open>controllers/rds/test\<close>), and the end of the inventory's reconciliation. \<open>ProviderController\<close>,
  \<open>Webhook\<close>, \<open>Startup\<close>: the files of these names. \<open>FilePath\<close>: where the CRD files are read
  (\<open>readCRDFile\<close>). \<open>Flags\<close>: the command line, parsed as Go's \<open>flag\<close> does. \<open>Manager\<close>: the scheme, the
  manager's options and the \<open>SetupWithManager\<close> functions. \<open>Visibility\<close>: the reconcilers against the
  manager's cache, by a calculus of the calls a program can make. \<open>Permissions\<close>: the RBAC markers
  against the calls. \<open>DeepCopy\<close>: the generated methods over an explicit store of objects, arrays
  and foreign data; \<open>DeepCopyFacts\<close>: the contract of a deep copy as a locale \<open>deep_copier\<close>, interpreted for each type. \<open>Composition\<close>, \<open>Convergence\<close> and the end of this theory: what the
  controllers do for each other, and an instance over several reconciliations; \<open>Departure\<close> and
  \<open>InventoryDeparture\<close>: the deletion of an instance and of an inventory, each as a step relation of
  reconciliations and outside events, in a cluster that answers without errors. \<open>Sample\<close>, \<open>SampleRuns\<close>, \<open>SampleInventory\<close>: example runs.

  What is shown. Protocols: the history of every reconciliation has the shape \<open>ins_trace\<close>, \<open>con_trace\<close>
  or \<open>inv_trace\<close>, from which the safety properties are read off: what is written comes from what
  was read and checked in the same reconciliation (credentials, adoption, passwords, logins,
  addresses, finalizers), and readiness is reported only when everything is in place. Functions:
  the parameters accepted and rejected, the status map, conditions, the published data. Strength
  of passwords. Termination of the paging loop for every paginator that makes progress, and
  exactly when the wait at start-up ends. Errors: which inputs make the code panic, stop or
  report a wrong reason. Composition: an instance becomes ready in three reconciliations, the
  deletions of instances and inventories complete however reconciliations interleave with events
  that do not bring back what is gone, a second mutation changes nothing, a connection becomes
  ready in a healthy cluster, the credentials of one controller are usable by the other, and when
  their secrets clash. Around the controllers: what they create is in the cache they read; the role
  generated from their markers allows their calls, except the one that the registration of the
  provider rests on; the log level of the command line
  has no effect; a deep copy shares nothing with its original.

  Bounds. Two loops may not end by themselves: over the pages of AWS and the wait for the ACK
  deployment. They take fuel; \<open>None\<close>, or the flow \<open>Diverge\<close>, says that it ran out. One more
  turn than pages is enough for the first (\<open>inventory_reconcile_ends\<close>), the second ends within
  \<open>n\<close> turns exactly when one of the first \<open>n\<close> lookups is answered (\<open>setup_waits_for_deployment\<close>). A
  reconciliation does not use the second, so its fuel \<open>Suc n\<close> only bounds the pages.

  Not modelled. Log output, contexts and sleeping; what the controller manager, the API server, the
  file decoders, the AWS SDK and the logger do behind their interfaces (parameters). A call that
  never returns has no run of its own: what holds of every prefix of a history holds of it. The
  webhook is its verdict on one request; how the server orders verdicts and writes is not modelled. Go
  maps are partial maps, so the order of iteration, which the code never uses, is not modelled;
  pointers inside slices are taken non-nil. Reconcilers run one at a time; what others do in
  between is the freedom of the outside.
\<close>

section \<open>Properties that span the controllers\<close>

text \<open>
  C5: a connection becomes ready in one reconciliation, in a cluster that answers without errors and
  where the connection may control the secret and the config map of its names, which are either
  not there yet or of no other controller. If the inventory is ready and lists the DB instance of
  the connection, and the DB instance is available, has a login, an engine and an address, then the
  reconciliation ends without error or retry, the secret, the one found or a fresh one, is stored
  with that login, and the last status written says ready.
\<close>

theorem connection_becomes_ready:
  assumes "healthy E req c iv \<lparr>k_namespace = k_namespace (con_inventoryRef c), k_name = di_name ins\<rparr> db
      \<lparr>k_namespace = skr_namespace ref, k_name = skr_name ref\<rparr> sec"
    and "conditions_ok E" "inventory_ready E iv"
    and "find (\<lambda>ins. di_instanceID ins = con_instanceID c) (inv_instances iv) = Some ins"
    and "st_dbInstanceStatus (db_status db) = Some ''available''"
    and "sp_masterUserPassword (db_spec db) = Some ref" "login db sec u p" "addressed db"
  shows "wp (Reconcile_connection E req) (\<lambda>f t. f = Stop \<and> r_err t = None \<and> \<not> r_requeue t \<and>
    (\<exists>h final r. history t = h @ [EvStatusConnection final r] \<and> stores_login E c u p h \<and>
       condition_true E (con_conditions final) connectionConditionReady)) (init_con w)"
proof -
  have get: "fst (api_getConnection E req w) = Inr c" "fst (api_getInventory E (con_inventoryRef c) w) = Inr iv" for w
    using assms(1) unfolding healthy_def by blast+
  have body: "wp (con_body E) (\<lambda>f t. f = Stop \<and> v_status t = ConditionTrue \<and> r_err t = None \<and> \<not> r_requeue t \<and>
      stores_login E c u p (history t)) s" if "cn_connection s = c" for s :: "'a con_st"
    unfolding con_body_def wp_bind wp_get Let_def that
    by (rule wp_answer [OF get(2)])
      (use assms(3) that in \<open>simp add: wp_simps wp_connects [OF assms(1,7,8,4) refl assms(5,6) refl]\<close>)
  show ?thesis
    unfolding Reconcile_connection_def wp_bind
    by (rule wp_answer [OF get(1)])
      (auto simp: wp_simps intro!: wp_mono [OF body] wp_mono [OF wp_connection_ready [OF assms(1,2)]])
qed

lemma connection_becomes_ready_example:
  "wp (Reconcile_connection sample (sample_key ''binding'')) (\<lambda>f t. f = Stop \<and> r_err t = None) (init_con 0)"
  by (rule wp_mono [OF connection_becomes_ready [OF sample_healthy sample_conditions_ok sample_ready sample_lookup
        sample_db_facts(1,2) sample_addressed(2,1)]]) simp

text \<open>
  C28: the credentials that the instance and the inventory controller give a DB instance are the ones
  the connection controller uses. Once \<open>setCredentials\<close> has returned, a connection to a DB
  instance observed with that specification and with an endpoint passes the check of its login,
  as long as the credentials secret is there with a password that is not empty, and the login is
  the user in the specification and that password.
\<close>

theorem credentials_are_usable:
  assumes "run_state (setCredentials E db ns ow kind) s0 = (Ret (sec0, db1), t0)"
    and "db_spec observed = db_spec db1" "st_endpoint (db_status observed) \<noteq> None"
    and "\<And>w. fst (api_getSecret E \<lparr>k_namespace = ns, k_name = credentials_name (om_name (db_meta db))\<rparr> w) = Inr sec"
    and "data_get (sec_data sec) ''password'' = Some p" "p \<noteq> []" "cn_dbInstance s = observed"
  shows "wp (checkDBConnectionStatus E) (\<lambda>f t. f = Continue \<and> cn_secret t = sec \<and>
    (\<exists>u. sp_masterUsername (db_spec db1) = Some u \<and> login observed sec u p)) s"
proof -
  have "with_credentials ns db db1"
    using does_setCredentials [of E ns db ow kind] wp_run [OF _ assms(1)] unfolding does_def by fastforce
  then obtain u where u: "sp_masterUsername (db_spec db1) = Some u"
    "sp_masterUserPassword (db_spec db1) = Some \<lparr>skr_name = credentials_name (om_name (db_meta db)),
       skr_namespace = ns, skr_key = ''password''\<rparr>"
    unfolding with_credentials_def by auto
  then have l: "login observed sec u p" using assms(2,5,6) by (simp add: login_def)
  show ?thesis
    by (rule wp_found_login [OF assms(7) l assms(3), unfolded assms(2), OF u(2)]) (simp_all add: assms(4) u(1) l)
qed

lemma credentials_are_usable_example:
  "wp (checkDBConnectionStatus sample) (\<lambda>f _. f = Continue) ((init_con 0)\<lparr>cn_dbInstance := sample_db\<rparr>)"
proof -
  obtain r t where run: "run_state (setCredentials sample sample_db ''apps'' None ''DBInstance'') (init_ins 0) = (r, t)"
    by fastforce
  obtain sec where "r = Ret (sec, sample_db)" using wp_run [OF sample_db_credentials run] by blast
  with run have run: "run_state (setCredentials sample sample_db ''apps'' None ''DBInstance'') (init_ins 0) = (Ret (sec, sample_db), t)"
    by simp
  show ?thesis
    by (rule wp_mono [OF credentials_are_usable [OF run refl, where p = "''Sw0rd~fish''" and
        sec = "sample_secret \<lparr>k_namespace = ''apps'', k_name = credentials_name (om_name (db_meta sample_db))\<rparr>"]])
      (simp_all add: sample_db_facts sample_secret_password)
qed

text \<open>
  A DB instance that the inventory lists can be found by its identifier. The list holds every DB
  instance of the namespace, and the connection controller, looking the connection's instance id
  up in it, asks for the DB instance with that identifier when there is only one.
\<close>

theorem listed_instance_is_found:
  assumes "listed_instances E dbs = Some (inv_instances iv)" "db \<in> set dbs"
    and "sp_dbInstanceIdentifier (db_spec db) = Some (con_instanceID c)"
    and "\<And>db'. db' \<in> set dbs \<Longrightarrow> sp_dbInstanceIdentifier (db_spec db') = Some (con_instanceID c) \<Longrightarrow> db' = db"
    and "cn_inventory s = iv" "cn_connection s = c"
    and "api_getDBInstance E \<lparr>k_namespace = k_namespace (con_inventoryRef c), k_name = om_name (db_meta db)\<rparr> (world s) = (Inr observed, w)"
    and "st_dbInstanceStatus (db_status observed) = Some ''available''"
  shows "wp (checkDBInstanceStatus E) (\<lambda>f t. f = Continue \<and> cn_dbInstance t = observed) s"
proof -
  have "find (\<lambda>ins. di_instanceID ins = con_instanceID c) (inv_instances iv) =
      Some (listed_instance E db (con_instanceID c))"
    using find_listed [OF assms(1-4)] by simp
  then show ?thesis
    using assms(5-8) by (simp add: checkDBInstanceStatus_def wp_simps Let_def listed_instance_def)
qed

lemma listed_instance_is_found_example:
  "wp (checkDBInstanceStatus sample) (\<lambda>f t. f = Continue \<and> cn_dbInstance t = sample_db)
     ((init_con 0)\<lparr>cn_connection := sample_connection, cn_inventory :=
        sample_inventory\<lparr>inv_instances := [listed_instance sample sample_db ''orders'']\<rparr>\<rparr>)"
  by (rule listed_instance_is_found [where dbs = "[sample_db]" and db = sample_db and w = 0])
    (simp_all add: sample_db_def sample_connection_def init_con_def)

text \<open>
  C29: the login secrets of a connection and of a DB instance clash when the two have the same name
  and namespace. The secret that the credentials code creates for a DB instance is the one the
  connection looks up for itself, and it is controlled by the owner it was created for, so
  that, as \<open>SetControllerReference\<close> refuses a second controller, the connection cannot be
  published as long as that secret is found: the step ends with the error and writes nothing.
\<close>

theorem login_secrets_clash:
  assumes "excludes E ow (OwnerConnection c)"
    and "run_state (setCredentials E db (om_namespace (con_meta c)) (Some ow) kind) s0 = (m, t0)"
    and "EvCreateSecret sec r \<in> set (history t0)" "EvCreateSecret sec r \<notin> set (history s0)"
    and "om_name (con_meta c) = om_name (db_meta db)" "cn_connection s = c"
    and "cou_fetchSecret E (fresh_con_secret c) (world s) = (Inr (Some found), w)"
    and "om_controller (sec_meta found) = om_controller (sec_meta sec)"
  shows "object_key (sec_meta sec) = object_key (sec_meta (fresh_con_secret c)) \<and>
    wp (syncConnectionStatus E) (\<lambda>f t. f = Stop \<and> r_err t \<noteq> None \<and>
      v_reason t = connectionStatusReasonBackendError \<and>
      history t = history s @ [EvFetchSecret (fresh_con_secret c) (Inr (Some found))]) s"
proof -
  note made = created_secret [OF assms(2-4)]
  have "object_key (sec_meta sec) = object_key (sec_meta (fresh_con_secret c))"
    using assms(1,5) made by (auto simp: excludes_def object_key_def fresh_con_secret_def credentials_name_def)
  moreover obtain e where "SetControllerReference E (OwnerConnection c)
      ((sec_meta found)\<lparr>om_labels := buildConnectionLabels E c\<rparr>) = Inl e"
    using assms(1,8) made unfolding excludes_def by fastforce
  then have "wp (syncConnectionStatus E) (\<lambda>f t. f = Stop \<and> r_err t \<noteq> None \<and>
      v_reason t = connectionStatusReasonBackendError \<and>
      history t = history s @ [EvFetchSecret (fresh_con_secret c) (Inr (Some found))]) s"
    using assms(6,7) unfolding syncConnectionStatus_def con_createOrUpdateSecret_def fresh_con_secret_def [symmetric]
    by (simp add: CreateOrUpdate_def wp_simps Let_def controlled_secret_def con_returnError_def)
  ultimately show ?thesis ..
qed

text \<open>The credentials code first, then the connection, in the cluster in memory.\<close>

lemma login_secrets_clash_example:
  "wp (setCredentials stateful sample_db ''apps'' (Some (OwnerInstance novice)) ''RDSInstance'') (\<lambda>_ t0.
      wp (syncConnectionStatus stateful) (\<lambda>f t. f = Stop \<and> v_reason t = connectionStatusReasonBackendError)
        ((init_con (world t0))\<lparr>cn_connection := namesake\<rparr>))
    (init_ins \<lparr>v_inst = novice, v_db = None, v_sec = None\<rparr>)"
    (is "wp ?m ?Q ?s0")
proof -
  obtain m t0 where run: "run_state ?m ?s0 = (m, t0)" by fastforce
  obtain sec r where sec: "EvCreateSecret sec r \<in> set (history t0)" "v_sec (world t0) = Some sec"
    using wp_run [OF stateful_creates run] by (auto simp: init_ins_def)
  have "excludes stateful (OwnerInstance novice) (OwnerConnection namesake)"
    by (auto simp: excludes_def stateful_def idle_def set_controller_def object_key_def novice_def namesake_def sample_meta_def
        split: if_splits)
  moreover have "run_state (setCredentials stateful sample_db (om_namespace (con_meta namesake)) (Some (OwnerInstance novice))
      ''RDSInstance'') ?s0 = (m, t0)" using run by (simp add: namesake_def sample_meta_def)
  moreover have "cou_fetchSecret stateful = (\<lambda>x w. (Inr (v_sec w), w))" by (simp add: stateful_def)
  ultimately have "wp (syncConnectionStatus stateful) (\<lambda>f t. f = Stop \<and> v_reason t = connectionStatusReasonBackendError)
      ((init_con (world t0))\<lparr>cn_connection := namesake\<rparr>)"
    by (intro wp_mono [OF login_secrets_clash [OF _ _ sec(1), THEN conjunct2]])
      (auto simp: init_ins_def init_con_def sec(2) namesake_def sample_db_def sample_meta_def)
  then show ?thesis using run by (simp add: wp_def)
qed

text \<open>
  C4: an RDSInstance becomes ready. The cluster stores what it is told, answers without errors and
  keeps the inventory ready, the random source works, and the owner helpers accept the instance as
  an owner; the instance is new: not being deleted, with valid parameters, without its finalizer,
  its DB instance or its credentials secret. Then it has the finalizer after the first
  reconciliation, and after the second its DB instance, with the specification it asks for; once
  the ACK controller has made that available, without touching its specification or owner
  annotations, the third one leaves it alone, sets the phase and the condition to ready and ends
  without error or retry.
\<close>

theorem instance_becomes_ready:
  assumes "stores E view req iv inst" "inventory_ready E iv" "conditions_ok E" "finalizers_ok E" "rand_ok E"
    and "accepts E inst" "valid_params (ri_otherInstanceParams inst)" "ins_live inst" "\<not> ins_guarded E inst"
    and "view w0 = \<lparr>v_inst = inst, v_db = None, v_sec = None\<rparr>"
  shows "wp (Reconcile_instance E req) (\<lambda>_ t1.
      ContainsFinalizer E (ri_meta (v_inst (view (world t1)))) instanceFinalizer \<and>
      wp (Reconcile_instance E req) (\<lambda>_ t2.
      (\<exists>db m. v_db (view (world t2)) = Some db \<and> desired_db inst ((fresh_db iv inst)\<lparr>db_meta := m\<rparr>) db) \<and>
      (\<forall>w3. ack_provisions E (view (world t2)) (view w3) \<longrightarrow>
        wp (Reconcile_instance E req) (\<lambda>f t3. f = Stop \<and> r_err t3 = None \<and> \<not> r_requeue t3 \<and>
          ri_phase (v_inst (view (world t3))) = instancePhaseReady \<and>
          condition_true E (ri_conditions (v_inst (view (world t3)))) instanceConditionReady \<and>
          v_db (view (world t3)) = v_db (view w3)) (init_ins w3)))
    (init_ins (world t1))) (init_ins w0)"
proof (rule first_run [OF assms(1,2,4,8-10)], rule conjI, simp, rule second_run [OF assms(1,2,5-8)])
  fix y m new sec and t2 :: "'a ins_st"
  assume y: "kin inst y" "ins_guarded E y" "om_name m = om_name (ri_meta inst)"
    "desired_db inst ((fresh_db iv inst)\<lparr>db_meta := m\<rparr>) new" "passworded sec"
    "view (world t2) = \<lparr>v_inst = y, v_db = Some new, v_sec = Some sec\<rparr>"
  have "om_name (db_meta new) = om_name (ri_meta inst)" using y(3,4) by (auto simp: desired_db_def)
  then show "(\<exists>db m. v_db (view (world t2)) = Some db \<and> desired_db inst ((fresh_db iv inst)\<lparr>db_meta := m\<rparr>) db) \<and>
      (\<forall>w3. ack_provisions E (view (world t2)) (view w3) \<longrightarrow>
        wp (Reconcile_instance E req) (\<lambda>f t3. f = Stop \<and> r_err t3 = None \<and> \<not> r_requeue t3 \<and>
          ri_phase (v_inst (view (world t3))) = instancePhaseReady \<and>
          condition_true E (ri_conditions (v_inst (view (world t3)))) instanceConditionReady \<and>
          v_db (view (world t3)) = v_db (view w3)) (init_ins w3))"
    using y by (auto simp: ack_provisions_def intro!: wp_mono [OF third_run [OF assms(1-3,8) y(1,2) _ y(5,4)]])
qed auto

lemma instance_becomes_ready_example:
  "wp (Reconcile_instance stateful (sample_key ''db1'')) (\<lambda>_ t1. instanceFinalizer \<in> set (om_finalizers (ri_meta (v_inst (world t1)))) \<and>
      wp (Reconcile_instance stateful (sample_key ''db1'')) (\<lambda>_ t2. \<exists>db. v_db (world t2) = Some db) (init_ins (world t1)))
    (init_ins \<lparr>v_inst = novice, v_db = None, v_sec = None\<rparr>)"
  by (rule wp_mono [OF instance_becomes_ready [OF stateful_stores stateful_ok(5,1-4) novice_facts refl]], erule conjE, rule conjI, simp add: stateful_def idle_def, erule wp_mono) blast

text \<open>
  C18: writing the DB instance again changes nothing. What the mutate function made once, it leaves as
  it is the next time, whatever status the object has got since, as long as the owner
  annotations are still there and the credentials secret has a password: it reads the secret,
  writes none and makes no new password, so that the update is none.
\<close>

theorem second_mutation_is_none:
  assumes "run_state (dbInstance_mutate E inst old) s0 = (Ret new, t0)"
    and "db_spec db = db_spec new" "om_name (db_meta db) = om_name (db_meta new)"
    and "SetOwnerAnnotations E (OwnerInstance inst) (db_meta db) = Inr (db_meta db)"
    and "api_getSecret E \<lparr>k_namespace = om_namespace (ri_meta inst), k_name = credentials_name (om_name (db_meta db))\<rparr> (world s) =
      (Inr sec, w)" "passworded sec"
  shows "wp (dbInstance_mutate E inst db) (\<lambda>r t. r = Ret db \<and> history t = history s @
    [EvGetSecret \<lparr>k_namespace = om_namespace (ri_meta inst), k_name = credentials_name (om_name (db_meta db))\<rparr> (Inr sec)]) s"
proof -
  obtain m where "desired_db inst (old\<lparr>db_meta := m\<rparr>) new"
    using wp_run [OF wp_dbInstance_mutate assms(1)] unfolding mutated_def
    by (cases "SetOwnerAnnotations E (OwnerInstance inst) (db_meta old)") auto
  moreover from this have "om_name (db_meta db) = om_name (db_meta (old\<lparr>db_meta := m\<rparr>))"
    using assms(3) by (auto simp: desired_db_def)
  ultimately show ?thesis
    by (rule wp_mutate_again [OF _ assms(2) _ assms(4,5) refl assms(6)]) simp
qed

lemma second_mutation_is_none_example:
  "\<exists>db. wp (dbInstance_mutate sample sample_instance db) (\<lambda>r _. r = Ret db) (init_ins 0)"
proof -
  obtain r t where run: "run_state (dbInstance_mutate sample sample_instance empty_db_instance) (init_ins 0) = (r, t)"
    by fastforce
  obtain new where new: "r = Ret new" using wp_run [OF sample_mutate run] by blast
  have "set_owner (OwnerInstance sample_instance) (db_meta new) = Inr (db_meta new)"
    using wp_run [OF wp_dbInstance_mutate run] new by (auto simp: mutated_def desired_db_def set_owner_def)
  then have "wp (dbInstance_mutate sample sample_instance new) (\<lambda>r _. r = Ret new) (init_ins 0)"
    by (intro wp_mono [OF second_mutation_is_none [OF run [unfolded new] refl refl, where w = 0 and
          sec = "sample_secret \<lparr>k_namespace = om_namespace (ri_meta sample_instance), k_name = credentials_name (om_name (db_meta new))\<rparr>"]])
      (simp_all add: passworded_def sample_secret_password init_ins_def)
  then show ?thesis by blast
qed

end
